theory Spec2Isabelle
  imports Complex_Main "HOL-Library.Log_Nat"
begin

section \<open>The Perceptron class of LogicGates.ipynb\<close>

text \<open>
  The notebook defines one class, \<^verbatim>\<open>Perceptron\<close>, over numpy arrays. A one-dimensional
  array is a list. The class only adds, subtracts, multiplies and compares with zero, so
  its methods are written once for any number type \<open>'a\<close> with these operations. The
  program is their reading at \<open>float64\<close> below, the arithmetic numpy computes with; the
  readings at \<^typ>\<open>real\<close> and \<^typ>\<open>int\<close> are the exact arithmetic of the specification,
  used to say what the rounded run is compared with. The integers \<^verbatim>\<open>0\<close> and \<^verbatim>\<open>1\<close> that the
  class mixes with array elements are the \<open>0\<close> and \<open>1\<close> of the number type, as Python's
  coercion makes them.

  The only exceptions the class can raise on sequences of numbers come from numpy:
  \<^verbatim>\<open>np.zeros\<close> with a size it refuses and \<^verbatim>\<open>np.dot\<close> on arrays of different lengths,
  both a \<^verbatim>\<open>ValueError\<close>. An exception leaves the object as it was mutated so far, so a
  failing method returns the error together with the state reached.
\<close>

datatype error = ValueError

record 'a perceptron =
  weights :: "'a list"
  bias :: 'a
  learning_rate :: 'a

type_synonym 'a dataset = "('a list \<times> 'a) list"

text \<open>
  \<^verbatim>\<open>np.zeros(n)\<close>: an array of \<open>n\<close> zeros of eight bytes each. A negative \<open>n\<close> raises, and so
  does an \<open>n\<close> from \<open>2\<^sup>6\<^sup>0\<close> on, whose size in bytes no longer fits the index type of numpy
  (from \<open>2\<^sup>6\<^sup>3\<close> on \<open>n\<close> itself does not). Below that bound numpy allocates when the host has
  the memory; no statement of this theory says that a construction succeeds for a size
  other than those it names.
\<close>

definition zeros :: "int \<Rightarrow> error + ('a::zero) list" where
  "zeros n =
     (if n < 0 \<or> 2 ^ 60 \<le> n then Inl ValueError else Inr (replicate (nat n) 0))"

text \<open>
  \<^verbatim>\<open>__init__(self, input_size, learning_rate=0.1)\<close>: three assignments and no check of its
  own.
\<close>

definition init :: "int \<Rightarrow> 'a \<Rightarrow> error + ('a::zero) perceptron" where
  "init input_size lr =
     (case zeros input_size of
        Inl e \<Rightarrow> Inl e
      | Inr w \<Rightarrow> Inr \<lparr>weights = w, bias = 0, learning_rate = lr\<rparr>)"

text \<open>\<^verbatim>\<open>activation_function\<close>: \<^verbatim>\<open>return 1 if prediction >= 0 else 0\<close>.\<close>

definition activation_function :: "'a::{zero,one,ord} \<Rightarrow> 'a" where
  "activation_function prediction = (if prediction \<ge> 0 then 1 else 0)"

text \<open>\<^verbatim>\<open>loss_function\<close>: \<^verbatim>\<open>return expected_output - prediction\<close>.\<close>

definition loss_function :: "'a::minus \<Rightarrow> 'a \<Rightarrow> 'a" where
  "loss_function expected_output prediction = expected_output - prediction"

text \<open>
  \<^verbatim>\<open>np.dot\<close> on two one-dimensional arrays: the lengths must agree; the products are
  accumulated from the first index on, starting at zero. numpy leaves the order of the
  additions and the use of a fused multiply-add to its linear algebra library, so in
  \<open>float64\<close> this is the value of \<^verbatim>\<open>np.dot\<close> where the order cannot matter: arrays of one
  element, and products and sums that are exact. The theorems below that depend on the
  value of a dot product in \<open>float64\<close> are about such arrays; the others hold for whatever
  value it returns.
\<close>

definition dot :: "'a::{zero,plus,times} list \<Rightarrow> 'a list \<Rightarrow> error + 'a" where
  "dot x w =
     (if length x \<noteq> length w then Inl ValueError
      else Inr (foldl (+) 0 (map2 (*) x w)))"

text \<open>
  \<^verbatim>\<open>predict(self, x)\<close>: \<^verbatim>\<open>np.dot(x, self.weights) + self.bias\<close>, then the activation.
  The method receives the object and hands it back with its result.
\<close>

definition predict ::
  "'a::{zero,one,plus,times,ord} perceptron \<Rightarrow> 'a list \<Rightarrow> (error + 'a) \<times> 'a perceptron" where
  "predict self x =
     (case dot x (weights self) of
        Inl e \<Rightarrow> (Inl e, self)
      | Inr d \<Rightarrow> (Inr (activation_function (d + bias self)), self))"

text \<open>
  The body of the inner loop of \<^verbatim>\<open>train\<close> on one example: predict, take the error, then
  \<^verbatim>\<open>self.weights += self.learning_rate * error * input_vector\<close> and
  \<^verbatim>\<open>self.bias += self.learning_rate * error\<close>.
\<close>

definition train_example ::
  "'a::{zero,one,plus,minus,times,ord} perceptron \<Rightarrow> 'a list \<times> 'a
     \<Rightarrow> (error \<times> 'a perceptron) + 'a perceptron" where
  "train_example self ex =
     (case ex of (input_vector, output) \<Rightarrow>
        (case predict self input_vector of
           (Inl e, self1) \<Rightarrow> Inl (e, self1)
         | (Inr prediction, self1) \<Rightarrow>
             (let err = loss_function output prediction;
                  self2 = self1\<lparr>weights :=
                            map2 (\<lambda>w x. w + learning_rate self1 * err * x)
                              (weights self1) input_vector\<rparr>
              in Inr (self2\<lparr>bias := bias self2 + learning_rate self2 * err\<rparr>))))"

text \<open>The inner loop: one sweep over the zipped examples, in order.\<close>

fun train_epoch ::
  "'a::{zero,one,plus,minus,times,ord} perceptron \<Rightarrow> 'a dataset
     \<Rightarrow> (error \<times> 'a perceptron) + 'a perceptron" where
  "train_epoch self [] = Inr self"
| "train_epoch self (ex # rest) =
     (case train_example self ex of
        Inl r \<Rightarrow> Inl r
      | Inr self1 \<Rightarrow> train_epoch self1 rest)"

text \<open>The outer loop \<^verbatim>\<open>for _ in range(epochs)\<close>.\<close>

fun train_loop ::
  "nat \<Rightarrow> 'a::{zero,one,plus,minus,times,ord} perceptron \<Rightarrow> 'a dataset
     \<Rightarrow> (error \<times> 'a perceptron) + 'a perceptron" where
  "train_loop 0 self ds = Inr self"
| "train_loop (Suc n) self ds =
     (case train_epoch self ds of
        Inl r \<Rightarrow> Inl r
      | Inr self1 \<Rightarrow> train_loop n self1 ds)"

text \<open>
  \<^verbatim>\<open>train(self, input_vectors, outputs, epochs=10)\<close>; \<^verbatim>\<open>range\<close> of a number below 1 is
  empty, \<^verbatim>\<open>zip\<close> stops at the shorter sequence.
\<close>

definition train ::
  "'a::{zero,one,plus,minus,times,ord} perceptron \<Rightarrow> 'a list list \<Rightarrow> 'a list \<Rightarrow> int
     \<Rightarrow> (error \<times> 'a perceptron) + 'a perceptron" where
  "train self input_vectors outputs epochs =
     train_loop (nat epochs) self (zip input_vectors outputs)"

definition default_epochs :: int where
  "default_epochs = 10"

subsection \<open>What one example does when the lengths agree\<close>

text \<open>
  The state \<^verbatim>\<open>train\<close> reaches after one example whose input has as many components as
  there are weights (no exception is possible then), and two observations of a sweep that
  the code computes and does not keep: the successive values of its local variable
  \<^verbatim>\<open>error\<close>, and how many of them are not zero (the examples the sweep got wrong).
\<close>

definition update ::
  "'a::{zero,one,plus,minus,times,ord} perceptron \<Rightarrow> 'a list \<times> 'a \<Rightarrow> 'a perceptron" where
  "update self ex =
     (case ex of (x, y) \<Rightarrow>
        (let err = y - activation_function (foldl (+) 0 (map2 (*) x (weights self)) + bias self)
         in \<lparr>weights = map2 (\<lambda>w xi. w + learning_rate self * err * xi) (weights self) x,
             bias = bias self + learning_rate self * err,
             learning_rate = learning_rate self\<rparr>))"

text \<open>Every input of a dataset has as many components as the unit has weights.\<close>

definition fits :: "'a perceptron \<Rightarrow> 'a dataset \<Rightarrow> bool" where
  "fits self ds = list_all (\<lambda>ex. length (fst ex) = length (weights self)) ds"

fun epoch_errors :: "'a::{zero,one,plus,minus,times,ord} perceptron \<Rightarrow> 'a dataset \<Rightarrow> 'a list" where
  "epoch_errors self [] = []"
| "epoch_errors self ((x, y) # rest) =
     (case predict self x of
        (Inl e, self1) \<Rightarrow> []
      | (Inr prediction, self1) \<Rightarrow>
          loss_function y prediction #
            (case train_example self (x, y) of
               Inl r \<Rightarrow> []
             | Inr self2 \<Rightarrow> epoch_errors self2 rest))"

definition misclassified :: "'a::{zero,one,plus,minus,times,ord} perceptron \<Rightarrow> 'a dataset \<Rightarrow> nat" where
  "misclassified self ds = length (filter (\<lambda>e. e \<noteq> 0) (epoch_errors self ds))"

subsection \<open>The truth tables of the notebook\<close>

definition OR_inputs :: "'a::{zero,one} list list" where
  "OR_inputs = [[0, 0], [0, 1], [1, 0], [1, 1]]"

definition OR_outputs :: "'a::{zero,one} list" where
  "OR_outputs = [0, 1, 1, 1]"

definition AND_inputs :: "'a::{zero,one} list list" where
  "AND_inputs = [[0, 0], [0, 1], [1, 0], [1, 1]]"

definition AND_outputs :: "'a::{zero,one} list" where
  "AND_outputs = [0, 0, 0, 1]"

definition OR_inputs_3 :: "'a::{zero,one} list list" where
  "OR_inputs_3 =
     [[0, 0, 0], [0, 0, 1], [0, 1, 0], [0, 1, 1], [1, 0, 0], [1, 0, 1], [1, 1, 0], [1, 1, 1]]"

definition OR_outputs_3 :: "'a::{zero,one} list" where
  "OR_outputs_3 = [0, 1, 1, 1, 1, 1, 1, 1]"

definition AND_inputs_3 :: "'a::{zero,one} list list" where
  "AND_inputs_3 =
     [[0, 0, 0], [0, 0, 1], [0, 1, 0], [0, 1, 1], [1, 0, 0], [1, 0, 1], [1, 1, 0], [1, 1, 1]]"

definition AND_outputs_3 :: "'a::{zero,one} list" where
  "AND_outputs_3 = [0, 0, 0, 0, 0, 0, 0, 1]"

text \<open>What \<^verbatim>\<open>predict\<close> returns on each row of a table, in order.\<close>

definition predictions ::
  "'a::{zero,one,plus,times,ord} perceptron \<Rightarrow> 'a list list \<Rightarrow> (error + 'a) list" where
  "predictions self rows = map (\<lambda>x. fst (predict self x)) rows"

subsection \<open>The learning rule in the words of the specification\<close>

text \<open>
  The specification describes training on a weight vector and a bias: for each example
  the prediction \<^verbatim>\<open>predict(input)\<close> at the current weights and bias, the error
  \<open>expected_output - prediction\<close>, at once the update \<open>weight[i] += learning_rate * error *
  input[i]\<close> of every index \<open>i\<close> and \<open>bias += learning_rate * error\<close>; one sweep over the
  examples in their order per epoch. (The specification has no case for an input of the
  wrong length; the rule leaves the pair as it is there.)
\<close>

definition spec_example ::
  "'a::{zero,one,plus,minus,times,ord} \<Rightarrow> 'a list \<times> 'a \<Rightarrow> 'a list \<times> 'a \<Rightarrow> 'a list \<times> 'a" where
  "spec_example lr s ex =
     (case s of (w, b) \<Rightarrow> case ex of (x, y) \<Rightarrow>
        (case fst (predict \<lparr>weights = w, bias = b, learning_rate = lr\<rparr> x) of
           Inl e \<Rightarrow> (w, b)
         | Inr prediction \<Rightarrow>
             (let err = y - prediction
              in (map (\<lambda>i. w ! i + lr * err * x ! i) [0..<length w], b + lr * err))))"

definition spec_epoch ::
  "'a::{zero,one,plus,minus,times,ord} \<Rightarrow> 'a dataset \<Rightarrow> 'a list \<times> 'a \<Rightarrow> 'a list \<times> 'a" where
  "spec_epoch lr ds s = foldl (spec_example lr) s ds"

definition spec_train ::
  "'a::{zero,one,plus,minus,times,ord} \<Rightarrow> 'a dataset \<Rightarrow> nat \<Rightarrow> 'a list \<times> 'a \<Rightarrow> 'a list \<times> 'a" where
  "spec_train lr ds epochs s = (spec_epoch lr ds ^^ epochs) s"

text \<open>
  A hyperplane \<open>(w, b)\<close> classifies every example of a dataset correctly: the unit with
  these weights and this bias predicts each expected output. Over the reals this is the
  step of \<open>\<Sum>\<^sub>i w[i] * x[i] + b\<close>.
\<close>

definition classifies :: "'a::{zero,one,plus,times,ord} list \<Rightarrow> 'a \<Rightarrow> 'a dataset \<Rightarrow> bool" where
  "classifies w b ds =
     list_all (\<lambda>(x, y). fst (predict \<lparr>weights = w, bias = b, learning_rate = 0\<rparr> x) = Inr y) ds"

definition spec_predict :: "real list \<Rightarrow> real \<Rightarrow> real list \<Rightarrow> real" where
  "spec_predict w b x = (if (\<Sum>i<length w. w ! i * x ! i) + b \<ge> 0 then 1 else 0)"

definition separates :: "real list \<Rightarrow> real \<Rightarrow> real dataset \<Rightarrow> bool" where
  "separates w b ds = list_all (\<lambda>(x, y). length x = length w \<and> y = spec_predict w b x) ds"

subsection \<open>Notions of the convergence proof\<close>

text \<open>
  The inner product of two real vectors, and for a hyperplane \<open>(u, c)\<close> and a unit the two
  quantities the classical argument follows: the inner product of \<open>(u, c)\<close> with the
  unit's weights and bias, and the squared length of the unit's weights and bias.
\<close>

definition inner :: "real list \<Rightarrow> real list \<Rightarrow> real" where
  "inner u v = sum_list (map2 (*) u v)"

definition alignment :: "real list \<Rightarrow> real \<Rightarrow> real perceptron \<Rightarrow> real" where
  "alignment u c self = inner u (weights self) + c * bias self"

definition sqnorm :: "real perceptron \<Rightarrow> real" where
  "sqnorm self = inner (weights self) (weights self) + bias self * bias self"

text \<open>
  The hyperplane \<open>(u, c)\<close> has every example of a list on its right side by at least
  \<open>g\<close>, and \<open>r\<close> bounds the squared length of every input extended by a 1.
\<close>

definition margin :: "real list \<Rightarrow> real \<Rightarrow> real \<Rightarrow> real dataset \<Rightarrow> bool" where
  "margin u c g ds =
     list_all (\<lambda>(x, y). length x = length u \<and>
       (y = 1 \<and> g \<le> inner u x + c \<or> y = 0 \<and> inner u x + c \<le> - g)) ds"

definition radius :: "real \<Rightarrow> real dataset \<Rightarrow> bool" where
  "radius r ds = list_all (\<lambda>(x, y). inner x x + 1 \<le> r) ds"

text \<open>
  A unit built with the given size and learning rate, trained on a table for the given
  number of epochs, answers every row of the table with the expected output.
\<close>

definition learns ::
  "'a::{zero,one,plus,minus,times,ord} \<Rightarrow> int \<Rightarrow> 'a list list \<Rightarrow> 'a list \<Rightarrow> int \<Rightarrow> bool" where
  "learns lr input_size input_vectors outputs epochs =
     (case init input_size lr of
        Inl e \<Rightarrow> False
      | Inr unit0 \<Rightarrow>
          (case train unit0 input_vectors outputs epochs of
             Inl r \<Rightarrow> False
           | Inr trained \<Rightarrow> predictions trained input_vectors = map Inr outputs))"

section \<open>The arithmetic of numpy: IEEE 754 binary64\<close>

text \<open>
  The arrays of the notebook hold \<^verbatim>\<open>float64\<close> numbers, and the recorded outputs of its
  cells (a bias of \<^verbatim>\<open>-0.20000000000000004\<close>) show the rounding. A finite number is
  \<open>Finite m e\<close>, standing for \<open>m * 2\<^sup>e\<close>; the results of the operations are normalised
  (\<open>m\<close> odd, or \<open>m = 0\<close> and \<open>e = 0\<close>), so that equal numbers are equal terms. The two zeros
  of the format are not told apart: the class never divides and only compares with
  \<^verbatim>\<open>>=\<close>, for which they behave alike. Every operation computes the exact result and
  rounds it to the nearest number with 53 significant bits and an exponent from \<open>-1074\<close>
  on, ties to the even one, and overflows to an infinity from \<open>2\<^sup>1\<^sup>0\<^sup>2\<^sup>4\<close> on.
\<close>

datatype float64 = Finite int int | PInf | NInf | NaN

function normalize :: "int \<Rightarrow> int \<Rightarrow> float64" where
  "normalize m e =
     (if m = 0 then Finite 0 0
      else if even m then normalize (m div 2) (e + 1)
      else Finite m e)"
  by pat_completeness auto
termination
  by (relation "measure (\<lambda>(m, e). nat \<bar>m\<bar>)") auto

declare normalize.simps [simp del]

text \<open>\<open>m / 2\<^sup>k\<close> rounded to the nearest integer, a tie to the even one.\<close>

definition round_shift :: "int \<Rightarrow> nat \<Rightarrow> int" where
  "round_shift m k =
     (let q = m div 2 ^ k; r = 2 * (m mod 2 ^ k)
      in if r < 2 ^ k then q
         else if r > 2 ^ k then q + 1
         else if even q then q else q + 1)"

text \<open>
  The binary64 number nearest to \<open>m * 2\<^sup>e\<close>. With \<open>n\<close> the number of bits of \<open>\<bar>m\<bar>\<close>, the
  value lies in \<open>[2\<^sup>n\<^sup>+\<^sup>e\<^sup>-\<^sup>1, 2\<^sup>n\<^sup>+\<^sup>e)\<close>, so the last kept bit has weight \<open>2\<^sup>q\<close> with
  \<open>q = max (n + e - 53) (-1074)\<close>.
\<close>

definition round64 :: "int \<Rightarrow> int \<Rightarrow> float64" where
  "round64 m e =
     (let q = max (bitlen \<bar>m\<bar> + e - 53) (- 1074);
          m1 = (if q \<le> e then m else round_shift m (nat (q - e)));
          e1 = max q e
      in if m1 \<noteq> 0 \<and> bitlen \<bar>m1\<bar> + e1 > 1024 then (if m < 0 then NInf else PInf)
         else normalize m1 e1)"

fun f64_add :: "float64 \<Rightarrow> float64 \<Rightarrow> float64" where
  "f64_add (Finite m1 e1) (Finite m2 e2) =
     (let e = min e1 e2
      in round64 (m1 * 2 ^ nat (e1 - e) + m2 * 2 ^ nat (e2 - e)) e)"
| "f64_add NaN _ = NaN"
| "f64_add _ NaN = NaN"
| "f64_add PInf NInf = NaN"
| "f64_add NInf PInf = NaN"
| "f64_add PInf _ = PInf"
| "f64_add _ PInf = PInf"
| "f64_add NInf _ = NInf"
| "f64_add _ NInf = NInf"

fun f64_neg :: "float64 \<Rightarrow> float64" where
  "f64_neg (Finite m e) = Finite (- m) e"
| "f64_neg PInf = NInf"
| "f64_neg NInf = PInf"
| "f64_neg NaN = NaN"

fun f64_mul :: "float64 \<Rightarrow> float64 \<Rightarrow> float64" where
  "f64_mul (Finite m1 e1) (Finite m2 e2) = round64 (m1 * m2) (e1 + e2)"
| "f64_mul NaN _ = NaN"
| "f64_mul _ NaN = NaN"
| "f64_mul (Finite m e) PInf = (if m = 0 then NaN else if m < 0 then NInf else PInf)"
| "f64_mul (Finite m e) NInf = (if m = 0 then NaN else if m < 0 then PInf else NInf)"
| "f64_mul PInf (Finite m e) = (if m = 0 then NaN else if m < 0 then NInf else PInf)"
| "f64_mul NInf (Finite m e) = (if m = 0 then NaN else if m < 0 then PInf else NInf)"
| "f64_mul PInf PInf = PInf"
| "f64_mul PInf NInf = NInf"
| "f64_mul NInf PInf = NInf"
| "f64_mul NInf NInf = PInf"

text \<open>Comparisons: every comparison with \<open>NaN\<close> is false.\<close>

fun f64_le :: "float64 \<Rightarrow> float64 \<Rightarrow> bool" where
  "f64_le (Finite m1 e1) (Finite m2 e2) =
     (let e = min e1 e2 in m1 * 2 ^ nat (e1 - e) \<le> m2 * 2 ^ nat (e2 - e))"
| "f64_le NaN _ = False"
| "f64_le _ NaN = False"
| "f64_le NInf _ = True"
| "f64_le _ PInf = True"
| "f64_le PInf _ = False"
| "f64_le _ NInf = False"

fun f64_lt :: "float64 \<Rightarrow> float64 \<Rightarrow> bool" where
  "f64_lt (Finite m1 e1) (Finite m2 e2) =
     (let e = min e1 e2 in m1 * 2 ^ nat (e1 - e) < m2 * 2 ^ nat (e2 - e))"
| "f64_lt NaN _ = False"
| "f64_lt _ NaN = False"
| "f64_lt PInf _ = False"
| "f64_lt _ NInf = False"
| "f64_lt NInf _ = True"
| "f64_lt _ PInf = True"

instantiation float64 :: "{zero,one,plus,minus,times,ord}"
begin

definition zero_float64 :: float64 where
  "zero_float64 = Finite 0 0"

definition one_float64 :: float64 where
  "one_float64 = Finite 1 0"

definition plus_float64 :: "float64 \<Rightarrow> float64 \<Rightarrow> float64" where
  "plus_float64 x y = f64_add x y"

definition minus_float64 :: "float64 \<Rightarrow> float64 \<Rightarrow> float64" where
  "minus_float64 x y = f64_add x (f64_neg y)"

definition times_float64 :: "float64 \<Rightarrow> float64 \<Rightarrow> float64" where
  "times_float64 x y = f64_mul x y"

definition less_eq_float64 :: "float64 \<Rightarrow> float64 \<Rightarrow> bool" where
  "less_eq_float64 x y = f64_le x y"

definition less_float64 :: "float64 \<Rightarrow> float64 \<Rightarrow> bool" where
  "less_float64 x y = f64_lt x y"

instance ..

end

text \<open>
  The default learning rate: the literal \<^verbatim>\<open>0.1\<close> is the binary64 number nearest to one
  tenth, \<open>3602879701896397 / 2\<^sup>5\<^sup>5\<close>.
\<close>

definition f64_tenth :: float64 where
  "f64_tenth = Finite 3602879701896397 (- 55)"

text \<open>The \<open>float64\<close> an integer converts to: the nearest one; exact below \<open>2\<^sup>5\<^sup>3\<close>.\<close>

definition f64_of_int :: "int \<Rightarrow> float64" where
  "f64_of_int n = round64 n 0"

text \<open>
  The finite numbers, and the terms that are numbers of the format: the infinities,
  \<open>NaN\<close>, zero, and \<open>m * 2\<^sup>e\<close> with \<open>m\<close> odd of at most 53 bits, \<open>e\<close> from \<open>-1074\<close> on
  and a value below \<open>2\<^sup>1\<^sup>0\<^sup>2\<^sup>4\<close>.
\<close>

fun f64_finite :: "float64 \<Rightarrow> bool" where
  "f64_finite (Finite m e) = True"
| "f64_finite PInf = False"
| "f64_finite NInf = False"
| "f64_finite NaN = False"

fun is_double :: "float64 \<Rightarrow> bool" where
  "is_double (Finite m e) =
     (if m = 0 then e = 0
      else odd m \<and> bitlen \<bar>m\<bar> \<le> 53 \<and> - 1074 \<le> e \<and> bitlen \<bar>m\<bar> + e \<le> 1024)"
| "is_double PInf = True"
| "is_double NInf = True"
| "is_double NaN = True"

text \<open>The real number a finite \<open>float64\<close> stands for.\<close>

fun f64_value :: "float64 \<Rightarrow> real option" where
  "f64_value (Finite m e) =
     Some (if 0 \<le> e then of_int m * 2 ^ nat e else of_int m / 2 ^ nat (- e))"
| "f64_value PInf = None"
| "f64_value NInf = None"
| "f64_value NaN = None"

subsection \<open>Integers read as numbers of the format\<close>

text \<open>
  A unit and a dataset whose numbers are integers, read in another arithmetic through a
  conversion \<open>h\<close>: \<^const>\<open>f64_of_int\<close> for the program, \<open>of_int\<close> for the reals.
\<close>

definition map_unit :: "('a \<Rightarrow> 'b) \<Rightarrow> 'a perceptron \<Rightarrow> 'b perceptron" where
  "map_unit h self =
     \<lparr>weights = map h (weights self), bias = h (bias self),
      learning_rate = h (learning_rate self)\<rparr>"

definition map_data :: "('a \<Rightarrow> 'b) \<Rightarrow> 'a dataset \<Rightarrow> 'b dataset" where
  "map_data h ds = map (\<lambda>(x, y). (map h x, h y)) ds"

text \<open>The sum of the squares of the components of an integer vector.\<close>

definition squares :: "int list \<Rightarrow> int" where
  "squares x = sum_list (map (\<lambda>a. a * a) x)"

text \<open>Every weight of a unit, and its bias, is at most \<open>W\<close> in magnitude.\<close>

definition bounded_by :: "int \<Rightarrow> int perceptron \<Rightarrow> bool" where
  "bounded_by W self \<longleftrightarrow> list_all (\<lambda>a. \<bar>a\<bar> \<le> W) (weights self) \<and> \<bar>bias self\<bar> \<le> W"

text \<open>
  A bound on every number that training computes, from a fresh unit with the integer
  learning rate \<open>lr\<close>, on integer examples \<open>x\<close> with \<open>\<Sum>\<^sub>i x[i]\<^sup>2 < r\<close> that the hyperplane
  \<open>(w, b)\<close> of integers classifies correctly. The classical argument bounds the number of
  updates by \<open>r * u\<close> and the squared length of the weights and bias reached by
  \<open>lr\<^sup>2 * r\<^sup>2 * u\<close>, where \<open>u = 4 * \<Sum>\<^sub>i w[i]\<^sup>2 + (2 * b + 1)\<^sup>2\<close>.
\<close>

definition magnitude :: "int list \<Rightarrow> int \<Rightarrow> int \<Rightarrow> int \<Rightarrow> int" where
  "magnitude w b lr r =
     (int (length w) * r + 1) *
       (lr * lr * r * r * (4 * squares w + (2 * b + 1) * (2 * b + 1))) + lr * r + lr"

section \<open>Basic facts about the methods\<close>

lemma predict_mismatch:
  "length x \<noteq> length (weights self) \<Longrightarrow> predict self x = (Inl ValueError, self)"
  by (simp add: predict_def dot_def)

lemma predict_match:
  "length x = length (weights self) \<Longrightarrow>
   predict self x =
     (Inr (activation_function (foldl (+) 0 (map2 (*) x (weights self)) + bias self)), self)"
  by (simp add: predict_def dot_def)

lemma train_example_mismatch:
  "length x \<noteq> length (weights self) \<Longrightarrow> train_example self (x, y) = Inl (ValueError, self)"
  by (simp add: train_example_def predict_mismatch)

lemma train_example_match:
  "length x = length (weights self) \<Longrightarrow> train_example self (x, y) = Inr (update self (x, y))"
  by (simp add: train_example_def predict_match update_def loss_function_def Let_def)

lemma length_weights_update:
  "length x = length (weights self) \<Longrightarrow>
   length (weights (update self (x, y))) = length (weights self)"
  by (simp add: update_def Let_def)

lemma learning_rate_update: "learning_rate (update self ex) = learning_rate self"
  by (cases ex) (simp add: update_def Let_def)

lemma fits_update:
  "length x = length (weights self) \<Longrightarrow> fits (update self (x, y)) ds = fits self ds"
  by (simp add: fits_def length_weights_update)

lemma fits_zip:
  "\<forall>x \<in> set input_vectors. length x = length (weights self) \<Longrightarrow>
   fits self (zip input_vectors outputs)"
  by (auto simp: fits_def list_all_iff dest: set_zip_leftD)

text \<open>A sweep over examples that fit is a left fold of \<^const>\<open>update\<close>; so is a whole run.\<close>

lemma train_epoch_fits:
  "fits self ds \<Longrightarrow> train_epoch self ds = Inr (foldl update self ds)"
proof (induction ds arbitrary: self)
  case Nil
  then show ?case by simp
next
  case (Cons ex ds)
  obtain x y where ex: "ex = (x, y)" by (cases ex)
  from Cons.prems have len: "length x = length (weights self)" and rest: "fits self ds"
    by (simp_all add: fits_def ex)
  from rest len have "fits (update self (x, y)) ds" by (simp add: fits_update)
  then show ?case using Cons.IH len by (simp add: ex train_example_match)
qed

lemma fits_foldl_update: "fits self ds \<Longrightarrow> fits self es \<Longrightarrow> fits (foldl update self ds) es"
proof (induction ds arbitrary: self)
  case Nil
  then show ?case by simp
next
  case (Cons ex ds)
  obtain x y where ex: "ex = (x, y)" by (cases ex)
  from Cons.prems have len: "length x = length (weights self)" and "fits self ds"
    by (simp_all add: fits_def ex)
  with Cons.prems have "fits (update self (x, y)) ds" "fits (update self (x, y)) es"
    by (simp_all add: fits_update)
  then show ?case using Cons.IH by (simp add: ex)
qed

lemma train_loop_fits:
  "fits self ds \<Longrightarrow> train_loop n self ds = Inr (foldl update self (concat (replicate n ds)))"
proof (induction n arbitrary: self)
  case 0
  then show ?case by simp
next
  case (Suc n)
  from Suc.prems have "fits (foldl update self ds) ds" by (simp add: fits_foldl_update)
  then show ?case using Suc.IH Suc.prems by (simp add: train_epoch_fits)
qed

lemma train_epoch_append:
  "train_epoch self (ds @ es) =
     (case train_epoch self ds of Inl r \<Rightarrow> Inl r | Inr self1 \<Rightarrow> train_epoch self1 es)"
  by (induction ds arbitrary: self) (simp_all split: sum.splits)

lemma train_example_weights_length:
  "train_example self ex = Inr self1 \<Longrightarrow> length (weights self1) = length (weights self)"
  by (cases ex; cases "length (fst ex) = length (weights self)")
     (auto simp: train_example_match train_example_mismatch length_weights_update)

lemma train_epoch_weights_length:
  "train_epoch self ds = Inr self1 \<Longrightarrow> length (weights self1) = length (weights self)"
proof (induction ds arbitrary: self)
  case Nil
  then show ?case by simp
next
  case (Cons ex ds)
  then show ?case
    by (auto split: sum.splits dest: train_example_weights_length)
qed

lemma init_eq:
  "init input_size lr =
     (if input_size < 0 \<or> 2 ^ 60 \<le> input_size then Inl ValueError
      else Inr \<lparr>weights = replicate (nat input_size) 0, bias = 0, learning_rate = lr\<rparr>)"
  by (simp add: init_def zeros_def)

lemma init_Inr:
  "init input_size lr = Inr self \<Longrightarrow>
   self = \<lparr>weights = replicate (nat input_size) 0, bias = 0, learning_rate = lr\<rparr>"
  by (simp add: init_eq split: if_splits)

section \<open>Construction\<close>

text \<open>
  C8. The constructor has no check of its own: \<^verbatim>\<open>__init__\<close> is three assignments, and the
  only failure is the one \<^verbatim>\<open>np.zeros\<close> raises for the size. The specification's rule
  (a size that is not positive, or a learning rate that is not positive, fails) does not
  hold of it: \<open>Perceptron(0)\<close> and \<open>Perceptron(2, 0.0)\<close> both return a unit. What holds: a
  negative size fails with \<^verbatim>\<open>ValueError\<close>; the sizes 0 to 3 succeed; whenever a
  construction succeeds the size was not negative, the weights are that many zeros, the
  bias is zero and the learning rate is stored as given; and the learning rate, whatever
  it is, never decides whether the construction fails.
\<close>

theorem construction_unchecked:
  fixes lr lr' :: "'a::zero"
  shows "(input_size < 0 \<longrightarrow> init input_size lr = Inl ValueError) \<and>
   (0 \<le> input_size \<and> input_size \<le> 3 \<longrightarrow>
      init input_size lr =
        Inr \<lparr>weights = replicate (nat input_size) 0, bias = 0, learning_rate = lr\<rparr>) \<and>
   (\<forall>unit0. init input_size lr = Inr unit0 \<longrightarrow>
      0 \<le> input_size \<and> weights unit0 = replicate (nat input_size) 0 \<and> bias unit0 = 0 \<and>
      learning_rate unit0 = lr) \<and>
   (init input_size lr = Inl ValueError \<longleftrightarrow> init input_size lr' = Inl ValueError)"
  by (auto simp: init_eq)

theorem construction_unchecked_witness:
  "init (- 1) f64_tenth = Inl ValueError \<and>
   init 3 f64_tenth = Inr \<lparr>weights = [0, 0, 0], bias = 0, learning_rate = f64_tenth\<rparr> \<and>
   init (- 1) (0 :: float64) = Inl ValueError"
proof -
  from construction_unchecked [of "- 1" f64_tenth 0]
  have "init (- 1) f64_tenth = Inl ValueError" and "init (- 1) (0 :: float64) = Inl ValueError"
    by auto
  moreover from construction_unchecked [of 3 f64_tenth 0]
  have "init 3 f64_tenth = Inr \<lparr>weights = [0, 0, 0], bias = 0, learning_rate = f64_tenth\<rparr>"
    by (simp add: eval_nat_numeral)
  ultimately show ?thesis by simp
qed

text \<open>
  \<open>new(0, ...)\<close> and \<open>new(n, 0.0)\<close> of the specification: both constructions succeed.
\<close>

theorem construction_unchecked_counterexample:
  "init 0 f64_tenth = Inr \<lparr>weights = [], bias = 0, learning_rate = f64_tenth\<rparr> \<and>
   init 2 (0 :: float64) = Inr \<lparr>weights = [0, 0], bias = 0, learning_rate = 0\<rparr>"
  by (simp add: init_eq eval_nat_numeral)

section \<open>Inputs of the wrong length\<close>

text \<open>
  C7, as the code has it. \<^verbatim>\<open>predict\<close> on an input whose length differs from the number
  of weights fails with numpy's dimension error and leaves the unit unchanged. \<^verbatim>\<open>train\<close>
  with at least one epoch fails with the same error when its first sweep reaches the first
  such example, and the unit then is the one the sweep had reached: the updates of the
  examples before the bad one stay applied.
\<close>

theorem dimension_mismatch:
  fixes self :: "'a::{zero,one,plus,minus,times,ord} perceptron"
  shows "(length x \<noteq> length (weights self) \<longrightarrow> predict self x = (Inl ValueError, self)) \<and>
         (0 < epochs \<and> zip input_vectors outputs = before @ (bad, y) # rest \<and>
          train_epoch self before = Inr self1 \<and> length bad \<noteq> length (weights self) \<longrightarrow>
            train self input_vectors outputs epochs = Inl (ValueError, self1))"
proof (intro conjI impI)
  assume "length x \<noteq> length (weights self)"
  then show "predict self x = (Inl ValueError, self)" by (rule predict_mismatch)
next
  assume a: "0 < epochs \<and> zip input_vectors outputs = before @ (bad, y) # rest \<and>
          train_epoch self before = Inr self1 \<and> length bad \<noteq> length (weights self)"
  then have "length bad \<noteq> length (weights self1)"
    using train_epoch_weights_length [of self before self1] by simp
  then have "train_epoch self (before @ (bad, y) # rest) = Inl (ValueError, self1)"
    using a by (simp add: train_epoch_append train_example_mismatch)
  moreover from a obtain n where "nat epochs = Suc n"
    by (cases "nat epochs") auto
  ultimately show "train self input_vectors outputs epochs = Inl (ValueError, self1)"
    using a by (simp add: train_def)
qed

theorem dimension_mismatch_witness:
  "length [1 :: real] \<noteq>
     length (weights \<lparr>weights = [0, 0], bias = 0, learning_rate = 1 / 10 :: real\<rparr>) \<and>
   predict \<lparr>weights = [0, 0], bias = 0, learning_rate = 1 / 10 :: real\<rparr> [1] =
     (Inl ValueError, \<lparr>weights = [0, 0], bias = 0, learning_rate = 1 / 10\<rparr>) \<and>
   (0 :: int) < 1 \<and>
   zip [[1, 1], [1 :: real]] [0, 0 :: real] = [([1, 1], 0)] @ ([1], 0) # [] \<and>
   train_epoch \<lparr>weights = [0, 0], bias = 0, learning_rate = 1 / 10 :: real\<rparr> [([1, 1], 0)] =
     Inr \<lparr>weights = [- (1 / 10), - (1 / 10)], bias = - (1 / 10), learning_rate = 1 / 10\<rparr> \<and>
   train \<lparr>weights = [0, 0], bias = 0, learning_rate = 1 / 10 :: real\<rparr> [[1, 1], [1]] [0, 0] 1 =
     Inl (ValueError,
          \<lparr>weights = [- (1 / 10), - (1 / 10)], bias = - (1 / 10), learning_rate = 1 / 10\<rparr>)"
  using dimension_mismatch
    [where x = "[1 :: real]" and self = "\<lparr>weights = [0, 0], bias = 0, learning_rate = 1 / 10\<rparr>"
       and epochs = 1 and input_vectors = "[[1, 1], [1]]" and outputs = "[0, 0]"
       and before = "[([1, 1], 0)]" and bad = "[1]" and y = 0 and rest = "[]"
       and ?self1.0 =
         "\<lparr>weights = [- (1 / 10), - (1 / 10)], bias = - (1 / 10), learning_rate = 1 / 10\<rparr>"]
  by (simp add: train_example_def predict_def dot_def activation_function_def loss_function_def)

text \<open>
  The claim as stated fails for \<^verbatim>\<open>train\<close>: the first example is misclassified and
  updates the unit, the second has the wrong length, and the failing call leaves the
  updated weights and bias behind.
\<close>

theorem dimension_mismatch_counterexample:
  "train \<lparr>weights = [0, 0], bias = 0, learning_rate = 1 / 10 :: real\<rparr> [[1, 1], [1]] [0, 0] 1 =
     Inl (ValueError,
          \<lparr>weights = [- (1 / 10), - (1 / 10)], bias = - (1 / 10), learning_rate = 1 / 10\<rparr>)"
  by (simp add: train_def train_example_def predict_def dot_def activation_function_def
      loss_function_def)

section \<open>Expected outputs outside 0 and 1\<close>

text \<open>
  C9, as the code has it. \<^verbatim>\<open>train\<close> never looks at the expected outputs except to
  subtract the prediction from them: when every input has the right length it completes
  without an error whatever the expected outputs are, and on each example it updates with
  \<open>error = expected_output - prediction\<close>.
\<close>

theorem labels_unchecked:
  fixes self :: "'a::{zero,one,plus,minus,times,ord} perceptron"
  assumes "\<forall>x \<in> set input_vectors. length x = length (weights self)"
  shows "(\<exists>trained. train self input_vectors outputs epochs = Inr trained) \<and>
         (\<forall>x \<in> set input_vectors. \<forall>y. \<exists>prediction.
            predict self x = (Inr prediction, self) \<and>
            train_example self (x, y) =
              Inr \<lparr>weights = map2 (\<lambda>w xi. w + learning_rate self * (y - prediction) * xi)
                                (weights self) x,
                   bias = bias self + learning_rate self * (y - prediction),
                   learning_rate = learning_rate self\<rparr>)"
  using assms
  by (simp add: train_def train_loop_fits fits_zip predict_match train_example_match update_def
      Let_def)

theorem labels_unchecked_witness:
  "length [1 :: real] =
     length (weights \<lparr>weights = [0], bias = 0, learning_rate = 1 / 10 :: real\<rparr>) \<and>
   (\<exists>trained. train \<lparr>weights = [0], bias = 0, learning_rate = 1 / 10 :: real\<rparr> [[1]] [2] 1 =
      Inr trained) \<and>
   train_example \<lparr>weights = [0], bias = 0, learning_rate = 1 / 10 :: real\<rparr> ([1], 2) =
     Inr \<lparr>weights = [1 / 10], bias = 1 / 10, learning_rate = 1 / 10\<rparr>"
  using labels_unchecked
    [of "[[1 :: real]]" "\<lparr>weights = [0], bias = 0, learning_rate = 1 / 10\<rparr>" "[2]" 1]
  by (simp add: predict_def dot_def activation_function_def)

text \<open>
  The claim as stated fails: the expected output 2 is taken as it is, the error is
  \<open>2 - 1 = 1\<close>, and the call returns normally with the unit updated.
\<close>

theorem labels_unchecked_counterexample:
  "train \<lparr>weights = [0], bias = 0, learning_rate = 1 / 10 :: real\<rparr> [[1]] [2] 1 =
     Inr \<lparr>weights = [1 / 10], bias = 1 / 10, learning_rate = 1 / 10\<rparr>"
  by (simp add: train_def train_example_def predict_def dot_def activation_function_def
      loss_function_def)

section \<open>Training\<close>

subsection \<open>Errors of a sweep, and sweeps without errors\<close>

lemma epoch_errors_Cons:
  "length x = length (weights self) \<Longrightarrow>
   epoch_errors self ((x, y) # rest) =
     (y - activation_function (foldl (+) 0 (map2 (*) x (weights self)) + bias self)) #
       epoch_errors (update self (x, y)) rest"
  by (simp add: predict_match train_example_match loss_function_def)

lemma misclassified_Cons:
  "length x = length (weights self) \<Longrightarrow>
   misclassified self ((x, y) # rest) =
     (if y - activation_function (foldl (+) 0 (map2 (*) x (weights self)) + bias self) \<noteq> 0
      then 1 else 0) + misclassified (update self (x, y)) rest"
  by (simp add: misclassified_def epoch_errors_Cons del: epoch_errors.simps)

lemma map2_keep_left: "length ws = length x \<Longrightarrow> map2 (\<lambda>w xi. w) ws x = ws"
  by (induction ws x rule: list_induct2) simp_all

lemma update_zero_error:
  fixes self :: "'a::{ring_1,ord} perceptron"
  assumes "length x = length (weights self)"
    and "y - activation_function (foldl (+) 0 (map2 (*) x (weights self)) + bias self) = 0"
  shows "update self (x, y) = self"
  using assms by (simp add: update_def map2_keep_left)

lemma train_epoch_Inr_fits: "train_epoch self ds = Inr self1 \<Longrightarrow> fits self ds"
proof (induction ds arbitrary: self)
  case Nil
  then show ?case by (simp add: fits_def)
next
  case (Cons ex ds)
  obtain x y where ex: "ex = (x, y)" by (cases ex)
  show ?case
  proof (cases "length x = length (weights self)")
    case True
    with Cons.prems have "train_epoch (update self (x, y)) ds = Inr self1"
      by (simp add: ex train_example_match)
    then have "fits (update self (x, y)) ds" by (rule Cons.IH)
    with True have "fits self ds" by (simp add: fits_update)
    with True show ?thesis by (simp add: ex fits_def)
  next
    case False
    with Cons.prems show ?thesis by (simp add: ex train_example_mismatch)
  qed
qed

lemma no_error_sweep_fixed:
  assumes "\<forall>ex \<in> set ds. length (fst ex) = length (weights self) \<longrightarrow>
      snd ex - activation_function (foldl (+) 0 (map2 (*) (fst ex) (weights self)) + bias self) = 0 \<longrightarrow>
      update self ex = self"
    and "fits self ds" and "misclassified self ds = 0"
  shows "foldl update self ds = self"
  using assms
proof (induction ds)
  case Nil
  then show ?case by simp
next
  case (Cons ex ds)
  obtain x y where ex: "ex = (x, y)" by (cases ex)
  from Cons.prems(2) have len: "length x = length (weights self)" and rest: "fits self ds"
    by (simp_all add: fits_def ex)
  from Cons.prems(3) len
  have err: "y - activation_function (foldl (+) 0 (map2 (*) x (weights self)) + bias self) = 0"
    by (simp add: ex misclassified_Cons split: if_splits)
  from Cons.prems(1) len err have same: "update self (x, y) = self"
    by (simp add: ex)
  with Cons.prems(3) len have zero: "misclassified self ds = 0"
    by (simp add: ex misclassified_Cons)
  from Cons.prems(1) have "\<forall>ex \<in> set ds. length (fst ex) = length (weights self) \<longrightarrow>
      snd ex - activation_function (foldl (+) 0 (map2 (*) (fst ex) (weights self)) + bias self) = 0 \<longrightarrow>
      update self ex = self" by simp
  from Cons.IH [OF this rest zero] same show ?case by (simp add: ex)
qed

lemma zero_misclassified_fixed:
  fixes self :: "'a::{ring_1,ord} perceptron"
  shows "fits self ds \<Longrightarrow> misclassified self ds = 0 \<Longrightarrow> foldl update self ds = self"
  by (rule no_error_sweep_fixed) (auto intro: update_zero_error)

lemma train_loop_fixed: "train_epoch self ds = Inr self \<Longrightarrow> train_loop n self ds = Inr self"
  by (induction n) simp_all

lemma train_loop_add:
  "train_loop (m + n) self ds =
     (case train_loop m self ds of Inl r \<Rightarrow> Inl r | Inr self1 \<Rightarrow> train_loop n self1 ds)"
  by (induction m arbitrary: self) (simp_all split: sum.splits)

lemma train_loop_Suc_right:
  "train_loop (Suc n) self ds =
     (case train_loop n self ds of Inl r \<Rightarrow> Inl r | Inr self1 \<Rightarrow> train_epoch self1 ds)"
  using train_loop_add [of n 1 self ds] by (simp split: sum.splits)

lemma train_loop_from_fixed:
  assumes "train_loop k self ds = Inr fixed" and "train_epoch fixed ds = Inr fixed" and "k \<le> j"
  shows "train_loop j self ds = Inr fixed"
proof -
  from assms(3) have "j = k + (j - k)" by simp
  then have "train_loop j self ds =
      (case train_loop k self ds of Inl r \<Rightarrow> Inl r | Inr q \<Rightarrow> train_loop (j - k) q ds)"
    using train_loop_add [of k "j - k" self ds] by simp
  with assms(1,2) show ?thesis by (simp add: train_loop_fixed)
qed

subsection \<open>The code against the learning rule of the specification\<close>

lemma map2_by_index:
  "length ws = length x \<Longrightarrow> map2 f ws x = map (\<lambda>i. f (ws ! i) (x ! i)) [0..<length ws]"
  by (rule nth_equalityI) simp_all

lemma update_spec_example:
  assumes "length x = length (weights self)"
  shows "update self (x, y) =
           \<lparr>weights = fst (spec_example (learning_rate self) (weights self, bias self) (x, y)),
            bias = snd (spec_example (learning_rate self) (weights self, bias self) (x, y)),
            learning_rate = learning_rate self\<rparr>"
  using assms
  by (simp add: update_def spec_example_def predict_def dot_def Let_def map2_by_index)

lemma foldl_update_spec_epoch:
  "fits self ds \<Longrightarrow>
   foldl update self ds =
     \<lparr>weights = fst (spec_epoch (learning_rate self) ds (weights self, bias self)),
      bias = snd (spec_epoch (learning_rate self) ds (weights self, bias self)),
      learning_rate = learning_rate self\<rparr>"
proof (induction ds arbitrary: self)
  case Nil
  then show ?case by (simp add: spec_epoch_def)
next
  case (Cons ex ds)
  obtain x y where ex: "ex = (x, y)" by (cases ex)
  from Cons.prems have len: "length x = length (weights self)" and rest: "fits self ds"
    by (simp_all add: fits_def ex)
  from rest len have "fits (update self (x, y)) ds" by (simp add: fits_update)
  from Cons.IH [OF this] show ?case
    by (simp add: ex spec_epoch_def update_spec_example [OF len])
qed

lemma run_spec_train:
  "fits self ds \<Longrightarrow>
   foldl update self (concat (replicate n ds)) =
     \<lparr>weights = fst (spec_train (learning_rate self) ds n (weights self, bias self)),
      bias = snd (spec_train (learning_rate self) ds n (weights self, bias self)),
      learning_rate = learning_rate self\<rparr>"
proof (induction n arbitrary: self)
  case 0
  then show ?case by (simp add: spec_train_def)
next
  case (Suc n)
  let ?q = "foldl update self ds"
  from Suc.prems have "fits ?q ds" by (simp add: fits_foldl_update)
  from Suc.IH [OF this] show ?case
    by (simp add: foldl_update_spec_epoch [OF Suc.prems] spec_train_def funpow_swap1)
qed

lemma f64_differences:
  "(0 :: float64) - 0 = 0" "(1 :: float64) - 1 = 0" "(1 :: float64) - 0 = 1"
  "(0 :: float64) - 1 = Finite (- 1) 0"
  by code_simp+

lemma f64_epoch_errors_range:
  fixes self :: "float64 perceptron"
  shows "\<forall>ex \<in> set ds. snd ex \<in> {0, 1} \<Longrightarrow>
         set (epoch_errors self ds) \<subseteq> {Finite (- 1) 0, 0, 1}"
proof (induction ds arbitrary: self)
  case Nil
  then show ?case by simp
next
  case (Cons ex ds)
  obtain x y where ex: "ex = (x, y)" by (cases ex)
  show ?case
  proof (cases "length x = length (weights self)")
    case True
    from Cons.prems have "set (epoch_errors (update self (x, y)) ds) \<subseteq> {Finite (- 1) 0, 0, 1}"
      by (intro Cons.IH) simp
    moreover from Cons.prems have "y = 0 \<or> y = 1" by (simp add: ex)
    ultimately show ?thesis using True
      by (auto simp: ex epoch_errors_Cons activation_function_def f64_differences
          simp del: epoch_errors.simps)
  next
    case False
    then show ?thesis by (simp add: ex predict_mismatch)
  qed
qed

text \<open>
  C2. On a dataset whose inputs all have the length of the weight vector, \<^verbatim>\<open>train\<close> for
  \<open>epochs\<close> epochs ends without an error in the unit that the learning rule of the
  specification reaches by exactly \<open>epochs\<close> sweeps over the dataset in its order, each
  example taking the prediction at the current weights and bias, the error
  \<open>expected_output - prediction\<close>, and at once the update
  \<open>weight[i] += learning_rate * error * input[i]\<close>, \<open>bias += learning_rate * error\<close> that the
  next example sees. This holds in every arithmetic, that of the program included, where
  every operation of the rule rounds as the program's does. In the arithmetic of the
  program, with labels 0 and 1 every error a sweep computes is \<open>-1\<close>, \<open>0\<close> or \<open>1\<close>.
\<close>

theorem train_follows_learning_rule:
  fixes self :: "'a::{zero,one,plus,minus,times,ord} perceptron"
    and state :: "float64 perceptron"
  assumes "\<forall>x \<in> set input_vectors. length x = length (weights self)"
  shows "train self input_vectors outputs epochs =
           Inr \<lparr>weights = fst (spec_train (learning_rate self) (zip input_vectors outputs)
                                (nat epochs) (weights self, bias self)),
                bias = snd (spec_train (learning_rate self) (zip input_vectors outputs)
                                (nat epochs) (weights self, bias self)),
                learning_rate = learning_rate self\<rparr> \<and>
         (set labels \<subseteq> {0, 1} \<longrightarrow>
            set (epoch_errors state (zip rows labels)) \<subseteq> {Finite (- 1) 0, 0, 1})"
proof (intro conjI impI)
  from assms have f: "fits self (zip input_vectors outputs)" by (rule fits_zip)
  then show "train self input_vectors outputs epochs =
           Inr \<lparr>weights = fst (spec_train (learning_rate self) (zip input_vectors outputs)
                                (nat epochs) (weights self, bias self)),
                bias = snd (spec_train (learning_rate self) (zip input_vectors outputs)
                                (nat epochs) (weights self, bias self)),
                learning_rate = learning_rate self\<rparr>"
    by (simp add: train_def train_loop_fits run_spec_train)
next
  assume "set labels \<subseteq> {0, 1}"
  then have "\<forall>ex \<in> set (zip rows labels). snd ex \<in> {0, 1}"
    by (auto dest: set_zip_rightD)
  then show "set (epoch_errors state (zip rows labels)) \<subseteq> {Finite (- 1) 0, 0, 1}"
    by (rule f64_epoch_errors_range)
qed

text \<open>
  In binary64 the rule reaches, for the AND table and ten epochs, the weights and the bias
  the notebook prints. On the dataset \<open>[([inf], 1)]\<close> its second sweep computes no error
  and its third sweep still runs: it changes the bias from 0.1 to 0.2.
\<close>

lemma f64_AND_rule:
  "spec_train f64_tenth (zip AND_inputs AND_outputs) 10 ([0, 0], 0) =
     ([Finite 3602879701896397 (- 54), f64_tenth], Finite (- 7205759403792795) (- 55))"
  "spec_train f64_tenth [([PInf], 1)] 3 ([0], 0) = ([NaN], Finite 3602879701896397 (- 54))"
  "set (AND_outputs :: float64 list) \<subseteq> {0, 1}"
  by code_simp+

theorem train_follows_learning_rule_witness:
  "train \<lparr>weights = [0, 0], bias = 0, learning_rate = f64_tenth\<rparr> AND_inputs AND_outputs 10 =
     Inr \<lparr>weights = [Finite 3602879701896397 (- 54), f64_tenth],
          bias = Finite (- 7205759403792795) (- 55), learning_rate = f64_tenth\<rparr> \<and>
   train \<lparr>weights = [0], bias = 0, learning_rate = f64_tenth\<rparr> [[PInf]] [1] 3 =
     Inr \<lparr>weights = [NaN], bias = Finite 3602879701896397 (- 54), learning_rate = f64_tenth\<rparr> \<and>
   set (epoch_errors \<lparr>weights = [0, 0], bias = 0, learning_rate = f64_tenth\<rparr>
          (zip AND_inputs AND_outputs)) \<subseteq> {Finite (- 1) 0, 0, 1}"
proof -
  let ?p = "\<lparr>weights = [0, 0], bias = 0, learning_rate = f64_tenth\<rparr>"
  let ?q = "\<lparr>weights = [0], bias = 0, learning_rate = f64_tenth\<rparr>"
  have fit: "\<forall>x \<in> set AND_inputs. length x = length (weights ?p)"
    by (simp add: AND_inputs_def)
  have fit1: "\<forall>x \<in> set [[PInf]]. length x = length (weights ?q)" by simp
  from train_follows_learning_rule [OF fit, of AND_outputs 10 AND_outputs ?p AND_inputs]
    f64_AND_rule(1,3)
  have "train ?p AND_inputs AND_outputs 10 =
     Inr \<lparr>weights = [Finite 3602879701896397 (- 54), f64_tenth],
          bias = Finite (- 7205759403792795) (- 55), learning_rate = f64_tenth\<rparr>"
    and "set (epoch_errors ?p (zip AND_inputs AND_outputs)) \<subseteq> {Finite (- 1) 0, 0, 1}"
    by simp_all
  moreover from train_follows_learning_rule [OF fit1, of "[1]" 3 "[]" ?q "[]"] f64_AND_rule(2)
  have "train ?q [[PInf]] [1] 3 =
     Inr \<lparr>weights = [NaN], bias = Finite 3602879701896397 (- 54), learning_rate = f64_tenth\<rparr>"
    by simp
  ultimately show ?thesis by simp
qed

section \<open>The gates of the notebook\<close>

lemma learns_from_fixed:
  assumes "init n lr = Inr p0"
    and "train_loop K p0 (zip xs ys) = Inr p"
    and "train_epoch p (zip xs ys) = Inr p"
    and "predictions p xs = map Inr ys"
    and "int K \<le> epochs"
  shows "learns lr n xs ys epochs"
proof -
  from assms(5) have "K \<le> nat epochs" by simp
  with assms(2,3) have "train p0 xs ys epochs = Inr p"
    unfolding train_def by (rule train_loop_from_fixed)
  with assms(1,4) show ?thesis by (simp add: learns_def)
qed

lemmas evals = train_example_def predict_def dot_def activation_function_def loss_function_def
  predictions_def


text \<open>
  The learning rate \<^verbatim>\<open>0.1\<close> of the notebook: \<^const>\<open>f64_tenth\<close> is within half a unit
  in the last place (\<open>2\<^sup>-\<^sup>5\<^sup>7\<close>) of one tenth.
\<close>

lemma f64_tenth_value: "f64_value f64_tenth = Some (3602879701896397 / 2 ^ 55)"
  by (simp add: f64_tenth_def)

lemma f64_tenth_nearest: "\<bar>3602879701896397 / 2 ^ 55 - 1 / 10 :: real\<bar> < 1 / 2 ^ 57"
  by simp

text \<open>
  For each gate and each arithmetic: the unit reached after a few epochs from the fresh
  unit, the sweep that leaves it as it is, and its answers on the rows of the table. Over
  \<open>float64\<close> these are the weights and biases the notebook prints after ten epochs:
  \<^verbatim>\<open>[0.1 0.1]\<close> and \<^verbatim>\<open>-0.1\<close> for OR, \<^verbatim>\<open>[0.2 0.1]\<close> and \<^verbatim>\<open>-0.20000000000000004\<close>
  for AND, \<^verbatim>\<open>[0.1 0.1 0.1]\<close> with \<^verbatim>\<open>-0.1\<close> and \<^verbatim>\<open>-0.20000000000000004\<close> for the
  gates of three inputs. Over the reals AND ends elsewhere (a bias of \<open>-3/10\<close>, and of
  \<open>-2/5\<close> with three inputs), with the same answers.
\<close>

lemma real_OR_run:
  "train_loop 3 \<lparr>weights = [0, 0], bias = 0, learning_rate = 1 / 10 :: real\<rparr>
     (zip OR_inputs OR_outputs) =
     Inr \<lparr>weights = [1 / 10, 1 / 10], bias = - (1 / 10), learning_rate = 1 / 10 :: real\<rparr>"
  "train_epoch \<lparr>weights = [1 / 10, 1 / 10], bias = - (1 / 10), learning_rate = 1 / 10 :: real\<rparr>
     (zip OR_inputs OR_outputs) =
     Inr \<lparr>weights = [1 / 10, 1 / 10], bias = - (1 / 10), learning_rate = 1 / 10 :: real\<rparr>"
  "predictions \<lparr>weights = [1 / 10, 1 / 10], bias = - (1 / 10), learning_rate = 1 / 10 :: real\<rparr>
     OR_inputs = map Inr OR_outputs"
  by (simp_all add: eval_nat_numeral OR_inputs_def OR_outputs_def evals)

lemma real_AND_run:
  "train_loop 5 \<lparr>weights = [0, 0], bias = 0, learning_rate = 1 / 10 :: real\<rparr>
     (zip AND_inputs AND_outputs) =
     Inr \<lparr>weights = [1 / 5, 1 / 10], bias = - (3 / 10), learning_rate = 1 / 10 :: real\<rparr>"
  "train_epoch \<lparr>weights = [1 / 5, 1 / 10], bias = - (3 / 10), learning_rate = 1 / 10 :: real\<rparr>
     (zip AND_inputs AND_outputs) =
     Inr \<lparr>weights = [1 / 5, 1 / 10], bias = - (3 / 10), learning_rate = 1 / 10 :: real\<rparr>"
  "predictions \<lparr>weights = [1 / 5, 1 / 10], bias = - (3 / 10), learning_rate = 1 / 10 :: real\<rparr>
     AND_inputs = map Inr AND_outputs"
  by (simp_all add: eval_nat_numeral AND_inputs_def AND_outputs_def evals)

lemma real_OR_3_run:
  "train_loop 4 \<lparr>weights = [0, 0, 0], bias = 0, learning_rate = 1 / 10 :: real\<rparr>
     (zip OR_inputs_3 OR_outputs_3) =
     Inr \<lparr>weights = [1 / 10, 1 / 10, 1 / 10], bias = - (1 / 10), learning_rate = 1 / 10 :: real\<rparr>"
  "train_epoch \<lparr>weights = [1 / 10, 1 / 10, 1 / 10], bias = - (1 / 10), learning_rate = 1 / 10 :: real\<rparr>
     (zip OR_inputs_3 OR_outputs_3) =
     Inr \<lparr>weights = [1 / 10, 1 / 10, 1 / 10], bias = - (1 / 10), learning_rate = 1 / 10 :: real\<rparr>"
  "predictions \<lparr>weights = [1 / 10, 1 / 10, 1 / 10], bias = - (1 / 10), learning_rate = 1 / 10 :: real\<rparr>
     OR_inputs_3 = map Inr OR_outputs_3"
  by (simp_all add: eval_nat_numeral OR_inputs_3_def OR_outputs_3_def evals)

lemma real_AND_3_run:
  "train_loop 6 \<lparr>weights = [0, 0, 0], bias = 0, learning_rate = 1 / 10 :: real\<rparr>
     (zip AND_inputs_3 AND_outputs_3) =
     Inr \<lparr>weights = [1 / 5, 1 / 10, 1 / 10], bias = - (2 / 5), learning_rate = 1 / 10 :: real\<rparr>"
  "train_epoch \<lparr>weights = [1 / 5, 1 / 10, 1 / 10], bias = - (2 / 5), learning_rate = 1 / 10 :: real\<rparr>
     (zip AND_inputs_3 AND_outputs_3) =
     Inr \<lparr>weights = [1 / 5, 1 / 10, 1 / 10], bias = - (2 / 5), learning_rate = 1 / 10 :: real\<rparr>"
  "predictions \<lparr>weights = [1 / 5, 1 / 10, 1 / 10], bias = - (2 / 5), learning_rate = 1 / 10 :: real\<rparr>
     AND_inputs_3 = map Inr AND_outputs_3"
  by (simp_all add: eval_nat_numeral AND_inputs_3_def AND_outputs_3_def evals)

lemma f64_OR_run:
  "train_loop 3 \<lparr>weights = [Finite 0 0, Finite 0 0], bias = Finite 0 0, learning_rate = Finite 3602879701896397 (- 55)\<rparr>
     (zip OR_inputs OR_outputs) =
     Inr \<lparr>weights = [Finite 3602879701896397 (- 55), Finite 3602879701896397 (- 55)], bias = Finite (- 3602879701896397) (- 55), learning_rate = Finite 3602879701896397 (- 55)\<rparr>"
  "train_epoch \<lparr>weights = [Finite 3602879701896397 (- 55), Finite 3602879701896397 (- 55)], bias = Finite (- 3602879701896397) (- 55), learning_rate = Finite 3602879701896397 (- 55)\<rparr>
     (zip OR_inputs OR_outputs) =
     Inr \<lparr>weights = [Finite 3602879701896397 (- 55), Finite 3602879701896397 (- 55)], bias = Finite (- 3602879701896397) (- 55), learning_rate = Finite 3602879701896397 (- 55)\<rparr>"
  "predictions \<lparr>weights = [Finite 3602879701896397 (- 55), Finite 3602879701896397 (- 55)], bias = Finite (- 3602879701896397) (- 55), learning_rate = Finite 3602879701896397 (- 55)\<rparr>
     OR_inputs = map Inr OR_outputs"
  by code_simp+

lemma f64_AND_run:
  "train_loop 3 \<lparr>weights = [Finite 0 0, Finite 0 0], bias = Finite 0 0, learning_rate = Finite 3602879701896397 (- 55)\<rparr>
     (zip AND_inputs AND_outputs) =
     Inr \<lparr>weights = [Finite 3602879701896397 (- 54), Finite 3602879701896397 (- 55)], bias = Finite (- 7205759403792795) (- 55), learning_rate = Finite 3602879701896397 (- 55)\<rparr>"
  "train_epoch \<lparr>weights = [Finite 3602879701896397 (- 54), Finite 3602879701896397 (- 55)], bias = Finite (- 7205759403792795) (- 55), learning_rate = Finite 3602879701896397 (- 55)\<rparr>
     (zip AND_inputs AND_outputs) =
     Inr \<lparr>weights = [Finite 3602879701896397 (- 54), Finite 3602879701896397 (- 55)], bias = Finite (- 7205759403792795) (- 55), learning_rate = Finite 3602879701896397 (- 55)\<rparr>"
  "predictions \<lparr>weights = [Finite 3602879701896397 (- 54), Finite 3602879701896397 (- 55)], bias = Finite (- 7205759403792795) (- 55), learning_rate = Finite 3602879701896397 (- 55)\<rparr>
     AND_inputs = map Inr AND_outputs"
  by code_simp+

lemma f64_OR_3_run:
  "train_loop 4 \<lparr>weights = [Finite 0 0, Finite 0 0, Finite 0 0], bias = Finite 0 0, learning_rate = Finite 3602879701896397 (- 55)\<rparr>
     (zip OR_inputs_3 OR_outputs_3) =
     Inr \<lparr>weights = [Finite 3602879701896397 (- 55), Finite 3602879701896397 (- 55), Finite 3602879701896397 (- 55)], bias = Finite (- 3602879701896397) (- 55), learning_rate = Finite 3602879701896397 (- 55)\<rparr>"
  "train_epoch \<lparr>weights = [Finite 3602879701896397 (- 55), Finite 3602879701896397 (- 55), Finite 3602879701896397 (- 55)], bias = Finite (- 3602879701896397) (- 55), learning_rate = Finite 3602879701896397 (- 55)\<rparr>
     (zip OR_inputs_3 OR_outputs_3) =
     Inr \<lparr>weights = [Finite 3602879701896397 (- 55), Finite 3602879701896397 (- 55), Finite 3602879701896397 (- 55)], bias = Finite (- 3602879701896397) (- 55), learning_rate = Finite 3602879701896397 (- 55)\<rparr>"
  "predictions \<lparr>weights = [Finite 3602879701896397 (- 55), Finite 3602879701896397 (- 55), Finite 3602879701896397 (- 55)], bias = Finite (- 3602879701896397) (- 55), learning_rate = Finite 3602879701896397 (- 55)\<rparr>
     OR_inputs_3 = map Inr OR_outputs_3"
  by code_simp+

lemma f64_AND_3_run:
  "train_loop 2 \<lparr>weights = [Finite 0 0, Finite 0 0, Finite 0 0], bias = Finite 0 0, learning_rate = Finite 3602879701896397 (- 55)\<rparr>
     (zip AND_inputs_3 AND_outputs_3) =
     Inr \<lparr>weights = [Finite 3602879701896397 (- 55), Finite 3602879701896397 (- 55), Finite 3602879701896397 (- 55)], bias = Finite (- 7205759403792795) (- 55), learning_rate = Finite 3602879701896397 (- 55)\<rparr>"
  "train_epoch \<lparr>weights = [Finite 3602879701896397 (- 55), Finite 3602879701896397 (- 55), Finite 3602879701896397 (- 55)], bias = Finite (- 7205759403792795) (- 55), learning_rate = Finite 3602879701896397 (- 55)\<rparr>
     (zip AND_inputs_3 AND_outputs_3) =
     Inr \<lparr>weights = [Finite 3602879701896397 (- 55), Finite 3602879701896397 (- 55), Finite 3602879701896397 (- 55)], bias = Finite (- 7205759403792795) (- 55), learning_rate = Finite 3602879701896397 (- 55)\<rparr>"
  "predictions \<lparr>weights = [Finite 3602879701896397 (- 55), Finite 3602879701896397 (- 55), Finite 3602879701896397 (- 55)], bias = Finite (- 7205759403792795) (- 55), learning_rate = Finite 3602879701896397 (- 55)\<rparr>
     AND_inputs_3 = map Inr AND_outputs_3"
  by code_simp+

lemma init_real:
  "init 2 (1 / 10 :: real) = Inr \<lparr>weights = [0, 0], bias = 0, learning_rate = 1 / 10\<rparr>"
  "init 3 (1 / 10 :: real) = Inr \<lparr>weights = [0, 0, 0], bias = 0, learning_rate = 1 / 10\<rparr>"
  by (simp_all add: init_eq eval_nat_numeral)

lemma init_f64:
  "init 2 f64_tenth =
     Inr \<lparr>weights = [Finite 0 0, Finite 0 0], bias = Finite 0 0,
          learning_rate = Finite 3602879701896397 (- 55)\<rparr>"
  "init 3 f64_tenth =
     Inr \<lparr>weights = [Finite 0 0, Finite 0 0, Finite 0 0], bias = Finite 0 0,
          learning_rate = Finite 3602879701896397 (- 55)\<rparr>"
  by (simp_all add: init_eq eval_nat_numeral zero_float64_def f64_tenth_def)

text \<open>
  The four cells of the notebook call \<^verbatim>\<open>train\<close> with its default of ten epochs and print
  the weights and the bias: in binary64 the model gives the printed numbers.
\<close>

lemma notebook_cells:
  "train \<lparr>weights = [0, 0], bias = 0, learning_rate = f64_tenth\<rparr>
     OR_inputs OR_outputs default_epochs =
     Inr \<lparr>weights = [f64_tenth, f64_tenth], bias = Finite (- 3602879701896397) (- 55),
          learning_rate = f64_tenth\<rparr>"
  "train \<lparr>weights = [0, 0], bias = 0, learning_rate = f64_tenth\<rparr>
     AND_inputs AND_outputs default_epochs =
     Inr \<lparr>weights = [Finite 3602879701896397 (- 54), f64_tenth],
          bias = Finite (- 7205759403792795) (- 55), learning_rate = f64_tenth\<rparr>"
  "train \<lparr>weights = [0, 0, 0], bias = 0, learning_rate = f64_tenth\<rparr>
     OR_inputs_3 OR_outputs_3 default_epochs =
     Inr \<lparr>weights = [f64_tenth, f64_tenth, f64_tenth],
          bias = Finite (- 3602879701896397) (- 55), learning_rate = f64_tenth\<rparr>"
  "train \<lparr>weights = [0, 0, 0], bias = 0, learning_rate = f64_tenth\<rparr>
     AND_inputs_3 AND_outputs_3 default_epochs =
     Inr \<lparr>weights = [f64_tenth, f64_tenth, f64_tenth],
          bias = Finite (- 7205759403792795) (- 55), learning_rate = f64_tenth\<rparr>"
  unfolding train_def default_epochs_def f64_tenth_def zero_float64_def
  by (rule train_loop_from_fixed [OF f64_OR_run(1,2)] train_loop_from_fixed [OF f64_AND_run(1,2)]
      train_loop_from_fixed [OF f64_OR_3_run(1,2)] train_loop_from_fixed [OF f64_AND_3_run(1,2)],
      simp)+

text \<open>
  The bias \<^verbatim>\<open>-0.20000000000000004\<close> of the AND cells is \<open>- 7205759403792795 / 2\<^sup>5\<^sup>5\<close>, one
  unit in the last place beyond the binary64 number nearest to \<open>- 1 / 5\<close>: a sum of
  rounded tenths, not a rounded sum.
\<close>

lemma notebook_bias:
  "f64_value (Finite (- 7205759403792795) (- 55)) = Some (- (7205759403792795 / 2 ^ 55))"
  "\<bar>- (7205759403792795 / 2 ^ 55) - (- (20000000000000004 / 10 ^ 17)) :: real\<bar> < 1 / 10 ^ 17"
  "\<bar>- (7205759403792794 / 2 ^ 55) - (- (1 / 5)) :: real\<bar> < 1 / 2 ^ 56"
  by simp_all

text \<open>
  C3. From zero weights and a zero bias with learning rate 0.1, training for ten epochs
  or more on the truth table of OR with two inputs makes \<^verbatim>\<open>predict\<close> answer 0, 1, 1, 1
  on its four rows; AND gives 0, 0, 0, 1; OR with three inputs gives 0 on \<open>(0,0,0)\<close> and 1
  on the seven other rows; AND with three inputs gives 1 on \<open>(1,1,1)\<close> and 0 on the
  others. This holds in exact real arithmetic and in the binary64 arithmetic of numpy.
\<close>

theorem gates_learned:
  assumes "10 \<le> epochs"
  shows "learns (1 / 10 :: real) 2 OR_inputs OR_outputs epochs \<and>
         learns (1 / 10 :: real) 2 AND_inputs AND_outputs epochs \<and>
         learns (1 / 10 :: real) 3 OR_inputs_3 OR_outputs_3 epochs \<and>
         learns (1 / 10 :: real) 3 AND_inputs_3 AND_outputs_3 epochs \<and>
         learns f64_tenth 2 OR_inputs OR_outputs epochs \<and>
         learns f64_tenth 2 AND_inputs AND_outputs epochs \<and>
         learns f64_tenth 3 OR_inputs_3 OR_outputs_3 epochs \<and>
         learns f64_tenth 3 AND_inputs_3 AND_outputs_3 epochs"
proof (intro conjI)
  show "learns (1 / 10 :: real) 2 OR_inputs OR_outputs epochs"
    by (rule learns_from_fixed [OF init_real(1) real_OR_run]) (use assms in simp)
  show "learns (1 / 10 :: real) 2 AND_inputs AND_outputs epochs"
    by (rule learns_from_fixed [OF init_real(1) real_AND_run]) (use assms in simp)
  show "learns (1 / 10 :: real) 3 OR_inputs_3 OR_outputs_3 epochs"
    by (rule learns_from_fixed [OF init_real(2) real_OR_3_run]) (use assms in simp)
  show "learns (1 / 10 :: real) 3 AND_inputs_3 AND_outputs_3 epochs"
    by (rule learns_from_fixed [OF init_real(2) real_AND_3_run]) (use assms in simp)
  show "learns f64_tenth 2 OR_inputs OR_outputs epochs"
    by (rule learns_from_fixed [OF init_f64(1) f64_OR_run]) (use assms in simp)
  show "learns f64_tenth 2 AND_inputs AND_outputs epochs"
    by (rule learns_from_fixed [OF init_f64(1) f64_AND_run]) (use assms in simp)
  show "learns f64_tenth 3 OR_inputs_3 OR_outputs_3 epochs"
    by (rule learns_from_fixed [OF init_f64(2) f64_OR_3_run]) (use assms in simp)
  show "learns f64_tenth 3 AND_inputs_3 AND_outputs_3 epochs"
    by (rule learns_from_fixed [OF init_f64(2) f64_AND_3_run]) (use assms in simp)
qed

theorem gates_learned_witness:
  "(10 :: int) \<le> 10 \<and>
   learns (1 / 10 :: real) 2 OR_inputs OR_outputs 10 \<and>
   learns (1 / 10 :: real) 2 AND_inputs AND_outputs 10 \<and>
   learns (1 / 10 :: real) 3 OR_inputs_3 OR_outputs_3 10 \<and>
   learns (1 / 10 :: real) 3 AND_inputs_3 AND_outputs_3 10 \<and>
   learns f64_tenth 2 OR_inputs OR_outputs 10 \<and>
   learns f64_tenth 2 AND_inputs AND_outputs 10 \<and>
   learns f64_tenth 3 OR_inputs_3 OR_outputs_3 10 \<and>
   learns f64_tenth 3 AND_inputs_3 AND_outputs_3 10"
  using gates_learned [of 10] by simp

section \<open>Convergence on linearly separable data\<close>

text \<open>
  The classical convergence argument, in exact arithmetic: this section reads the methods
  over the reals. It says nothing yet about the program, whose numbers are rounded; it is
  used further down to bound the run of the program on data of integers, where binary64
  computes exactly.
\<close>

subsection \<open>Inner products\<close>

lemma foldl_plus_sum_list:
  fixes a :: real
  shows "foldl (+) a zs = a + sum_list zs"
  by (induction zs arbitrary: a) simp_all

lemma foldl_inner: "foldl (+) 0 (map2 (*) x w) = inner x w"
  by (simp add: foldl_plus_sum_list inner_def)

lemma inner_commute: "inner u v = inner v u"
proof (induction u arbitrary: v)
  case Nil
  then show ?case by (simp add: inner_def)
next
  case (Cons a u)
  then show ?case by (cases v) (simp_all add: inner_def)
qed

lemma inner_Cons [simp]: "inner (a # u) (b # v) = a * b + inner u v"
  by (simp add: inner_def)

lemma inner_Nil [simp]: "inner [] v = 0" "inner u [] = 0"
  by (simp_all add: inner_def)

lemma inner_self_nonneg: "0 \<le> inner u u"
  by (induction u) simp_all

lemma inner_replicate_zero: "inner u (replicate n 0) = 0"
proof (induction n arbitrary: u)
  case 0
  then show ?case by simp
next
  case (Suc n)
  then show ?case by (cases u) simp_all
qed

lemma inner_axpy:
  "length w = length x \<Longrightarrow> length u = length w \<Longrightarrow>
   inner u (map2 (\<lambda>wi xi. wi + k * xi) w x) = inner u w + k * inner u x"
proof (induction w x arbitrary: u rule: list_induct2)
  case Nil
  then show ?case by simp
next
  case (Cons a w b x)
  then show ?case by (cases u) (simp_all add: algebra_simps)
qed

lemma inner_axpy_self:
  "length w = length x \<Longrightarrow>
   inner (map2 (\<lambda>wi xi. wi + k * xi) w x) (map2 (\<lambda>wi xi. wi + k * xi) w x) =
     inner w w + 2 * k * inner w x + k * k * inner x x"
  by (induction w x rule: list_induct2) (simp_all add: algebra_simps)

lemma inner_index:
  "length u = length v \<Longrightarrow> inner u v = (\<Sum>i<length u. u ! i * v ! i)"
  by (induction u v rule: list_induct2)
     (simp_all add: sum.lessThan_Suc_shift del: sum.lessThan_Suc)

lemma two_products_le:
  fixes a b s U V :: real
  assumes "s * s \<le> U * V" and "0 \<le> U" and "0 \<le> V"
  shows "2 * (a * b * s) \<le> a * a * V + b * b * U"
proof -
  let ?x = "a * a * V" and ?y = "b * b * U"
  have nonneg: "0 \<le> ?x + ?y" using assms(2,3) by simp
  have "(2 * (a * b * s))\<^sup>2 = 4 * (a * a) * (b * b) * (s * s)"
    by (simp add: power2_eq_square algebra_simps)
  also have "\<dots> \<le> 4 * (a * a) * (b * b) * (U * V)"
    using assms(1) by (intro mult_left_mono) simp_all
  also have "\<dots> = 4 * ?x * ?y" by (simp add: algebra_simps)
  also have "\<dots> \<le> (?x + ?y)\<^sup>2"
  proof -
    have "0 \<le> (?x - ?y)\<^sup>2" by simp
    then show ?thesis by (simp add: power2_eq_square algebra_simps)
  qed
  finally show ?thesis using nonneg by (rule power2_le_imp_le)
qed

lemma cauchy_schwarz:
  "length u = length v \<Longrightarrow> inner u v * inner u v \<le> inner u u * inner v v"
proof (induction u v rule: list_induct2)
  case Nil
  then show ?case by simp
next
  case (Cons a u b v)
  let ?s = "inner u v" and ?U = "inner u u" and ?V = "inner v v"
  have "2 * (a * b * ?s) \<le> a * a * ?V + b * b * ?U"
    using Cons.IH inner_self_nonneg [of u] inner_self_nonneg [of v] by (rule two_products_le)
  with Cons.IH show ?case by (simp add: algebra_simps)
qed

subsection \<open>What a misclassified example does to the unit\<close>

text \<open>
  Against a hyperplane \<open>(u, c)\<close> that has every example on its right side by at least
  \<open>g\<close>, an update after a misclassified example raises the alignment by at least
  \<open>learning_rate * g\<close> and the squared length by at most \<open>learning_rate\<^sup>2 * r\<close>.
\<close>

lemma update_fields:
  "weights (update self (x, y)) =
     map2 (\<lambda>wi xi. wi +
         learning_rate self * (y - activation_function (inner x (weights self) + bias self)) * xi)
       (weights self) x"
  "bias (update self (x, y)) =
     bias self +
     learning_rate self * (y - activation_function (inner x (weights self) + bias self))"
  by (simp_all add: update_def Let_def foldl_inner)

lemma alignment_update:
  assumes "length x = length (weights self)" and "length u = length x"
  shows "alignment u c (update self (x, y)) =
           alignment u c self +
           learning_rate self * (y - activation_function (inner x (weights self) + bias self)) *
             (inner u x + c)"
proof -
  define k where "k = learning_rate self * (y - activation_function (inner x (weights self) + bias self))"
  have "inner u (map2 (\<lambda>wi xi. wi + k * xi) (weights self) x) =
      inner u (weights self) + k * inner u x"
    using assms by (intro inner_axpy) simp_all
  then show ?thesis
    unfolding alignment_def update_fields k_def [symmetric] by (simp add: algebra_simps)
qed

lemma sqnorm_update:
  assumes "length x = length (weights self)"
  shows "sqnorm (update self (x, y)) =
           sqnorm self +
           2 * (learning_rate self * (y - activation_function (inner x (weights self) + bias self))) *
             (inner x (weights self) + bias self) +
           (learning_rate self * (y - activation_function (inner x (weights self) + bias self))) *
           (learning_rate self * (y - activation_function (inner x (weights self) + bias self))) *
             (inner x x + 1)"
proof -
  define k where "k = learning_rate self * (y - activation_function (inner x (weights self) + bias self))"
  have "inner (map2 (\<lambda>wi xi. wi + k * xi) (weights self) x)
          (map2 (\<lambda>wi xi. wi + k * xi) (weights self) x) =
      inner (weights self) (weights self) + 2 * k * inner (weights self) x + k * k * inner x x"
    using assms by (intro inner_axpy_self) simp
  then show ?thesis
    unfolding sqnorm_def update_fields k_def [symmetric]
    by (simp add: inner_commute [of "weights self" x] algebra_simps)
qed

lemma update_mistake:
  assumes len: "length x = length (weights self)" and ulen: "length u = length x"
    and side: "y = 1 \<and> g \<le> inner u x + c \<or> y = 0 \<and> inner u x + c \<le> - g"
    and rad: "inner x x + 1 \<le> r"
    and lr: "0 < learning_rate self"
    and err: "y - activation_function (inner x (weights self) + bias self) \<noteq> 0"
  shows "alignment u c self + learning_rate self * g \<le> alignment u c (update self (x, y))"
    and "sqnorm (update self (x, y)) \<le> sqnorm self + learning_rate self * learning_rate self * r"
proof -
  let ?z = "inner x (weights self) + bias self"
  let ?lr = "learning_rate self"
  have sq: "?lr * ?lr * (inner x x + 1) \<le> ?lr * ?lr * r"
    using rad lr by (intro mult_left_mono) simp_all
  from side show "alignment u c self + ?lr * g \<le> alignment u c (update self (x, y))"
  proof
    assume y: "y = 1 \<and> g \<le> inner u x + c"
    with err have e: "y - activation_function ?z = 1"
      by (simp add: activation_function_def split: if_splits)
    from y lr have "?lr * g \<le> ?lr * (inner u x + c)" by (intro mult_left_mono) simp_all
    then show ?thesis by (simp add: alignment_update [OF len ulen] e)
  next
    assume y: "y = 0 \<and> inner u x + c \<le> - g"
    with err have e: "y - activation_function ?z = - 1"
      by (simp add: activation_function_def split: if_splits)
    from y lr have "?lr * (inner u x + c) \<le> ?lr * (- g)" by (intro mult_left_mono) simp_all
    then show ?thesis by (simp add: alignment_update [OF len ulen] e)
  qed
  from side show "sqnorm (update self (x, y)) \<le> sqnorm self + ?lr * ?lr * r"
  proof
    assume y: "y = 1 \<and> g \<le> inner u x + c"
    with err have e: "y - activation_function ?z = 1" and z: "?z < 0"
      by (simp_all add: activation_function_def split: if_splits)
    from z lr have "?lr * ?z \<le> 0" by (simp add: mult_le_0_iff)
    with sq show ?thesis by (simp add: sqnorm_update [OF len] e)
  next
    assume y: "y = 0 \<and> inner u x + c \<le> - g"
    with err have e: "y - activation_function ?z = - 1" and z: "0 \<le> ?z"
      by (simp_all add: activation_function_def split: if_splits)
    from z lr have "0 \<le> ?lr * ?z" by simp
    with sq show ?thesis by (simp add: sqnorm_update [OF len] e)
  qed
qed

lemma misclassified_Cons_inner:
  fixes self :: "real perceptron"
  shows "length x = length (weights self) \<Longrightarrow>
   misclassified self ((x, y) # rest) =
     (if y - activation_function (inner x (weights self) + bias self) \<noteq> 0 then 1 else 0) +
       misclassified (update self (x, y)) rest"
  by (simp add: misclassified_Cons foldl_inner)

lemma run_bounds:
  fixes self :: "real perceptron"
  assumes "0 < learning_rate self" and "length (weights self) = length u"
    and "margin u c g L" and "radius r L"
  shows "alignment u c self + learning_rate self * g * real (misclassified self L)
           \<le> alignment u c (foldl update self L) \<and>
         sqnorm (foldl update self L)
           \<le> sqnorm self + learning_rate self * learning_rate self * r * real (misclassified self L)"
  using assms
proof (induction L arbitrary: self)
  case Nil
  then show ?case by (simp add: misclassified_def)
next
  case (Cons ex L)
  obtain x y where ex: "ex = (x, y)" by (cases ex)
  let ?lr = "learning_rate self"
  let ?e = "y - activation_function (inner x (weights self) + bias self)"
  let ?q = "update self (x, y)"
  from Cons.prems have ulen: "length u = length x"
    and side: "y = 1 \<and> g \<le> inner u x + c \<or> y = 0 \<and> inner u x + c \<le> - g"
    and rad: "inner x x + 1 \<le> r"
    and rest: "margin u c g L" "radius r L"
    by (simp_all add: margin_def radius_def ex)
  from ulen Cons.prems have len: "length x = length (weights self)" by simp
  have q: "learning_rate ?q = ?lr" "length (weights ?q) = length u"
    using len Cons.prems by (simp_all add: learning_rate_update length_weights_update)
  from Cons.prems have "0 < learning_rate ?q" by (simp add: q)
  from Cons.IH [OF this q(2) rest]
  have ih: "alignment u c ?q + ?lr * g * real (misclassified ?q L)
              \<le> alignment u c (foldl update ?q L)"
           "sqnorm (foldl update ?q L)
              \<le> sqnorm ?q + ?lr * ?lr * r * real (misclassified ?q L)"
    by (simp_all add: q)
  have count: "misclassified self (ex # L) = (if ?e \<noteq> 0 then 1 else 0) + misclassified ?q L"
    using len by (simp add: ex misclassified_Cons_inner)
  show ?case
  proof (cases "?e = 0")
    case True
    then have "?q = self" using len by (intro update_zero_error) (simp_all add: foldl_inner)
    with ih count True show ?thesis by (simp add: ex)
  next
    case False
    from update_mistake [OF len ulen side rad Cons.prems(1) False]
    have "alignment u c self + ?lr * g \<le> alignment u c ?q"
      and "sqnorm ?q \<le> sqnorm self + ?lr * ?lr * r" .
    with ih count False show ?thesis by (simp add: ex algebra_simps)
  qed
qed

lemma alignment_sqnorm:
  assumes "length u = length (weights self)"
  shows "alignment u c self * alignment u c self \<le> (inner u u + c * c) * sqnorm self"
proof -
  have "inner (c # u) (bias self # weights self) * inner (c # u) (bias self # weights self)
      \<le> inner (c # u) (c # u) * inner (bias self # weights self) (bias self # weights self)"
    using assms by (intro cauchy_schwarz) simp
  then show ?thesis by (simp add: alignment_def sqnorm_def algebra_simps)
qed

lemma length_weights_foldl_update:
  "fits self L \<Longrightarrow> length (weights (foldl update self L)) = length (weights self)"
proof (induction L arbitrary: self)
  case Nil
  then show ?case by simp
next
  case (Cons ex L)
  obtain x y where ex: "ex = (x, y)" by (cases ex)
  from Cons.prems have len: "length x = length (weights self)" and "fits self L"
    by (simp_all add: fits_def ex)
  then have "fits (update self (x, y)) L" by (simp add: fits_update)
  from Cons.IH [OF this] len show ?case by (simp add: ex length_weights_update)
qed

lemma margin_fits: "margin u c g L \<Longrightarrow> length (weights self) = length u \<Longrightarrow> fits self L"
  by (auto simp: margin_def fits_def list_all_iff)

lemma mistake_bound:
  assumes lr: "0 < lr" and g: "0 < g" and r: "0 \<le> r"
    and m: "margin u c g L" and rad: "radius r L"
  shows "real (misclassified \<lparr>weights = replicate (length u) 0, bias = 0, learning_rate = lr\<rparr> L)
           * (g * g) \<le> (inner u u + c * c) * r"
proof -
  let ?p = "\<lparr>weights = replicate (length u) 0, bias = 0, learning_rate = lr\<rparr>"
  let ?M = "real (misclassified ?p L)"
  let ?A = "alignment u c (foldl update ?p L)"
  let ?Q = "sqnorm (foldl update ?p L)"
  let ?U = "inner u u + c * c"
  have U: "0 \<le> ?U" using inner_self_nonneg [of u] by simp
  have "alignment u c ?p = 0" "sqnorm ?p = 0"
    by (simp_all add: alignment_def sqnorm_def inner_replicate_zero)
  with run_bounds [of ?p u c g L r] lr m rad
  have A: "lr * g * ?M \<le> ?A" and Q: "?Q \<le> lr * lr * r * ?M" by simp_all
  have "fits ?p L" using m by (rule margin_fits) simp
  then have "length u = length (weights (foldl update ?p L))"
    by (simp add: length_weights_foldl_update)
  then have cs: "?A * ?A \<le> ?U * ?Q" by (rule alignment_sqnorm)
  show ?thesis
  proof (cases "?M = 0")
    case True
    with U r show ?thesis by simp
  next
    case False
    then have M: "0 < ?M" by simp
    have nonneg: "0 \<le> lr * g * ?M" using lr g by simp
    have "(lr * g * ?M) * (lr * g * ?M) \<le> ?A * ?A"
      using nonneg A by (intro mult_mono) simp_all
    also note cs
    also have "?U * ?Q \<le> ?U * (lr * lr * r * ?M)"
      using U Q by (rule mult_left_mono [rotated])
    finally have "(lr * lr * ?M) * (?M * (g * g)) \<le> (lr * lr * ?M) * (?U * r)"
      by (simp add: algebra_simps)
    moreover have "0 < lr * lr * ?M" using lr M by simp
    ultimately show ?thesis by (simp only: mult_le_cancel_left_pos)
  qed
qed

subsection \<open>From a separating hyperplane to an epoch without errors\<close>

lemma separates_sides:
  assumes "separates w b ds" and "(x, y) \<in> set ds"
  shows "length x = length w"
    and "y = (if 0 \<le> inner w x + b then 1 else 0)"
proof -
  from assms show len: "length x = length w"
    by (auto simp: separates_def list_all_iff)
  from assms have "y = spec_predict w b x"
    by (auto simp: separates_def list_all_iff)
  then show "y = (if 0 \<le> inner w x + b then 1 else 0)"
    using len by (simp add: spec_predict_def inner_index)
qed

lemma separates_gap:
  "separates w b ds \<Longrightarrow>
   \<exists>d>0. list_all (\<lambda>(x, y). y = 0 \<longrightarrow> inner w x + b \<le> - d) ds"
proof (induction ds)
  case Nil
  show ?case by (intro exI [of _ 1]) simp
next
  case (Cons ex ds)
  obtain x y where ex: "ex = (x, y)" by (cases ex)
  from Cons.prems have "separates w b ds" by (simp add: separates_def)
  with Cons.IH obtain d where d: "0 < d"
    "list_all (\<lambda>(x, y). y = 0 \<longrightarrow> inner w x + b \<le> - d) ds" by blast
  from Cons.prems have side: "y = (if 0 \<le> inner w x + b then 1 else 0)"
    by (intro separates_sides [of w b "ex # ds"]) (simp_all add: ex)
  let ?d = "if y = 0 then min d (- (inner w x + b)) else d"
  from side d(1) have pos: "0 < ?d" by (simp split: if_splits)
  have "?d \<le> d" by simp
  with d(2) have "list_all (\<lambda>(x, y). y = 0 \<longrightarrow> inner w x + b \<le> - ?d) ds"
    by (auto simp: list_all_iff)
  moreover have "y = 0 \<longrightarrow> inner w x + b \<le> - ?d" by (simp add: min_def)
  ultimately have "list_all (\<lambda>(x, y). y = 0 \<longrightarrow> inner w x + b \<le> - ?d) (ex # ds)"
    by (simp add: ex)
  with pos show ?case by blast
qed

lemma separates_margin:
  assumes "separates w b ds"
  shows "\<exists>c g. 0 < g \<and> margin w c g ds"
proof -
  from separates_gap [OF assms] obtain d where d: "0 < d"
    "list_all (\<lambda>(x, y). y = 0 \<longrightarrow> inner w x + b \<le> - d) ds" by blast
  have "margin w (b + d / 2) (d / 2) ds"
    unfolding margin_def list_all_iff
  proof (intro ballI, clarify)
    fix x y
    assume mem: "(x, y) \<in> set ds"
    note s = separates_sides [OF assms mem]
    show "length x = length w \<and>
          (y = 1 \<and> d / 2 \<le> inner w x + (b + d / 2) \<or>
           y = 0 \<and> inner w x + (b + d / 2) \<le> - (d / 2))"
    proof (cases "0 \<le> inner w x + b")
      case True
      with s d(1) show ?thesis by simp
    next
      case False
      with s have "y = 0" by simp
      with d(2) mem have "inner w x + b \<le> - d" by (auto simp: list_all_iff)
      with s \<open>y = 0\<close> show ?thesis by simp
    qed
  qed
  with d(1) show ?thesis by (intro exI [of _ "b + d / 2"] exI [of _ "d / 2"]) simp
qed

lemma radius_exists: "\<exists>r\<ge>0. radius r ds"
proof (induction ds)
  case Nil
  show ?case by (intro exI [of _ 0]) (simp add: radius_def)
next
  case (Cons ex ds)
  obtain x y where ex: "ex = (x, y)" by (cases ex)
  from Cons.IH obtain r where r: "0 \<le> r" "radius r ds" by blast
  let ?r = "max r (inner x x + 1)"
  from r(2) have "radius ?r ds" by (auto simp: radius_def list_all_iff)
  then have "radius ?r (ex # ds)" by (simp add: radius_def ex)
  moreover from r(1) have "0 \<le> ?r" by simp
  ultimately show ?case by blast
qed

lemma list_all_concat_replicate: "list_all P ds \<Longrightarrow> list_all P (concat (replicate k ds))"
  by (induction k) simp_all

lemma concat_replicate_Suc_right:
  "concat (replicate (Suc k) ds) = concat (replicate k ds) @ ds"
  by (induction k) simp_all

lemma misclassified_append:
  fixes self :: "real perceptron"
  shows "fits self L1 \<Longrightarrow>
   misclassified self (L1 @ L2) = misclassified self L1 + misclassified (foldl update self L1) L2"
proof (induction L1 arbitrary: self)
  case Nil
  then show ?case by (simp add: misclassified_def)
next
  case (Cons ex L1)
  obtain x y where ex: "ex = (x, y)" by (cases ex)
  from Cons.prems have len: "length x = length (weights self)" and "fits self L1"
    by (simp_all add: fits_def ex)
  then have "fits (update self (x, y)) L1" by (simp add: fits_update)
  from Cons.IH [OF this] len show ?case by (simp add: ex misclassified_Cons)
qed

lemma every_epoch_errs:
  fixes self :: "real perceptron"
  assumes "fits self ds"
    and "\<forall>k<m. 0 < misclassified (foldl update self (concat (replicate k ds))) ds"
  shows "m \<le> misclassified self (concat (replicate m ds))"
  using assms(2)
proof (induction m)
  case 0
  then show ?case by simp
next
  case (Suc m)
  have "fits self (concat (replicate m ds))"
    using assms(1) unfolding fits_def by (rule list_all_concat_replicate)
  then have "misclassified self (concat (replicate (Suc m) ds)) =
      misclassified self (concat (replicate m ds)) +
      misclassified (foldl update self (concat (replicate m ds))) ds"
    unfolding concat_replicate_Suc_right by (rule misclassified_append)
  moreover from Suc.prems have "0 < misclassified (foldl update self (concat (replicate m ds))) ds"
    by simp
  moreover from Suc.prems have "m \<le> misclassified self (concat (replicate m ds))"
    by (intro Suc.IH) simp
  ultimately show ?case by simp
qed

lemma zero_misclassified_correct:
  fixes self :: "'a::{ring_1,ord} perceptron"
  shows "fits self ds \<Longrightarrow> misclassified self ds = 0 \<Longrightarrow>
         list_all (\<lambda>(x, y). predict self x = (Inr y, self)) ds"
proof (induction ds)
  case Nil
  then show ?case by simp
next
  case (Cons ex ds)
  obtain x y where ex: "ex = (x, y)" by (cases ex)
  from Cons.prems have len: "length x = length (weights self)" and rest: "fits self ds"
    by (simp_all add: fits_def ex)
  from Cons.prems len
  have err: "y - activation_function (foldl (+) 0 (map2 (*) x (weights self)) + bias self) = 0"
    by (simp add: ex misclassified_Cons split: if_splits)
  have same: "update self (x, y) = self" using len err by (rule update_zero_error)
  with Cons.prems len have "misclassified self ds = 0"
    by (simp add: ex misclassified_Cons)
  with Cons.IH rest have "list_all (\<lambda>(x, y). predict self x = (Inr y, self)) ds" by simp
  moreover from err have "predict self x = (Inr y, self)"
    using len by (simp add: predict_match)
  ultimately show ?case by (simp add: ex)
qed

lemma margin_epoch_without_errors:
  fixes lr :: real
  assumes lr: "0 < lr" and g: "0 < g" and m: "margin w c g ds"
  shows "\<exists>k. misclassified
           (foldl update \<lparr>weights = replicate (length w) 0, bias = 0, learning_rate = lr\<rparr>
              (concat (replicate k ds))) ds = 0"
proof (rule ccontr)
  let ?p = "\<lparr>weights = replicate (length w) 0, bias = 0, learning_rate = lr\<rparr>"
  assume "\<not> ?thesis"
  then have all: "\<forall>k. 0 < misclassified (foldl update ?p (concat (replicate k ds))) ds"
    by simp
  from radius_exists [of ds] obtain r where r: "0 \<le> r" and rad: "radius r ds" by blast
  have fit: "fits ?p ds" using m by (rule margin_fits) simp
  define B where "B = (inner w w + c * c) * r / (g * g)"
  define m0 where "m0 = nat \<lfloor>B\<rfloor> + 1"
  have gg: "0 < g * g" using g by simp
  have "margin w c g (concat (replicate m0 ds))" "radius r (concat (replicate m0 ds))"
    using m rad unfolding margin_def radius_def by (simp_all add: list_all_concat_replicate)
  from mistake_bound [OF lr g r this]
  have "real (misclassified ?p (concat (replicate m0 ds))) \<le> B"
    using gg by (simp add: B_def pos_le_divide_eq)
  moreover have "m0 \<le> misclassified ?p (concat (replicate m0 ds))"
    using fit all by (intro every_epoch_errs) simp_all
  ultimately have "real m0 \<le> B" by linarith
  moreover have "B < real m0" unfolding m0_def by linarith
  ultimately show False by simp
qed

lemma some_epoch_without_errors:
  fixes lr :: real
  assumes lr: "0 < lr" and sep: "separates w b ds"
  shows "\<exists>k. misclassified
           (foldl update \<lparr>weights = replicate (length w) 0, bias = 0, learning_rate = lr\<rparr>
              (concat (replicate k ds))) ds = 0"
proof -
  from separates_margin [OF sep] obtain c g where g: "0 < g" and m: "margin w c g ds" by blast
  from lr g m show ?thesis by (rule margin_epoch_without_errors)
qed

section \<open>Facts of the binary64 arithmetic\<close>

subsection \<open>The rounding at its edges\<close>

text \<open>
  \<^verbatim>\<open>0.1 + 0.2\<close> is \<^verbatim>\<open>0.30000000000000004\<close>; \<open>2\<^sup>5\<^sup>3 + 1\<close> is a tie and goes to the even
  \<open>2\<^sup>5\<^sup>3\<close>, \<open>2\<^sup>5\<^sup>3 + 3\<close> to \<open>2\<^sup>5\<^sup>3 + 4\<close>; the largest number plus half a unit in its last
  place overflows and plus a quarter does not; half the smallest number is a tie and
  goes to zero; zero times infinity and infinity minus infinity are \<open>NaN\<close>.
\<close>

lemma f64_examples:
  "f64_add f64_tenth (Finite 3602879701896397 (- 54)) = Finite 1351079888211149 (- 52)"
  "f64_add (Finite 1 53) (Finite 1 0) = Finite 1 53"
  "f64_add (Finite 1 53) (Finite 3 0) = Finite 2251799813685249 2"
  "f64_mul (Finite 1 1023) (Finite 1 1) = PInf"
  "f64_add (Finite 9007199254740991 971) (Finite 1 970) = PInf"
  "f64_add (Finite 9007199254740991 971) (Finite 1 969) = Finite 9007199254740991 971"
  "f64_mul (Finite 1 (- 1074)) (Finite 1 (- 1)) = Finite 0 0"
  "f64_mul (Finite 3 (- 1074)) (Finite 1 (- 1)) = Finite 1 (- 1073)"
  "f64_mul PInf (Finite 0 0) = NaN"
  "f64_add PInf NInf = NaN"
  by code_simp+

subsection \<open>Exact results are not changed by rounding\<close>

lemma normalize_odd: "odd m \<Longrightarrow> normalize m e = Finite m e"
proof -
  assume "odd m"
  moreover from this have "m \<noteq> 0" by (cases "m = 0") simp_all
  ultimately show ?thesis by (subst normalize.simps) simp
qed

lemma normalize_zero: "normalize 0 e = Finite 0 0"
  by (subst normalize.simps) simp

lemma normalize_shift: "odd m \<Longrightarrow> normalize (m * 2 ^ k) e = Finite m (e + int k)"
proof (induction k arbitrary: e)
  case 0
  then have "normalize m e = Finite m e" by (rule normalize_odd)
  then show ?case by simp
next
  case (Suc k)
  from Suc.prems have nz: "m * 2 ^ Suc k \<noteq> 0" by (cases "m = 0") simp_all
  have "normalize (m * 2 ^ Suc k) e = normalize (m * 2 ^ Suc k div 2) (e + 1)"
    using nz by (subst normalize.simps) simp
  also have "m * 2 ^ Suc k div 2 = m * 2 ^ k" by simp
  also have "normalize (m * 2 ^ k) (e + 1) = Finite m (e + 1 + int k)"
    using Suc.prems by (rule Suc.IH)
  finally show ?case by simp
qed

lemma round_shift_multiple: "round_shift (n * 2 ^ s) s = n"
  by (simp add: round_shift_def Let_def)

lemma round_shift_exact:
  assumes "s \<le> k"
  shows "round_shift (m * 2 ^ k) s = m * 2 ^ (k - s)"
proof -
  from assms have "(2 :: int) ^ k = 2 ^ (k - s) * 2 ^ s"
    by (simp add: power_add [symmetric])
  then have "m * 2 ^ k = (m * 2 ^ (k - s)) * 2 ^ s" by simp
  then show ?thesis by (simp only: round_shift_multiple)
qed

lemma round64_zero: "round64 0 e = Finite 0 0"
  by (simp add: round64_def Let_def round_shift_def normalize_zero)

lemma round64_exact:
  assumes "odd m" and "bitlen \<bar>m\<bar> \<le> 53" and "- 1074 \<le> e" and "bitlen \<bar>m\<bar> + e \<le> 1024"
  shows "round64 (m * 2 ^ k) (e - int k) = Finite m e"
proof -
  from assms(1) have nz: "m \<noteq> 0" by (cases "m = 0") simp_all
  then have pos: "0 < \<bar>m\<bar>" by simp
  have bl: "bitlen \<bar>m * 2 ^ k\<bar> = bitlen \<bar>m\<bar> + int k"
    using pos by (simp add: abs_mult)
  define q where "q = max (bitlen \<bar>m\<bar> + e - 53) (- 1074)"
  have q: "q \<le> e" using assms(2,3) by (simp add: q_def)
  have q': "max (bitlen \<bar>m * 2 ^ k\<bar> + (e - int k) - 53) (- 1074) = q"
    by (simp add: bl q_def)
  show ?thesis
  proof (cases "q \<le> e - int k")
    case True
    then have mx: "max q (e - int k) = e - int k" by simp
    have "round64 (m * 2 ^ k) (e - int k) =
        (if m * 2 ^ k \<noteq> 0 \<and> bitlen \<bar>m * 2 ^ k\<bar> + (e - int k) > 1024
         then (if m * 2 ^ k < 0 then NInf else PInf)
         else normalize (m * 2 ^ k) (e - int k))"
      unfolding round64_def q' Let_def using True by (simp only: mx if_True)
    also have "\<dots> = normalize (m * 2 ^ k) (e - int k)"
      using assms(4) by (simp add: bl)
    also have "\<dots> = Finite m e"
      using normalize_shift [OF assms(1), of k "e - int k"] by simp
    finally show ?thesis .
  next
    case False
    define s where "s = nat (q - (e - int k))"
    from False q have s: "s \<le> k" "int s = q - (e - int k)" by (simp_all add: s_def)
    have m1: "round_shift (m * 2 ^ k) s = m * 2 ^ (k - s)" using s(1) by (rule round_shift_exact)
    have bl1: "bitlen \<bar>m * 2 ^ (k - s)\<bar> = bitlen \<bar>m\<bar> + int (k - s)"
      using pos by (simp add: abs_mult)
    from False have mx: "max q (e - int k) = q" by simp
    have "round64 (m * 2 ^ k) (e - int k) =
        (if m * 2 ^ (k - s) \<noteq> 0 \<and> bitlen \<bar>m * 2 ^ (k - s)\<bar> + q > 1024
         then (if m * 2 ^ k < 0 then NInf else PInf)
         else normalize (m * 2 ^ (k - s)) q)"
      unfolding round64_def q' Let_def using False
      by (simp only: mx if_False s_def [symmetric] m1)
    also have "\<dots> = normalize (m * 2 ^ (k - s)) q"
      using assms(4) s by (simp add: bl1)
    also have "\<dots> = Finite m e"
      using normalize_shift [OF assms(1), of "k - s" q] s by simp
    finally show ?thesis .
  qed
qed

lemma f64_add_zero:
  assumes "is_double w"
  shows "f64_add w (Finite 0 0) = w"
proof (cases w)
  case (Finite m e)
  show ?thesis
  proof (cases "m = 0")
    case True
    with assms Finite show ?thesis by (simp add: round64_zero)
  next
    case False
    with assms Finite have d: "odd m" "bitlen \<bar>m\<bar> \<le> 53" "- 1074 \<le> e" "bitlen \<bar>m\<bar> + e \<le> 1024"
      by simp_all
    have "round64 (m * 2 ^ nat (e - min e 0)) (e - int (nat (e - min e 0))) = Finite m e"
      using d by (rule round64_exact)
    moreover have "e - int (nat (e - min e 0)) = min e 0" by simp
    ultimately show ?thesis by (simp add: Finite Let_def)
  qed
qed simp_all

lemma f64_mul_zero:
  assumes "f64_finite a"
  shows "f64_mul a (Finite 0 0) = Finite 0 0" and "f64_mul (Finite 0 0) a = Finite 0 0"
  using assms by (cases a; simp add: round64_zero)+

subsection \<open>A sweep without errors leaves the unit as it is\<close>

lemma f64_keep_weights:
  "length ws = length x \<Longrightarrow> list_all is_double ws \<Longrightarrow> list_all f64_finite x \<Longrightarrow>
   map2 (\<lambda>w xi. f64_add w (f64_mul (Finite 0 0) xi)) ws x = ws"
  by (induction ws x rule: list_induct2) (simp_all add: f64_mul_zero f64_add_zero)

lemma f64_update_zero_error:
  fixes self :: "float64 perceptron"
  assumes "length x = length (weights self)"
    and "list_all is_double (weights self)" and "is_double (bias self)"
    and "f64_finite (learning_rate self)" and "list_all f64_finite x"
    and "y - activation_function (foldl (+) 0 (map2 (*) x (weights self)) + bias self) = 0"
  shows "update self (x, y) = self"
  using assms
  by (simp add: update_def plus_float64_def times_float64_def zero_float64_def
      f64_mul_zero f64_add_zero f64_keep_weights)

lemma f64_zero_error_epoch_is_fixed:
  fixes self :: "float64 perceptron"
  assumes "list_all is_double (weights self)" and "is_double (bias self)"
    and "f64_finite (learning_rate self)"
    and "list_all (\<lambda>(x, y). list_all f64_finite x) ds"
    and "train_epoch self ds = Inr self1"
    and "misclassified self ds = 0"
  shows "self1 = self \<and> train_loop n self ds = Inr self"
proof -
  from assms(5) have fit: "fits self ds" by (rule train_epoch_Inr_fits)
  have "\<forall>ex \<in> set ds. length (fst ex) = length (weights self) \<longrightarrow>
      snd ex - activation_function (foldl (+) 0 (map2 (*) (fst ex) (weights self)) + bias self) = 0 \<longrightarrow>
      update self ex = self"
  proof (intro ballI impI)
    fix ex
    assume mem: "ex \<in> set ds" and len: "length (fst ex) = length (weights self)"
      and err: "snd ex - activation_function
          (foldl (+) 0 (map2 (*) (fst ex) (weights self)) + bias self) = 0"
    from mem assms(4) have "list_all f64_finite (fst ex)"
      by (auto simp: list_all_iff)
    with len assms(1-3) err have "update self (fst ex, snd ex) = self"
      by (intro f64_update_zero_error)
    then show "update self ex = self" by simp
  qed
  then have "foldl update self ds = self"
    using fit assms(6) by (rule no_error_sweep_fixed)
  with fit assms(5) have "self1 = self" by (simp add: train_epoch_fits)
  with assms(5) show ?thesis by (simp add: train_loop_fixed)
qed


lemma f64_OR_quiet:
  "train \<lparr>weights = [0, 0], bias = 0, learning_rate = f64_tenth\<rparr> OR_inputs OR_outputs 3 =
     Inr \<lparr>weights = [f64_tenth, f64_tenth], bias = Finite (- 3602879701896397) (- 55),
          learning_rate = f64_tenth\<rparr>"
  "train_epoch \<lparr>weights = [f64_tenth, f64_tenth], bias = Finite (- 3602879701896397) (- 55),
          learning_rate = f64_tenth\<rparr> (zip OR_inputs OR_outputs) =
     Inr \<lparr>weights = [f64_tenth, f64_tenth], bias = Finite (- 3602879701896397) (- 55),
          learning_rate = f64_tenth\<rparr>"
  "misclassified \<lparr>weights = [f64_tenth, f64_tenth], bias = Finite (- 3602879701896397) (- 55),
          learning_rate = f64_tenth\<rparr> (zip OR_inputs OR_outputs) = 0"
  "list_all (list_all f64_finite) OR_inputs"
  "list_all is_double [f64_tenth, f64_tenth]"
  "is_double (Finite (- 3602879701896397) (- 55))"
  by code_simp+

text \<open>
  C4. In the arithmetic of the program the claim needs the numbers to be finite. If the
  sweep that follows \<open>k\<close> epochs of training completes and misclassifies no example (every
  error it computes is 0), and the learning rate and every component of every input are
  finite, then that sweep leaves the unit exactly as it was, and so does every further
  epoch: after any number \<open>j \<ge> k\<close> of epochs \<^verbatim>\<open>train\<close> ends in the same unit, whose next
  sweep again misclassifies nothing. (The weights and the bias are numbers of the format,
  as every array element is; they may be infinite.)
\<close>

theorem zero_error_epoch_is_fixed:
  fixes self :: "float64 perceptron"
  assumes "train start input_vectors outputs k = Inr self"
    and "train_epoch self (zip input_vectors outputs) = Inr self1"
    and "misclassified self (zip input_vectors outputs) = 0"
    and "f64_finite (learning_rate self)"
    and "list_all (list_all f64_finite) input_vectors"
    and "list_all is_double (weights self)" and "is_double (bias self)"
  shows "self1 = self \<and>
         (\<forall>j\<ge>k. train start input_vectors outputs j = Inr self \<and>
            misclassified self (zip input_vectors outputs) = 0)"
proof
  let ?ds = "zip input_vectors outputs"
  from assms(5) have fin: "list_all (\<lambda>(x, y). list_all f64_finite x) ?ds"
    by (auto simp: list_all_iff dest: set_zip_leftD)
  from f64_zero_error_epoch_is_fixed [OF assms(6,7,4) fin assms(2,3), of 1]
  show same: "self1 = self" by simp
  show "\<forall>j\<ge>k. train start input_vectors outputs j = Inr self \<and> misclassified self ?ds = 0"
  proof (intro allI impI)
    fix j :: int
    assume "k \<le> j"
    then have le: "nat k \<le> nat j" by simp
    from assms(1) have reach: "train_loop (nat k) start ?ds = Inr self"
      by (simp add: train_def)
    from assms(2) same have fixed: "train_epoch self ?ds = Inr self" by simp
    from reach fixed le have "train_loop (nat j) start ?ds = Inr self"
      by (rule train_loop_from_fixed)
    with assms(3) show "train start input_vectors outputs j = Inr self \<and> misclassified self ?ds = 0"
      by (simp add: train_def)
  qed
qed

theorem zero_error_epoch_is_fixed_witness:
  "train \<lparr>weights = [0, 0], bias = 0, learning_rate = f64_tenth\<rparr> OR_inputs OR_outputs 10 =
     Inr \<lparr>weights = [f64_tenth, f64_tenth], bias = Finite (- 3602879701896397) (- 55),
          learning_rate = f64_tenth\<rparr> \<and>
   misclassified \<lparr>weights = [f64_tenth, f64_tenth], bias = Finite (- 3602879701896397) (- 55),
          learning_rate = f64_tenth\<rparr> (zip OR_inputs OR_outputs) = 0"
proof -
  have fin: "f64_finite (learning_rate \<lparr>weights = [f64_tenth, f64_tenth],
      bias = Finite (- 3602879701896397) (- 55), learning_rate = f64_tenth\<rparr>)"
    by (simp add: f64_tenth_def)
  have dbl: "list_all is_double (weights \<lparr>weights = [f64_tenth, f64_tenth],
      bias = Finite (- 3602879701896397) (- 55), learning_rate = f64_tenth\<rparr>)"
    "is_double (bias \<lparr>weights = [f64_tenth, f64_tenth],
      bias = Finite (- 3602879701896397) (- 55), learning_rate = f64_tenth\<rparr>)"
    using f64_OR_quiet(5,6) by simp_all
  have "(3 :: int) \<le> 10" by simp
  with zero_error_epoch_is_fixed [OF f64_OR_quiet(1,2,3) fin f64_OR_quiet(4) dbl]
  show ?thesis by blast
qed

text \<open>
  Without the finiteness the claim fails. A fresh unit of size 1 with learning rate 0.1,
  trained on the one example \<open>([inf], 1)\<close>: the first epoch ends with the weight \<open>inf\<close>; the
  second epoch computes the error 0, so it misclassifies nothing, and yet its update
  \<open>0.1 * 0 * inf\<close> turns the weight into \<open>NaN\<close>; the third epoch misclassifies the example
  and changes the bias.
\<close>

theorem zero_error_epoch_is_fixed_counterexample:
  "train \<lparr>weights = [0], bias = 0, learning_rate = f64_tenth\<rparr> [[PInf]] [1] 1 =
     Inr \<lparr>weights = [PInf], bias = f64_tenth, learning_rate = f64_tenth\<rparr> \<and>
   misclassified \<lparr>weights = [PInf], bias = f64_tenth, learning_rate = f64_tenth\<rparr> [([PInf], 1)] = 0 \<and>
   train_epoch \<lparr>weights = [PInf], bias = f64_tenth, learning_rate = f64_tenth\<rparr> [([PInf], 1)] =
     Inr \<lparr>weights = [NaN], bias = f64_tenth, learning_rate = f64_tenth\<rparr> \<and>
   train \<lparr>weights = [0], bias = 0, learning_rate = f64_tenth\<rparr> [[PInf]] [1] 2 =
     Inr \<lparr>weights = [NaN], bias = f64_tenth, learning_rate = f64_tenth\<rparr> \<and>
   misclassified \<lparr>weights = [NaN], bias = f64_tenth, learning_rate = f64_tenth\<rparr> [([PInf], 1)] = 1 \<and>
   train \<lparr>weights = [0], bias = 0, learning_rate = f64_tenth\<rparr> [[PInf]] [1] 3 =
     Inr \<lparr>weights = [NaN], bias = Finite 3602879701896397 (- 54), learning_rate = f64_tenth\<rparr>"
  by code_simp

subsection \<open>The fresh unit answers 1 on finite inputs\<close>

lemma f64_foldl_zero_weights:
  "list_all f64_finite x \<Longrightarrow>
   foldl (+) (0 :: float64) (map2 (*) x (replicate n 0)) = 0"
proof (induction n arbitrary: x)
  case 0
  then show ?case by simp
next
  case (Suc n)
  then show ?case
    by (cases x)
       (simp_all add: plus_float64_def times_float64_def zero_float64_def f64_mul_zero
          round64_zero)
qed

lemma f64_fresh_predict:
  fixes lr :: float64
  assumes "length x = n" and "list_all f64_finite x"
  shows "predict \<lparr>weights = replicate n 0, bias = 0, learning_rate = lr\<rparr> x =
         (Inr 1, \<lparr>weights = replicate n 0, bias = 0, learning_rate = lr\<rparr>)"
  using assms
  by (simp add: predict_match f64_foldl_zero_weights activation_function_def)
     (simp add: plus_float64_def zero_float64_def less_eq_float64_def round64_zero)

text \<open>
  C10. A freshly constructed unit returns 1 from \<^verbatim>\<open>predict\<close> for every input of the size
  it was built with whose components are all finite, and is left as it was: every
  product with a zero weight is 0, so the activation is 0.
\<close>

theorem fresh_unit_predicts_one:
  fixes lr :: float64
  assumes "init input_size lr = Inr unit0"
    and "int (length x) = input_size"
    and "list_all f64_finite x"
  shows "predict unit0 x = (Inr 1, unit0)"
proof -
  from assms(1) have u: "unit0 = \<lparr>weights = replicate (nat input_size) 0, bias = 0, learning_rate = lr\<rparr>"
    by (rule init_Inr)
  from assms(2) have "length x = nat input_size" by simp
  then show ?thesis unfolding u using assms(3) by (rule f64_fresh_predict)
qed

theorem fresh_unit_predicts_one_witness:
  "predict \<lparr>weights = [0, 0], bias = 0, learning_rate = f64_tenth\<rparr> [Finite 3 (- 1), Finite (- 5) 2] =
     (Inr 1, \<lparr>weights = [0, 0], bias = 0, learning_rate = f64_tenth\<rparr>)"
  using fresh_unit_predicts_one [of 2 f64_tenth "\<lparr>weights = [0, 0], bias = 0, learning_rate = f64_tenth\<rparr>"
      "[Finite 3 (- 1), Finite (- 5) 2]"]
  by (simp add: init_eq eval_nat_numeral)

text \<open>
  For an input with an infinite or \<open>NaN\<close> component the claim fails: \<open>inf * 0\<close> is \<open>NaN\<close>,
  the activation is \<open>NaN\<close>, the comparison \<^verbatim>\<open>NaN >= 0\<close> is false and \<^verbatim>\<open>predict\<close> returns 0.
\<close>

theorem fresh_unit_predicts_one_counterexample:
  "init 1 f64_tenth = Inr \<lparr>weights = [0], bias = 0, learning_rate = f64_tenth\<rparr> \<and>
   predict \<lparr>weights = [0], bias = 0, learning_rate = f64_tenth\<rparr> [PInf] =
     (Inr 0, \<lparr>weights = [0], bias = 0, learning_rate = f64_tenth\<rparr>) \<and>
   predict \<lparr>weights = [0], bias = 0, learning_rate = f64_tenth\<rparr> [NaN] =
     (Inr 0, \<lparr>weights = [0], bias = 0, learning_rate = f64_tenth\<rparr>)"
  by code_simp

subsection \<open>The rounding stays within half a unit in the last place\<close>

text \<open>
  Every finite result of \<^const>\<open>round64\<close> is a number of the format, and it differs from
  the exact value \<open>m * 2\<^sup>e\<close> by at most half of \<open>2\<^sup>q\<close>, the weight of the last bit kept.
  That a tie goes to the even neighbour, and the point where a result overflows, are
  shown on the examples above only.
\<close>

lemma two_powr_int: "2 powr real_of_int e = (if 0 \<le> e then 2 ^ nat e else 1 / 2 ^ nat (- e))"
proof (cases "0 \<le> e")
  case True
  then have "real_of_int e = real (nat e)" by simp
  then show ?thesis using True by (simp only: powr_realpow) simp
next
  case False
  then have neg: "- real_of_int e = real (nat (- e))" by simp
  have "2 powr real_of_int e = inverse (2 powr (- real_of_int e))"
    by (simp add: powr_minus)
  also have "\<dots> = inverse (2 ^ nat (- e))"
    by (simp only: neg powr_realpow [of 2, OF zero_less_numeral])
  finally show ?thesis using False by (simp add: inverse_eq_divide)
qed

lemma f64_value_powr: "f64_value (Finite m e) = Some (of_int m * 2 powr of_int e)"
  by (simp add: two_powr_int)

lemma two_powr_add: "2 powr real_of_int (a + b) = 2 powr real_of_int a * 2 powr real_of_int b"
  by (simp add: powr_add)

lemma two_powr_nat: "2 powr real_of_int (int k) = 2 ^ k"
  by (simp add: powr_realpow)

lemma bitlen_half:
  assumes "even m" and "m \<noteq> 0"
  shows "bitlen \<bar>m div 2\<bar> + 1 = bitlen \<bar>m\<bar>"
proof -
  from assms obtain j where j: "m = 2 * j" by (auto elim: evenE)
  with assms have "j \<noteq> 0" by simp
  then have "bitlen (\<bar>j\<bar> * 2 ^ 1) = bitlen \<bar>j\<bar> + 1" by (subst bitlen_pow2) simp_all
  then show ?thesis by (simp add: j abs_mult mult.commute)
qed

lemma normalize_spec:
  "\<exists>m' e'. normalize m e = Finite m' e' \<and>
     real_of_int m' * 2 powr of_int e' = of_int m * 2 powr of_int e \<and>
     (if m = 0 then m' = 0 \<and> e' = 0
      else odd m' \<and> e \<le> e' \<and> bitlen \<bar>m'\<bar> + e' = bitlen \<bar>m\<bar> + e)"
proof (induction m e rule: normalize.induct)
  case (1 m e)
  show ?case
  proof (cases "m = 0")
    case True
    then show ?thesis by (subst normalize.simps) simp
  next
    case nz: False
    show ?thesis
    proof (cases "even m")
      case True
      from nz True have half: "m div 2 \<noteq> 0" by (auto elim: evenE)
      from "1.IH" [OF nz True] half obtain m' e' where
        n: "normalize (m div 2) (e + 1) = Finite m' e'"
        and v: "real_of_int m' * 2 powr of_int e' = of_int (m div 2) * 2 powr of_int (e + 1)"
        and c: "odd m'" "e + 1 \<le> e'" "bitlen \<bar>m'\<bar> + e' = bitlen \<bar>m div 2\<bar> + (e + 1)"
        by auto
      from True have "real_of_int m = 2 * real_of_int (m div 2)"
        by (metis even_two_times_div_two of_int_mult of_int_numeral)
      then have "real_of_int (m div 2) * 2 powr of_int (e + 1) = of_int m * 2 powr of_int e"
        by (simp add: powr_add)
      moreover have "normalize m e = Finite m' e'"
        using nz True n by (subst normalize.simps) simp
      moreover have "bitlen \<bar>m'\<bar> + e' = bitlen \<bar>m\<bar> + e"
        using c(3) bitlen_half [OF True nz] by simp
      ultimately show ?thesis using v c nz by auto
    next
      case False
      with nz show ?thesis by (subst normalize.simps) simp
    qed
  qed
qed

lemma round_shift_error: "2 * \<bar>round_shift m k * 2 ^ k - m\<bar> \<le> 2 ^ k"
proof -
  define q where "q = m div 2 ^ k"
  define r where "r = m mod 2 ^ k"
  have m: "m = q * 2 ^ k + r" unfolding q_def r_def by (rule div_mult_mod_eq [symmetric])
  have r: "0 \<le> r" "r < 2 ^ k" by (simp_all add: r_def)
  show ?thesis
    unfolding round_shift_def Let_def q_def [symmetric] r_def [symmetric]
    using r by (auto simp: m algebra_simps)
qed

lemma round_shift_bound:
  assumes "\<bar>m\<bar> < 2 ^ n" and "k \<le> n"
  shows "\<bar>round_shift m k\<bar> \<le> 2 ^ (n - k)"
proof -
  let ?r = "round_shift m k"
  have err: "2 * \<bar>?r * 2 ^ k - m\<bar> \<le> 2 ^ k" by (rule round_shift_error)
  have "\<bar>?r\<bar> * 2 ^ k = \<bar>?r * 2 ^ k\<bar>" by (simp add: abs_mult)
  also have "\<dots> \<le> \<bar>?r * 2 ^ k - m\<bar> + \<bar>m\<bar>" by simp
  finally have "2 * (\<bar>?r\<bar> * 2 ^ k) \<le> 2 ^ k + 2 * \<bar>m\<bar>" using err by simp
  also have "\<dots> < 2 ^ k + 2 * 2 ^ n" using assms(1) by simp
  also have "(2 :: int) ^ n = 2 ^ (n - k) * 2 ^ k"
    using assms(2) by (simp add: power_add [symmetric])
  finally have "(2 * \<bar>?r\<bar>) * 2 ^ k < (1 + 2 * 2 ^ (n - k)) * 2 ^ k"
    by (simp add: algebra_simps)
  then have "2 * \<bar>?r\<bar> < 1 + 2 * 2 ^ (n - k)"
    by (simp only: mult_less_cancel_right_pos [OF zero_less_power [OF zero_less_numeral]])
  then show ?thesis by simp
qed

lemma round_shift_small:
  assumes "\<bar>m\<bar> < 2 ^ n" and "n \<le> k"
  shows "\<bar>round_shift m k\<bar> \<le> 1"
proof -
  have "(2 :: int) ^ n \<le> 2 ^ k" using assms(2) by (intro power_increasing) simp_all
  with assms(1) have "\<bar>m\<bar> < 2 ^ k" by (rule less_le_trans)
  from round_shift_bound [OF this order_refl] show ?thesis by simp
qed

lemma bitlen_le_53:
  assumes "\<bar>a\<bar> \<le> 2 ^ 53" and "odd a"
  shows "bitlen \<bar>a\<bar> \<le> 53"
proof -
  have "even (2 ^ 53 :: int)" by simp
  with assms(2) have "a \<noteq> 2 ^ 53" "- a \<noteq> 2 ^ 53"
    by (metis, metis even_minus)
  then have "\<bar>a\<bar> \<noteq> 2 ^ 53" by (simp add: abs_if)
  with assms(1) have "\<bar>a\<bar> < 2 ^ 53" by simp
  then show ?thesis by (simp add: bitlen_le_iff_power)
qed

lemma abs_less_bitlen: "\<bar>m\<bar> < 2 ^ nat (bitlen \<bar>m\<bar>)"
proof (cases "m = 0")
  case True
  then show ?thesis by simp
next
  case False
  then have "0 < \<bar>m\<bar>" by simp
  from bitlen_bounds [OF this] show ?thesis by simp
qed

lemma rounded_mantissa_bound:
  fixes m e :: int
  defines "q \<equiv> max (bitlen \<bar>m\<bar> + e - 53) (- 1074)"
  defines "m1 \<equiv> (if q \<le> e then m else round_shift m (nat (q - e)))"
  shows "\<bar>m1\<bar> \<le> 2 ^ 53"
proof (cases "q \<le> e")
  case True
  then have "bitlen \<bar>m\<bar> \<le> 53" by (simp add: q_def)
  then have "nat (bitlen \<bar>m\<bar>) \<le> 53" by simp
  then have "(2 :: int) ^ nat (bitlen \<bar>m\<bar>) \<le> 2 ^ 53" by (intro power_increasing) simp_all
  with abs_less_bitlen [of m] True show ?thesis by (simp add: m1_def)
next
  case False
  define k where "k = nat (q - e)"
  define n where "n = nat (bitlen \<bar>m\<bar>)"
  have lt: "\<bar>m\<bar> < 2 ^ n" unfolding n_def by (rule abs_less_bitlen)
  have m1: "m1 = round_shift m k" using False by (simp add: m1_def k_def)
  show ?thesis
  proof (cases "k \<le> n")
    case True
    have "bitlen \<bar>m\<bar> + e - 53 \<le> q" by (simp add: q_def)
    with False have "n - k \<le> 53" using bitlen_nonneg [of "\<bar>m\<bar>"] by (simp add: n_def k_def)
    then have "(2 :: int) ^ (n - k) \<le> 2 ^ 53" by (intro power_increasing) simp_all
    with round_shift_bound [OF lt True] show ?thesis by (simp add: m1)
  next
    case False
    then have "n \<le> k" by simp
    from round_shift_small [OF lt this] show ?thesis by (simp add: m1)
  qed
qed

lemma normalize_int:
  "m \<noteq> 0 \<Longrightarrow> \<exists>m' j. normalize m e = Finite m' (e + int j) \<and> m = m' * 2 ^ j \<and> odd m'"
proof (induction m e rule: normalize.induct)
  case (1 m e)
  show ?case
  proof (cases "even m")
    case True
    with "1.prems" have half: "m div 2 \<noteq> 0" by (auto elim: evenE)
    from "1.IH" [OF "1.prems" True half] obtain m' j where
      n: "normalize (m div 2) (e + 1) = Finite m' (e + 1 + int j)"
      and v: "m div 2 = m' * 2 ^ j" and o: "odd m'" by blast
    have "normalize m e = Finite m' (e + int (Suc j))"
      using "1.prems" True n by (subst normalize.simps) (simp add: add.assoc)
    moreover have "m = m' * 2 ^ Suc j"
    proof -
      from True have "m = 2 * (m div 2)" by simp
      also have "\<dots> = 2 * (m' * 2 ^ j)" by (simp only: v)
      finally show ?thesis by simp
    qed
    ultimately show ?thesis using o by blast
  next
    case False
    then have "normalize m e = Finite m (e + int 0)" "m = m * 2 ^ 0"
      using "1.prems" by (subst normalize.simps, simp_all)
    with False show ?thesis by blast
  qed
qed

lemma round64_is_double:
  assumes "round64 m e = Finite m' e'"
  shows "is_double (Finite m' e')"
proof -
  define q where "q = max (bitlen \<bar>m\<bar> + e - 53) (- 1074)"
  define m1 where "m1 = (if q \<le> e then m else round_shift m (nat (q - e)))"
  define e1 where "e1 = max q e"
  have r: "round64 m e =
      (if m1 \<noteq> 0 \<and> bitlen \<bar>m1\<bar> + e1 > 1024 then (if m < 0 then NInf else PInf)
       else normalize m1 e1)"
    unfolding round64_def Let_def q_def m1_def e1_def ..
  have bound: "\<bar>m1\<bar> \<le> 2 ^ 53"
    unfolding m1_def q_def by (rule rounded_mantissa_bound)
  have e1: "- 1074 \<le> e1" by (simp add: e1_def q_def)
  show ?thesis
  proof (cases "m1 = 0")
    case True
    with assms r show ?thesis by (simp add: normalize_zero)
  next
    case False
    from assms have rr: "(if m1 \<noteq> 0 \<and> bitlen \<bar>m1\<bar> + e1 > 1024 then (if m < 0 then NInf else PInf)
       else normalize m1 e1) = Finite m' e'" by (simp only: r)
    have fit: "bitlen \<bar>m1\<bar> + e1 \<le> 1024"
    proof (rule ccontr)
      assume "\<not> bitlen \<bar>m1\<bar> + e1 \<le> 1024"
      with False rr show False by (cases "m < 0") simp_all
    qed
    with rr have n: "normalize m1 e1 = Finite m' e'" by simp
    from normalize_int [OF False, of e1] obtain m2 j where
      nj: "normalize m1 e1 = Finite m2 (e1 + int j)" "m1 = m2 * 2 ^ j" "odd m2" by blast
    from nj(1) n have "m2 = m'" "e' = e1 + int j" by simp_all
    with nj have j: "e' = e1 + int j" "m1 = m' * 2 ^ j" "odd m'" by simp_all
    from j(3) have nz: "m' \<noteq> 0" by (cases "m' = 0") simp_all
    have "\<bar>m'\<bar> \<le> \<bar>m'\<bar> * 2 ^ j" by (simp add: mult_le_cancel_left1)
    also have "\<dots> = \<bar>m1\<bar>" by (simp add: j(2) abs_mult)
    finally have "\<bar>m'\<bar> \<le> 2 ^ 53" using bound by simp
    then have b53: "bitlen \<bar>m'\<bar> \<le> 53" using j(3) by (rule bitlen_le_53)
    have "bitlen \<bar>m1\<bar> = bitlen \<bar>m'\<bar> + int j"
      using nz by (simp add: j(2) abs_mult)
    with fit j(1) have "bitlen \<bar>m'\<bar> + e' \<le> 1024" by simp
    moreover from e1 j(1) have "- 1074 \<le> e'" by simp
    ultimately show ?thesis using b53 j(3) nz by simp
  qed
qed

lemma normalize_value:
  assumes "normalize m e = Finite m' e'"
  shows "real_of_int m' * 2 powr of_int e' = of_int m * 2 powr of_int e"
proof (cases "m = 0")
  case True
  with assms show ?thesis by (simp add: normalize_zero)
next
  case False
  from normalize_int [OF False, of e] obtain m2 j where
    nj: "normalize m e = Finite m2 (e + int j)" "m = m2 * 2 ^ j" by blast
  from nj(1) assms have eq: "m2 = m'" "e' = e + int j" by simp_all
  have "real_of_int m = of_int m' * 2 ^ j" by (simp add: nj(2) eq(1))
  moreover have "2 powr real_of_int (e + int j) = 2 powr of_int e * 2 ^ j"
    by (simp add: powr_add powr_realpow)
  ultimately show ?thesis by (simp add: eq(2))
qed

lemma round64_error:
  assumes "round64 m e = Finite m' e'"
  shows "2 * \<bar>real_of_int m' * 2 powr of_int e' - of_int m * 2 powr of_int e\<bar>
           \<le> 2 powr of_int (max (bitlen \<bar>m\<bar> + e - 53) (- 1074))"
proof -
  define q where "q = max (bitlen \<bar>m\<bar> + e - 53) (- 1074)"
  define m1 where "m1 = (if q \<le> e then m else round_shift m (nat (q - e)))"
  define e1 where "e1 = max q e"
  have r: "round64 m e =
      (if m1 \<noteq> 0 \<and> bitlen \<bar>m1\<bar> + e1 > 1024 then (if m < 0 then NInf else PInf)
       else normalize m1 e1)"
    unfolding round64_def Let_def q_def m1_def e1_def ..
  from assms have rr: "(if m1 \<noteq> 0 \<and> bitlen \<bar>m1\<bar> + e1 > 1024 then (if m < 0 then NInf else PInf)
       else normalize m1 e1) = Finite m' e'" by (simp only: r)
  have n: "normalize m1 e1 = Finite m' e'"
  proof (cases "m1 \<noteq> 0 \<and> bitlen \<bar>m1\<bar> + e1 > 1024")
    case True
    with rr show ?thesis by (cases "m < 0") simp_all
  next
    case False
    with rr show ?thesis by simp
  qed
  then have v: "real_of_int m' * 2 powr of_int e' = of_int m1 * 2 powr of_int e1"
    by (rule normalize_value)
  show ?thesis
  proof (cases "q \<le> e")
    case True
    then have "m1 = m" "e1 = e" by (simp_all add: m1_def e1_def)
    with v show ?thesis by (simp add: q_def [symmetric])
  next
    case False
    define k where "k = nat (q - e)"
    from False have qk: "q = e + int k" and m1: "m1 = round_shift m k" and e1: "e1 = q"
      by (simp_all add: k_def m1_def e1_def)
    have p: "2 powr real_of_int q = 2 powr of_int e * 2 ^ k"
      by (simp add: qk powr_add powr_realpow)
    have "2 * \<bar>m1 * 2 ^ k - m\<bar> \<le> 2 ^ k" unfolding m1 by (rule round_shift_error)
    then have "real_of_int (2 * \<bar>m1 * 2 ^ k - m\<bar>) \<le> real_of_int (2 ^ k)"
      by (simp only: of_int_le_iff)
    then have i: "2 * \<bar>real_of_int m1 * 2 ^ k - of_int m\<bar> \<le> 2 ^ k" by simp
    have "real_of_int m' * 2 powr of_int e' - of_int m * 2 powr of_int e =
        (real_of_int m1 * 2 ^ k - of_int m) * 2 powr of_int e"
      by (simp add: v e1 p algebra_simps)
    then have "2 * \<bar>real_of_int m' * 2 powr of_int e' - of_int m * 2 powr of_int e\<bar> =
        (2 * \<bar>real_of_int m1 * 2 ^ k - of_int m\<bar>) * 2 powr of_int e"
      by (simp add: abs_mult)
    also have "\<dots> \<le> 2 ^ k * 2 powr of_int e"
      using i by (intro mult_right_mono) simp_all
    also have "\<dots> = 2 powr real_of_int q" by (simp add: p)
    finally show ?thesis by (simp add: q_def)
  qed
qed

subsection \<open>Integers below \<open>2\<^sup>5\<^sup>3\<close>\<close>

text \<open>
  An integer of magnitude below \<open>2\<^sup>5\<^sup>3\<close> is a number of the format, and a sum, a
  difference or a product of two such integers that is again below \<open>2\<^sup>5\<^sup>3\<close> is computed
  without rounding, as is the comparison with zero. On integers within this range the
  order of the additions of a dot product and the use of a fused multiply-add make no
  difference.
\<close>

lemma bitlen_small: "\<bar>x\<bar> < 2 ^ 53 \<Longrightarrow> bitlen \<bar>x :: int\<bar> \<le> 53"
  using bitlen_le_iff_power [of "\<bar>x\<bar>" 53] by simp

lemma odd_decomposition:
  fixes n :: int
  assumes "n \<noteq> 0"
  shows "\<exists>m i. odd m \<and> n = m * 2 ^ i"
  using normalize_int [OF assms, of 0] by blast

lemma round64_pow2:
  assumes "odd m" and "\<bar>m * 2 ^ (i + k)\<bar> < 2 ^ 53"
  shows "round64 (m * 2 ^ i) (int k) = Finite m (int (i + k))"
proof -
  from assms(1) have "m \<noteq> 0" by (cases "m = 0") simp_all
  then have pos: "0 < \<bar>m\<bar>" by simp
  have "bitlen \<bar>m * 2 ^ (i + k)\<bar> = bitlen \<bar>m\<bar> + int (i + k)"
    using pos by (simp add: abs_mult)
  with bitlen_small [OF assms(2)] have b: "bitlen \<bar>m\<bar> + int (i + k) \<le> 53" by simp
  have nn: "0 \<le> bitlen \<bar>m\<bar>" by (rule bitlen_nonneg)
  have "round64 (m * 2 ^ i) (int (i + k) - int i) = Finite m (int (i + k))"
    using assms(1) b nn by (intro round64_exact) simp_all
  then show ?thesis by simp
qed

lemma f64_of_int_odd:
  assumes "odd m" and "\<bar>m * 2 ^ i\<bar> < 2 ^ 53"
  shows "f64_of_int (m * 2 ^ i) = Finite m (int i)"
  using round64_pow2 [OF assms(1), of i 0] assms(2) by (simp add: f64_of_int_def)

lemma round64_int_shift:
  assumes "\<bar>s * 2 ^ k\<bar> < 2 ^ 53"
  shows "round64 s (int k) = f64_of_int (s * 2 ^ k)"
proof (cases "s = 0")
  case True
  then show ?thesis by (simp add: round64_zero f64_of_int_def)
next
  case False
  from odd_decomposition [OF this] obtain m i where m: "odd m" and s: "s = m * 2 ^ i" by blast
  from assms have b: "\<bar>m * 2 ^ (i + k)\<bar> < 2 ^ 53" by (simp add: s power_add mult.assoc)
  have "round64 s (int k) = Finite m (int (i + k))"
    unfolding s using m b by (rule round64_pow2)
  moreover have "f64_of_int (m * 2 ^ (i + k)) = Finite m (int (i + k))"
    using m b by (rule f64_of_int_odd)
  ultimately show ?thesis by (simp add: s power_add mult.assoc)
qed

lemma f64_of_int_repr:
  assumes "\<bar>n\<bar> < 2 ^ 53"
  shows "\<exists>m i. f64_of_int n = Finite m (int i) \<and> n = m * 2 ^ i \<and> (n \<noteq> 0 \<longrightarrow> odd m)"
proof (cases "n = 0")
  case True
  then have "f64_of_int n = Finite 0 (int 0) \<and> n = 0 * 2 ^ 0" by (simp add: f64_of_int_def round64_zero)
  with True show ?thesis by blast
next
  case False
  from odd_decomposition [OF this] obtain m i where m: "odd m" and n: "n = m * 2 ^ i" by blast
  from f64_of_int_odd [OF m] assms have "f64_of_int n = Finite m (int i)" by (simp add: n)
  with m n show ?thesis by blast
qed

lemma f64_of_int_0 [simp]: "f64_of_int 0 = 0"
  by (simp add: f64_of_int_def round64_zero zero_float64_def)

lemma f64_of_int_1 [simp]: "f64_of_int 1 = 1"
  using f64_of_int_odd [of 1 0] by (simp add: one_float64_def)

lemma f64_add_int:
  assumes "\<bar>a\<bar> < 2 ^ 53" and "\<bar>b\<bar> < 2 ^ 53" and "\<bar>a + b\<bar> < 2 ^ 53"
  shows "f64_of_int a + f64_of_int b = f64_of_int (a + b)"
proof -
  from f64_of_int_repr [OF assms(1)] obtain m1 i1
    where a: "f64_of_int a = Finite m1 (int i1)" "a = m1 * 2 ^ i1" by blast
  from f64_of_int_repr [OF assms(2)] obtain m2 i2
    where b: "f64_of_int b = Finite m2 (int i2)" "b = m2 * 2 ^ i2" by blast
  define k where "k = min i1 i2"
  define s where "s = m1 * 2 ^ (i1 - k) + m2 * 2 ^ (i2 - k)"
  have e: "min (int i1) (int i2) = int k" by (simp add: k_def)
  have n1: "nat (int i1 - int k) = i1 - k" and n2: "nat (int i2 - int k) = i2 - k"
    by simp_all
  have le: "k \<le> i1" "k \<le> i2" by (simp_all add: k_def)
  have p1: "(2 :: int) ^ (i1 - k) * 2 ^ k = 2 ^ i1" using le(1) by (simp flip: power_add)
  have p2: "(2 :: int) ^ (i2 - k) * 2 ^ k = 2 ^ i2" using le(2) by (simp flip: power_add)
  have sum: "s * 2 ^ k = a + b"
    by (simp add: s_def a(2) b(2) distrib_right mult.assoc p1 p2)
  have "f64_of_int a + f64_of_int b = round64 s (int k)"
    by (simp add: a(1) b(1) plus_float64_def Let_def e n1 n2 s_def)
  also have "\<dots> = f64_of_int (s * 2 ^ k)"
    using assms(3) by (intro round64_int_shift) (simp add: sum)
  finally show ?thesis by (simp add: sum)
qed

lemma f64_mul_int:
  assumes "\<bar>a\<bar> < 2 ^ 53" and "\<bar>b\<bar> < 2 ^ 53" and "\<bar>a * b\<bar> < 2 ^ 53"
  shows "f64_of_int a * f64_of_int b = f64_of_int (a * b)"
proof -
  from f64_of_int_repr [OF assms(1)] obtain m1 i1
    where a: "f64_of_int a = Finite m1 (int i1)" "a = m1 * 2 ^ i1" by blast
  from f64_of_int_repr [OF assms(2)] obtain m2 i2
    where b: "f64_of_int b = Finite m2 (int i2)" "b = m2 * 2 ^ i2" by blast
  have prod: "(m1 * m2) * 2 ^ (i1 + i2) = a * b"
    by (simp add: a(2) b(2) power_add mult.assoc mult.left_commute)
  have "f64_of_int a * f64_of_int b = round64 (m1 * m2) (int (i1 + i2))"
    by (simp add: a(1) b(1) times_float64_def)
  also have "\<dots> = f64_of_int ((m1 * m2) * 2 ^ (i1 + i2))"
    using assms(3) by (intro round64_int_shift) (simp only: prod)
  finally show ?thesis by (simp only: prod)
qed

lemma f64_neg_int:
  assumes "\<bar>a\<bar> < 2 ^ 53"
  shows "f64_neg (f64_of_int a) = f64_of_int (- a)"
proof (cases "a = 0")
  case True
  then show ?thesis by (simp add: zero_float64_def)
next
  case False
  from odd_decomposition [OF this] obtain m i where m: "odd m" and a: "a = m * 2 ^ i" by blast
  from f64_of_int_odd [OF m] assms have "f64_of_int a = Finite m (int i)" by (simp add: a)
  moreover have "f64_of_int ((- m) * 2 ^ i) = Finite (- m) (int i)"
    using m assms by (intro f64_of_int_odd) (simp_all add: a)
  ultimately show ?thesis by (simp add: a)
qed

lemma f64_sub_int:
  assumes "\<bar>a\<bar> < 2 ^ 53" and "\<bar>b\<bar> < 2 ^ 53" and "\<bar>a - b\<bar> < 2 ^ 53"
  shows "f64_of_int a - f64_of_int b = f64_of_int (a - b)"
proof -
  have "f64_of_int a - f64_of_int b = f64_of_int a + f64_of_int (- b)"
    using assms(2) by (simp add: minus_float64_def plus_float64_def f64_neg_int)
  also have "\<dots> = f64_of_int (a + (- b))"
    using assms by (intro f64_add_int) simp_all
  finally show ?thesis by simp
qed

lemma f64_nonneg_int:
  assumes "\<bar>a\<bar> < 2 ^ 53"
  shows "0 \<le> f64_of_int a \<longleftrightarrow> 0 \<le> a"
proof -
  from f64_of_int_repr [OF assms] obtain m i
    where a: "f64_of_int a = Finite m (int i)" "a = m * 2 ^ i" by blast
  have "0 \<le> m * 2 ^ i \<longleftrightarrow> 0 \<le> m" by (simp add: zero_le_mult_iff)
  moreover have "0 \<le> f64_of_int a \<longleftrightarrow> 0 \<le> m * 2 ^ i"
    unfolding a(1) by (simp add: less_eq_float64_def zero_float64_def Let_def)
  ultimately show ?thesis by (simp add: a(2))
qed

lemma f64_of_int_eq_0:
  assumes "\<bar>a\<bar> < 2 ^ 53"
  shows "f64_of_int a = 0 \<longleftrightarrow> a = 0"
proof (cases "a = 0")
  case True
  then show ?thesis by simp
next
  case False
  from f64_of_int_repr [OF assms] False obtain m i
    where "f64_of_int a = Finite m (int i)" "odd m" by blast
  with False show ?thesis by (auto simp: zero_float64_def)
qed

section \<open>Prediction\<close>

subsection \<open>Dot products of integers\<close>

lemma foldl_plus_sum:
  fixes a :: int
  assumes "length x = length w"
  shows "foldl (+) a (map2 (*) x w) = a + (\<Sum>i<length w. w ! i * x ! i)"
  using assms
  by (induction x w arbitrary: a rule: list_induct2)
     (simp_all add: sum.lessThan_Suc_shift mult.commute del: sum.lessThan_Suc)

lemma sum_abs_products:
  fixes x w :: "int list"
  assumes "length x = length w"
  shows "sum_list (map2 (\<lambda>a b. \<bar>a * b\<bar>) x w) = (\<Sum>i<length w. \<bar>w ! i * x ! i\<bar>)"
  using assms
  by (induction x w rule: list_induct2)
     (simp_all add: sum.lessThan_Suc_shift mult.commute del: sum.lessThan_Suc)

lemma sum_abs_products_nonneg:
  fixes x w :: "int list"
  shows "0 \<le> sum_list (map2 (\<lambda>a b. \<bar>a * b\<bar>) x w)"
  by (rule sum_list_nonneg) auto

lemma abs_foldl_products:
  fixes x w :: "int list"
  shows "\<bar>foldl (+) s (map2 (*) x w)\<bar> \<le> \<bar>s\<bar> + sum_list (map2 (\<lambda>a b. \<bar>a * b\<bar>) x w)"
proof (induction x arbitrary: w s)
  case Nil
  then show ?case by simp
next
  case (Cons a x)
  show ?case
  proof (cases w)
    case Nil
    then show ?thesis by simp
  next
    case (Cons b w')
    have "\<bar>foldl (+) (s + a * b) (map2 (*) x w')\<bar>
        \<le> \<bar>s + a * b\<bar> + sum_list (map2 (\<lambda>a b. \<bar>a * b\<bar>) x w')"
      by (rule Cons.IH)
    also have "\<bar>s + a * b\<bar> \<le> \<bar>s\<bar> + \<bar>a * b\<bar>" by (rule abs_triangle_ineq)
    finally show ?thesis by (simp add: Cons)
  qed
qed

lemma f64_foldl_exact:
  assumes "length x = length w"
    and "list_all (\<lambda>a. \<bar>a\<bar> < 2 ^ 53) x" and "list_all (\<lambda>a. \<bar>a\<bar> < 2 ^ 53) w"
    and "\<bar>s\<bar> + sum_list (map2 (\<lambda>a b. \<bar>a * b\<bar>) x w) < 2 ^ 53"
  shows "foldl (+) (f64_of_int s) (map2 (*) (map f64_of_int x) (map f64_of_int w)) =
         f64_of_int (foldl (+) s (map2 (*) x w))"
  using assms
proof (induction x w arbitrary: s rule: list_induct2)
  case Nil
  then show ?case by simp
next
  case (Cons a x b w)
  let ?rest = "sum_list (map2 (\<lambda>a b. \<bar>a * b\<bar>) x w)"
  have rest: "0 \<le> ?rest" by (rule sum_abs_products_nonneg)
  from Cons.prems have a: "\<bar>a\<bar> < 2 ^ 53" and b: "\<bar>b\<bar> < 2 ^ 53"
    and bound: "\<bar>s\<bar> + (\<bar>a * b\<bar> + ?rest) < 2 ^ 53" by simp_all
  from bound rest have s: "\<bar>s\<bar> < 2 ^ 53" and ab: "\<bar>a * b\<bar> < 2 ^ 53" by linarith+
  have "\<bar>s + a * b\<bar> \<le> \<bar>s\<bar> + \<bar>a * b\<bar>" by (rule abs_triangle_ineq)
  with bound rest have sab: "\<bar>s + a * b\<bar> < 2 ^ 53"
    and next_bound: "\<bar>s + a * b\<bar> + ?rest < 2 ^ 53" by linarith+
  have "f64_of_int s + f64_of_int a * f64_of_int b = f64_of_int (s + a * b)"
    using a b ab s sab by (simp add: f64_mul_int f64_add_int)
  moreover from Cons.prems
  have "foldl (+) (f64_of_int (s + a * b)) (map2 (*) (map f64_of_int x) (map f64_of_int w)) =
        f64_of_int (foldl (+) (s + a * b) (map2 (*) x w))"
    using next_bound by (intro Cons.IH) simp_all
  ultimately show ?case by simp
qed

lemma f64_activation_exact:
  assumes "length x = length w"
    and "list_all (\<lambda>a. \<bar>a\<bar> < 2 ^ 53) x" and "list_all (\<lambda>a. \<bar>a\<bar> < 2 ^ 53) w"
    and "sum_list (map2 (\<lambda>a b. \<bar>a * b\<bar>) x w) + \<bar>b\<bar> < 2 ^ 53"
  shows "activation_function
           (foldl (+) 0 (map2 (*) (map f64_of_int x) (map f64_of_int w)) + f64_of_int b) =
         f64_of_int (activation_function (foldl (+) 0 (map2 (*) x w) + b))"
proof -
  let ?d = "foldl (+) 0 (map2 (*) x w)"
  let ?T = "sum_list (map2 (\<lambda>a b. \<bar>a * b\<bar>) x w)"
  have T: "0 \<le> ?T" by (rule sum_abs_products_nonneg)
  have d: "\<bar>?d\<bar> \<le> ?T" using abs_foldl_products [of 0 x w] by simp
  have "\<bar>?d + b\<bar> \<le> \<bar>?d\<bar> + \<bar>b\<bar>" by (rule abs_triangle_ineq)
  with d T assms(4) have small: "\<bar>?d\<bar> < 2 ^ 53" "\<bar>b\<bar> < 2 ^ 53" "\<bar>?d + b\<bar> < 2 ^ 53"
    by linarith+
  have "foldl (+) (f64_of_int 0) (map2 (*) (map f64_of_int x) (map f64_of_int w)) = f64_of_int ?d"
    using assms(1-3) T assms(4) by (intro f64_foldl_exact) simp_all
  then have dot: "foldl (+) 0 (map2 (*) (map f64_of_int x) (map f64_of_int w)) = f64_of_int ?d"
    by simp
  have sum: "f64_of_int ?d + f64_of_int b = f64_of_int (?d + b)"
    using small by (rule f64_add_int)
  have "activation_function (f64_of_int (?d + b)) = f64_of_int (activation_function (?d + b))"
    using f64_nonneg_int [OF small(3)] by (simp add: activation_function_def)
  with dot sum show ?thesis by simp
qed

lemma f64_predict_exact:
  assumes "length x = length w"
    and "list_all (\<lambda>a. \<bar>a\<bar> < 2 ^ 53) x" and "list_all (\<lambda>a. \<bar>a\<bar> < 2 ^ 53) w"
    and "sum_list (map2 (\<lambda>a b. \<bar>a * b\<bar>) x w) + \<bar>b\<bar> < 2 ^ 53"
  shows "predict \<lparr>weights = map f64_of_int w, bias = f64_of_int b, learning_rate = lr\<rparr>
           (map f64_of_int x) =
         (Inr (f64_of_int (activation_function (foldl (+) 0 (map2 (*) x w) + b))),
          \<lparr>weights = map f64_of_int w, bias = f64_of_int b, learning_rate = lr\<rparr>)"
  using f64_activation_exact [OF assms] assms(1) by (simp add: predict_match)




section \<open>Convergence in the arithmetic of the program\<close>

subsection \<open>Units and datasets of integers\<close>

lemma zip_map_data: "zip (map (map h) xs) (map h ys) = map_data h (zip xs ys)"
  by (simp add: map_data_def zip_map_map)

lemma map_data_Nil [simp]: "map_data h [] = []"
  by (simp add: map_data_def)

lemma map_data_Cons [simp]: "map_data h ((x, y) # L) = (map h x, h y) # map_data h L"
  by (simp add: map_data_def)

lemma map_data_concat_replicate:
  "map_data h (concat (replicate k ds)) = concat (replicate k (map_data h ds))"
  by (simp add: map_data_def map_concat)

lemma map_unit_fields [simp]:
  "weights (map_unit h self) = map h (weights self)"
  "bias (map_unit h self) = h (bias self)"
  "learning_rate (map_unit h self) = h (learning_rate self)"
  by (simp_all add: map_unit_def)

lemma fits_map_data: "fits (map_unit h self) (map_data h L) = fits self L"
  by (induction L) (auto simp: fits_def)

lemma map2_map_hom:
  assumes "\<forall>(a, b) \<in> set (zip ws xs). f (h a) (h b) = h (g a b)"
  shows "map2 f (map h ws) (map h xs) = map h (map2 g ws xs)"
  using assms
proof (induction ws arbitrary: xs)
  case Nil
  then show ?case by simp
next
  case (Cons a ws)
  then show ?case by (cases xs) simp_all
qed

subsection \<open>One run in two arithmetics\<close>

text \<open>
  A run of the updates on integers and the same run after the conversion \<open>h\<close> agree, update
  by update and in the errors that are not zero, when \<open>h\<close> commutes with one update at
  every unit the run reaches.
\<close>

lemma simulation:
  fixes h :: "int \<Rightarrow> 'a::{zero,one,plus,minus,times,ord}"
  assumes "\<forall>Q x y. good Q \<and> (x, y) \<in> set L \<and> length x = length (weights Q) \<longrightarrow>
            update (map_unit h Q) (map h x, h y) = map_unit h (update Q (x, y)) \<and>
            ((h y - activation_function
                (foldl (+) 0 (map2 (*) (map h x) (map h (weights Q))) + h (bias Q)) \<noteq> 0) =
             (y - activation_function (foldl (+) 0 (map2 (*) x (weights Q)) + bias Q) \<noteq> 0))"
    and "\<forall>j\<le>length L. good (foldl update self (take j L))"
    and "fits self L"
  shows "foldl update (map_unit h self) (map_data h L) = map_unit h (foldl update self L) \<and>
         misclassified (map_unit h self) (map_data h L) = misclassified self L"
  using assms
proof (induction L arbitrary: self)
  case Nil
  then show ?case by (simp add: misclassified_def)
next
  case (Cons ex L)
  obtain x y where ex: "ex = (x, y)" by (cases ex)
  from Cons.prems(3) have len: "length x = length (weights self)" and rest: "fits self L"
    by (simp_all add: fits_def ex)
  from Cons.prems(2) have "good (foldl update self (take 0 (ex # L)))" by blast
  then have good: "good self" by simp
  from Cons.prems(1) good len
  have step: "update (map_unit h self) (map h x, h y) = map_unit h (update self (x, y))"
    and err: "(h y - activation_function
                (foldl (+) 0 (map2 (*) (map h x) (map h (weights self))) + h (bias self)) \<noteq> 0) =
             (y - activation_function (foldl (+) 0 (map2 (*) x (weights self)) + bias self) \<noteq> 0)"
    by (simp_all add: ex)
  let ?q = "update self (x, y)"
  have a: "\<forall>Q x y. good Q \<and> (x, y) \<in> set L \<and> length x = length (weights Q) \<longrightarrow>
            update (map_unit h Q) (map h x, h y) = map_unit h (update Q (x, y)) \<and>
            ((h y - activation_function
                (foldl (+) 0 (map2 (*) (map h x) (map h (weights Q))) + h (bias Q)) \<noteq> 0) =
             (y - activation_function (foldl (+) 0 (map2 (*) x (weights Q)) + bias Q) \<noteq> 0))"
    using Cons.prems(1) by simp
  have b: "\<forall>j\<le>length L. good (foldl update ?q (take j L))"
  proof (intro allI impI)
    fix j assume "j \<le> length L"
    then have "Suc j \<le> length (ex # L)" by simp
    with Cons.prems(2) have "good (foldl update self (take (Suc j) (ex # L)))" by blast
    then show "good (foldl update ?q (take j L))" by (simp add: ex)
  qed
  have c: "fits ?q L" using rest len by (simp add: fits_update)
  from Cons.IH [OF a b c]
  have IH: "foldl update (map_unit h ?q) (map_data h L) = map_unit h (foldl update ?q L)"
      "misclassified (map_unit h ?q) (map_data h L) = misclassified ?q L"
    by simp_all
  have len': "length (map h x) = length (weights (map_unit h self))" using len by simp
  show ?case
    using IH step err
    by (simp add: ex misclassified_Cons [OF len] misclassified_Cons [OF len'])
qed

subsection \<open>The reals follow the integers\<close>

lemma real_foldl:
  "foldl (+) (real_of_int s) (map2 (*) (map of_int x) (map of_int w)) =
   of_int (foldl (+) s (map2 (*) x w))"
proof (induction x arbitrary: w s)
  case Nil
  then show ?case by simp
next
  case (Cons a x)
  show ?case
  proof (cases w)
    case Nil
    then show ?thesis by simp
  next
    case (Cons b w')
    have "foldl (+) (real_of_int (s + a * b)) (map2 (*) (map of_int x) (map of_int w')) =
        of_int (foldl (+) (s + a * b) (map2 (*) x w'))"
      by (rule Cons.IH)
    then show ?thesis by (simp add: Cons)
  qed
qed

lemma real_activation:
  "activation_function
     (foldl (+) 0 (map2 (*) (map real_of_int x) (map of_int w)) + of_int b) =
   of_int (activation_function (foldl (+) 0 (map2 (*) x w) + b))"
  using real_foldl [of 0 x w] by (simp add: activation_function_def)

lemma real_update:
  "update (map_unit real_of_int Q) (map of_int x, of_int y) = map_unit of_int (update Q (x, y))"
proof -
  let ?e = "y - activation_function (foldl (+) 0 (map2 (*) x (weights Q)) + bias Q)"
  have "map2 (\<lambda>w xi. w + real_of_int (learning_rate Q) * real_of_int ?e * xi)
          (map of_int (weights Q)) (map of_int x) =
        map of_int (map2 (\<lambda>w xi. w + learning_rate Q * ?e * xi) (weights Q) x)"
    by (rule map2_map_hom) simp
  then show ?thesis
    by (simp add: update_def map_unit_def real_activation Let_def)
qed

lemma real_run:
  assumes "fits self L"
  shows "foldl update (map_unit real_of_int self) (map_data of_int L) =
           map_unit of_int (foldl update self L)"
    and "misclassified (map_unit real_of_int self) (map_data of_int L) = misclassified self L"
proof -
  have "\<forall>j\<le>length L. (\<lambda>Q. True) (foldl update self (take j L))" by simp
  with simulation [of "\<lambda>Q. True" L real_of_int self] assms
  have "foldl update (map_unit real_of_int self) (map_data of_int L) =
           map_unit of_int (foldl update self L) \<and>
        misclassified (map_unit real_of_int self) (map_data of_int L) = misclassified self L"
    by (simp add: real_update real_activation)
  then show "foldl update (map_unit real_of_int self) (map_data of_int L) =
           map_unit of_int (foldl update self L)"
    and "misclassified (map_unit real_of_int self) (map_data of_int L) = misclassified self L"
    by simp_all
qed

subsection \<open>Binary64 follows the integers while the numbers stay small\<close>

text \<open>
  One update on integers is computed without rounding when the inputs are at most \<open>X\<close>,
  the weights and the bias at most \<open>W\<close> and the learning rate at most \<open>Lr\<close> in magnitude
  and \<open>n * X * W + W + Lr * X + Lr < 2\<^sup>5\<^sup>3\<close>: this bounds the dot product with the bias and
  every new weight.
\<close>

lemma sum_abs_products_le:
  fixes x w :: "int list"
  assumes "list_all (\<lambda>a. \<bar>a\<bar> \<le> X) x" and "list_all (\<lambda>a. \<bar>a\<bar> \<le> W) w" and "0 \<le> X" and "0 \<le> W"
  shows "sum_list (map2 (\<lambda>a b. \<bar>a * b\<bar>) x w) \<le> int (length x) * (X * W)"
  using assms(1,2)
proof (induction x arbitrary: w)
  case Nil
  then show ?case by simp
next
  case (Cons a x)
  have nn: "0 \<le> int (length x) * (X * W)" using assms(3,4) by simp
  show ?case
  proof (cases w)
    case Nil
    with nn assms(3,4) show ?thesis by (simp add: distrib_right)
  next
    case (Cons b w')
    with Cons.prems have a: "\<bar>a\<bar> \<le> X" and b: "\<bar>b\<bar> \<le> W"
      and x: "list_all (\<lambda>a. \<bar>a\<bar> \<le> X) x" and w: "list_all (\<lambda>a. \<bar>a\<bar> \<le> W) w'" by simp_all
    have "\<bar>a * b\<bar> \<le> X * W" unfolding abs_mult using a b assms(3) by (intro mult_mono) simp_all
    moreover have "sum_list (map2 (\<lambda>a b. \<bar>a * b\<bar>) x w') \<le> int (length x) * (X * W)"
      using x w by (rule Cons.IH)
    ultimately show ?thesis by (simp add: Cons distrib_right)
  qed
qed

lemma f64_update_exact:
  assumes len: "length x = length (weights Q)"
    and xb: "list_all (\<lambda>a. \<bar>a\<bar> \<le> X) x" and Q: "bounded_by W Q" and y: "y = 0 \<or> y = 1"
    and lr: "\<bar>learning_rate Q\<bar> \<le> Lr"
    and nn: "0 \<le> X" "0 \<le> W" "1 \<le> Lr"
    and M: "int (length x) * (X * W) + W + Lr * X + Lr < 2 ^ 53"
  shows "update (map_unit f64_of_int Q) (map f64_of_int x, f64_of_int y) =
           map_unit f64_of_int (update Q (x, y)) \<and>
         ((f64_of_int y - activation_function
              (foldl (+) 0 (map2 (*) (map f64_of_int x) (map f64_of_int (weights Q))) +
               f64_of_int (bias Q)) \<noteq> 0) =
          (y - activation_function (foldl (+) 0 (map2 (*) x (weights Q)) + bias Q) \<noteq> 0))"
proof -
  let ?ws = "weights Q" and ?b = "bias Q" and ?l = "learning_rate Q"
  let ?a = "activation_function (foldl (+) 0 (map2 (*) x ?ws) + ?b)"
  let ?e = "y - ?a"
  let ?T = "sum_list (map2 (\<lambda>a b. \<bar>a * b\<bar>) x ?ws)"
  from Q have wb: "list_all (\<lambda>a. \<bar>a\<bar> \<le> W) ?ws" and bb: "\<bar>?b\<bar> \<le> W"
    by (simp_all add: bounded_by_def)
  have n0: "0 \<le> int (length x) * (X * W)" using nn by simp
  have LX: "0 \<le> Lr * X" using nn by simp
  have XLX: "X \<le> Lr * X" using nn mult_right_mono [of 1 Lr X] by simp
  have T: "?T \<le> int (length x) * (X * W)" using xb wb nn(1,2) by (rule sum_abs_products_le)
  have Xs: "X < 2 ^ 53" using XLX n0 nn M by linarith
  have Ws: "W < 2 ^ 53" using LX n0 nn M by linarith
  have xs: "list_all (\<lambda>a. \<bar>a\<bar> < 2 ^ 53) x"
    using xb Xs by (auto simp: list_all_iff)
  have ws: "list_all (\<lambda>a. \<bar>a\<bar> < 2 ^ 53) ?ws"
    using wb Ws by (auto simp: list_all_iff)
  have Tb: "?T + \<bar>?b\<bar> < 2 ^ 53" using T bb LX nn M by linarith
  have act: "activation_function
      (foldl (+) 0 (map2 (*) (map f64_of_int x) (map f64_of_int ?ws)) + f64_of_int ?b) =
      f64_of_int ?a"
    using len xs ws Tb by (rule f64_activation_exact)
  have a01: "?a = 0 \<or> ?a = 1" by (simp add: activation_function_def)
  with y have e: "\<bar>?e\<bar> \<le> 1" by auto
  have herr: "f64_of_int y - f64_of_int ?a = f64_of_int ?e"
    using y a01 by (intro f64_sub_int) auto
  have l: "\<bar>?l\<bar> < 2 ^ 53" using lr LX n0 nn M by linarith
  have le: "\<bar>?l * ?e\<bar> \<le> Lr"
  proof -
    have "\<bar>?l * ?e\<bar> = \<bar>?l\<bar> * \<bar>?e\<bar>" by (rule abs_mult)
    also have "\<dots> \<le> Lr * 1" using lr e nn by (intro mult_mono) simp_all
    finally show ?thesis by simp
  qed
  have hle: "f64_of_int ?l * f64_of_int ?e = f64_of_int (?l * ?e)"
    using l e le LX n0 nn M by (intro f64_mul_int) linarith+
  have les: "\<bar>?l * ?e\<bar> < 2 ^ 53" using le LX n0 nn M by linarith
  have hw: "map2 (\<lambda>w xi. w + f64_of_int (?l * ?e) * xi) (map f64_of_int ?ws) (map f64_of_int x) =
        map f64_of_int (map2 (\<lambda>w xi. w + ?l * ?e * xi) ?ws x)"
  proof (rule map2_map_hom, clarify)
    fix w xi
    assume mem: "(w, xi) \<in> set (zip ?ws x)"
    then have "w \<in> set ?ws" "xi \<in> set x" by (auto dest: set_zip_leftD set_zip_rightD)
    with wb xb have w: "\<bar>w\<bar> \<le> W" and xi: "\<bar>xi\<bar> \<le> X" by (auto simp: list_all_iff)
    have p: "\<bar>?l * ?e * xi\<bar> \<le> Lr * X"
    proof -
      have "\<bar>?l * ?e * xi\<bar> = \<bar>?l * ?e\<bar> * \<bar>xi\<bar>" by (rule abs_mult)
      also have "\<dots> \<le> Lr * X" using le xi nn by (intro mult_mono) simp_all
      finally show ?thesis .
    qed
    have s: "\<bar>w + ?l * ?e * xi\<bar> \<le> W + Lr * X"
      using abs_triangle_ineq [of w "?l * ?e * xi"] w p by linarith
    have "f64_of_int (?l * ?e) * f64_of_int xi = f64_of_int (?l * ?e * xi)"
      using les xi XLX p n0 nn M by (intro f64_mul_int) linarith+
    moreover have "f64_of_int w + f64_of_int (?l * ?e * xi) = f64_of_int (w + ?l * ?e * xi)"
      using w p s n0 nn M by (intro f64_add_int) linarith+
    ultimately show "f64_of_int w + f64_of_int (?l * ?e) * f64_of_int xi =
        f64_of_int (w + ?l * ?e * xi)" by simp
  qed
  have hb: "f64_of_int ?b + f64_of_int (?l * ?e) = f64_of_int (?b + ?l * ?e)"
  proof -
    have "\<bar>?b + ?l * ?e\<bar> \<le> W + Lr"
      using abs_triangle_ineq [of ?b "?l * ?e"] bb le by linarith
    then show ?thesis using bb les LX n0 nn M by (intro f64_add_int) linarith+
  qed
  have "update (map_unit f64_of_int Q) (map f64_of_int x, f64_of_int y) =
        map_unit f64_of_int (update Q (x, y))"
    by (simp add: update_def map_unit_def Let_def act herr hle hw hb)
  moreover have "(f64_of_int ?e \<noteq> 0) = (?e \<noteq> 0)"
    using e by (subst f64_of_int_eq_0) simp_all
  ultimately show ?thesis by (simp add: act herr)
qed

subsection \<open>The classical bounds for integer data\<close>

text \<open>
  A hyperplane \<open>(w, b)\<close> of integers that classifies every example has, doubled and
  shifted by one, \<open>(2 * w, 2 * b + 1)\<close>, every example on its right side by at least 1.
  The mistake bound of the classical argument then bounds, for every run on examples of
  the dataset, the squared length of the weights and bias reached, and with it every
  weight and the bias.
\<close>

lemma abs_le_square: "\<bar>a\<bar> \<le> a * (a :: int)"
proof (cases "a = 0")
  case True
  then show ?thesis by simp
next
  case False
  then have "1 \<le> \<bar>a\<bar>" by simp
  then have "\<bar>a\<bar> * 1 \<le> \<bar>a\<bar> * \<bar>a\<bar>" by (intro mult_left_mono) simp_all
  then show ?thesis by simp
qed

lemma squares_Nil [simp]: "squares [] = 0"
  by (simp add: squares_def)

lemma squares_Cons [simp]: "squares (a # x) = a * a + squares x"
  by (simp add: squares_def)

lemma squares_replicate_zero [simp]: "squares (replicate n 0) = 0"
  by (induction n) simp_all

lemma squares_nonneg: "0 \<le> squares x"
  by (induction x) simp_all

lemma squares_member: "a \<in> set x \<Longrightarrow> \<bar>a\<bar> \<le> squares x"
proof (induction x)
  case Nil
  then show ?case by simp
next
  case (Cons c x)
  show ?case
  proof (cases "a = c")
    case True
    with abs_le_square [of c] squares_nonneg [of x] show ?thesis by simp
  next
    case False
    with Cons have "\<bar>a\<bar> \<le> squares x" by simp
    then show ?thesis using zero_le_square [of c] unfolding squares_Cons by linarith
  qed
qed

lemma inner_of_int_self: "inner (map real_of_int x) (map of_int x) = of_int (squares x)"
  by (induction x) simp_all

lemma sqnorm_map_unit:
  "sqnorm (map_unit real_of_int Q) = of_int (squares (weights Q) + bias Q * bias Q)"
  by (simp add: sqnorm_def inner_of_int_self)

lemma inner_double: "inner (map real_of_int (map ((*) 2) w)) v = 2 * inner (map of_int w) v"
proof (induction w arbitrary: v)
  case Nil
  then show ?case by simp
next
  case (Cons a w)
  then show ?case by (cases v) (simp_all add: algebra_simps)
qed

lemma squares_double: "squares (map ((*) 2) w) = 4 * squares w"
  by (induction w) simp_all

lemma inner_double_self:
  "inner (map real_of_int (map ((*) 2) w)) (map real_of_int (map ((*) 2) w)) =
   of_int (4 * squares w)"
  by (simp only: inner_of_int_self squares_double)

lemma classifies_sides:
  assumes "classifies w b ds" and "(x, y) \<in> set ds"
  shows "length x = length w"
    and "y = activation_function (foldl (+) 0 (map2 (*) x w) + b)"
proof -
  from assms have p: "fst (predict \<lparr>weights = w, bias = b, learning_rate = 0\<rparr> x) = Inr y"
    by (auto simp: classifies_def list_all_iff)
  show len: "length x = length w"
  proof (rule ccontr)
    assume "length x \<noteq> length w"
    then have "predict \<lparr>weights = w, bias = b, learning_rate = 0\<rparr> x =
        (Inl ValueError, \<lparr>weights = w, bias = b, learning_rate = 0\<rparr>)"
      by (intro predict_mismatch) simp
    with p show False by simp
  qed
  with p show "y = activation_function (foldl (+) 0 (map2 (*) x w) + b)"
    by (simp add: predict_match)
qed

lemma map_data_mono: "set L \<subseteq> set ds \<Longrightarrow> set (map_data h L) \<subseteq> set (map_data h ds)"
  by (auto simp: map_data_def)

lemma classifies_margin:
  fixes w :: "int list"
  assumes "classifies w b ds"
  shows "margin (map of_int (map ((*) 2) w)) (of_int (2 * b + 1)) 1 (map_data of_int ds)"
  unfolding margin_def list_all_iff
proof (intro ballI)
  fix ex
  assume "ex \<in> set (map_data real_of_int ds)"
  then obtain x y where mem: "(x, y) \<in> set ds" and ex: "ex = (map of_int x, of_int y)"
    by (auto simp: map_data_def)
  let ?d = "foldl (+) 0 (map2 (*) x w)"
  from classifies_sides [OF assms mem]
  have len: "length x = length w" and y: "y = activation_function (?d + b)" by simp_all
  have d: "inner (map real_of_int x) (map of_int w) = of_int ?d"
    using real_foldl [of 0 x w] by (simp add: foldl_inner)
  have "inner (map real_of_int (map ((*) 2) w)) (map of_int x) =
      2 * inner (map real_of_int w) (map of_int x)" by (rule inner_double)
  also have "inner (map real_of_int w) (map of_int x) = inner (map real_of_int x) (map of_int w)"
    by (rule inner_commute)
  finally have "inner (map real_of_int (map ((*) 2) w)) (map of_int x) = 2 * of_int ?d"
    unfolding d .
  then have v: "inner (map real_of_int (map ((*) 2) w)) (map of_int x) + of_int (2 * b + 1) =
      of_int (2 * (?d + b) + 1)" by simp
  have side: "real_of_int y = 1 \<and> 1 \<le> real_of_int (2 * (?d + b) + 1) \<or>
      real_of_int y = 0 \<and> real_of_int (2 * (?d + b) + 1) \<le> - 1"
  proof (cases "0 \<le> ?d + b")
    case True
    then have "y = 1" by (simp add: y activation_function_def)
    moreover from True have "1 \<le> 2 * (?d + b) + 1" by simp
    then have "real_of_int 1 \<le> real_of_int (2 * (?d + b) + 1)" by (simp only: of_int_le_iff)
    ultimately show ?thesis by simp
  next
    case False
    then have "y = 0" by (simp add: y activation_function_def)
    moreover from False have "2 * (?d + b) + 1 \<le> - 1" by simp
    then have "real_of_int (2 * (?d + b) + 1) \<le> real_of_int (- 1)" by (simp only: of_int_le_iff)
    ultimately show ?thesis by simp
  qed
  show "case ex of (x, y) \<Rightarrow>
      length x = length (map real_of_int (map ((*) 2) w)) \<and>
      (y = 1 \<and> 1 \<le> inner (map real_of_int (map ((*) 2) w)) x + real_of_int (2 * b + 1) \<or>
       y = 0 \<and> inner (map real_of_int (map ((*) 2) w)) x + real_of_int (2 * b + 1) \<le> - 1)"
    unfolding ex prod.case v using len side by simp
qed

lemma data_radius:
  assumes "\<forall>(x, y) \<in> set ds. squares x < r"
  shows "radius (of_int r) (map_data of_int ds)"
  unfolding radius_def list_all_iff
proof (intro ballI)
  fix ex
  assume "ex \<in> set (map_data real_of_int ds)"
  then obtain x y where mem: "(x, y) \<in> set ds" and ex: "ex = (map of_int x, of_int y)"
    by (auto simp: map_data_def)
  from assms mem have "squares x + 1 \<le> r" by auto
  then have "real_of_int (squares x + 1) \<le> of_int r" by (simp only: of_int_le_iff)
  then show "case ex of (x, y) \<Rightarrow> inner x x + 1 \<le> real_of_int r"
    by (simp add: ex inner_of_int_self)
qed

lemma classifies_fits:
  assumes "classifies w b ds" and "set L \<subseteq> set ds" and "length (weights self) = length w"
  shows "fits self L"
  unfolding fits_def list_all_iff
proof
  fix ex
  assume "ex \<in> set L"
  with assms(2) have "(fst ex, snd ex) \<in> set ds" by auto
  from classifies_sides(1) [OF assms(1) this] assms(3)
  show "length (fst ex) = length (weights self)" by simp
qed

lemma int_state_bound:
  fixes w :: "int list"
  assumes cls: "classifies w b ds" and l: "0 < l" and r: "0 < r"
    and rad: "\<forall>(x, y) \<in> set ds. squares x < r" and sub: "set L \<subseteq> set ds"
  shows "bounded_by (l * l * r * r * (4 * squares w + (2 * b + 1) * (2 * b + 1)))
           (foldl update \<lparr>weights = replicate (length w) 0, bias = 0, learning_rate = l\<rparr> L)"
proof -
  let ?P0 = "\<lparr>weights = replicate (length w) 0, bias = 0, learning_rate = l\<rparr>"
  let ?U = "map real_of_int (map ((*) 2) w)" and ?C = "real_of_int (2 * b + 1)"
  let ?L = "map_data real_of_int L"
  let ?Q = "foldl update ?P0 L"
  let ?u = "4 * squares w + (2 * b + 1) * (2 * b + 1)"
  let ?S = "squares (weights ?Q) + bias ?Q * bias ?Q"
  have m: "margin ?U ?C 1 ?L"
    using classifies_margin [OF cls] map_data_mono [OF sub, of real_of_int]
    by (auto simp: margin_def list_all_iff)
  have rd: "radius (of_int r) ?L"
    using data_radius [OF rad] map_data_mono [OF sub, of real_of_int]
    by (auto simp: radius_def list_all_iff)
  have fit: "fits ?P0 L" using cls sub by (rule classifies_fits) simp
  have fresh: "map_unit real_of_int ?P0 =
      \<lparr>weights = replicate (length ?U) 0, bias = 0, learning_rate = of_int l\<rparr>"
    by (simp add: map_unit_def)
  let ?mis = "real (misclassified ?P0 L)"
  have mis: "misclassified (map_unit real_of_int ?P0) ?L = misclassified ?P0 L"
    using fit by (rule real_run(2))
  have run: "foldl update (map_unit real_of_int ?P0) ?L = map_unit of_int ?Q"
    using fit by (rule real_run(1))
  have u: "inner ?U ?U + ?C * ?C = of_int ?u"
    by (simp only: inner_double_self) simp
  have lpos: "0 < real_of_int l" and rnn: "0 \<le> real_of_int r" using l r by simp_all
  have "real (misclassified \<lparr>weights = replicate (length ?U) 0, bias = 0,
            learning_rate = of_int l\<rparr> ?L) * (1 * 1) \<le> (inner ?U ?U + ?C * ?C) * of_int r"
    using mistake_bound [OF lpos _ rnn m rd] by simp
  then have mb: "?mis \<le> of_int ?u * of_int r"
    unfolding fresh [symmetric] mis u by simp
  have "sqnorm (foldl update (map_unit real_of_int ?P0) ?L) \<le>
      sqnorm (map_unit real_of_int ?P0) +
      learning_rate (map_unit real_of_int ?P0) * learning_rate (map_unit real_of_int ?P0) *
        of_int r * real (misclassified (map_unit real_of_int ?P0) ?L)"
    using run_bounds [of "map_unit real_of_int ?P0" ?U ?C 1 ?L "of_int r"] lpos m rd
    by simp
  then have "real_of_int ?S \<le> of_int l * of_int l * of_int r * ?mis"
    unfolding run mis sqnorm_map_unit by (simp add: inner_of_int_self)
  also have "\<dots> \<le> of_int l * of_int l * of_int r * (of_int ?u * of_int r)"
    using mb lpos rnn by (intro mult_left_mono) simp_all
  also have "\<dots> = of_int (l * l * r * r * ?u)" by simp
  finally have S: "?S \<le> l * l * r * r * ?u" by (simp only: of_int_le_iff)
  have "\<bar>bias ?Q\<bar> \<le> l * l * r * r * ?u"
    using abs_le_square [of "bias ?Q"] squares_nonneg [of "weights ?Q"] S by linarith
  moreover have "\<bar>a\<bar> \<le> l * l * r * r * ?u" if "a \<in> set (weights ?Q)" for a
  proof -
    have "0 \<le> bias ?Q * bias ?Q" by simp
    with squares_member [OF that] S show ?thesis by linarith
  qed
  ultimately show ?thesis by (simp add: bounded_by_def list_all_iff)
qed

lemma int_epoch_without_errors:
  fixes w :: "int list"
  assumes cls: "classifies w b ds" and l: "0 < l"
  shows "\<exists>k. misclassified
           (foldl update \<lparr>weights = replicate (length w) 0, bias = 0, learning_rate = l\<rparr>
              (concat (replicate k ds))) ds = 0"
proof -
  let ?P0 = "\<lparr>weights = replicate (length w) 0, bias = 0, learning_rate = l\<rparr>"
  let ?U = "map real_of_int (map ((*) 2) w)" and ?C = "real_of_int (2 * b + 1)"
  have fresh: "map_unit real_of_int ?P0 =
      \<lparr>weights = replicate (length ?U) 0, bias = 0, learning_rate = of_int l\<rparr>"
    by (simp add: map_unit_def)
  have lpos: "0 < real_of_int l" using l by simp
  have "\<exists>k. misclassified
           (foldl update \<lparr>weights = replicate (length ?U) 0, bias = 0,
                learning_rate = real_of_int l\<rparr>
              (concat (replicate k (map_data real_of_int ds)))) (map_data real_of_int ds) = 0"
    using margin_epoch_without_errors [OF lpos _ classifies_margin [OF cls]] by simp
  then obtain k where k: "misclassified (foldl update (map_unit real_of_int ?P0)
      (map_data real_of_int (concat (replicate k ds)))) (map_data real_of_int ds) = 0"
    unfolding fresh [symmetric] map_data_concat_replicate by blast
  have fit: "fits ?P0 ds" using cls by (rule classifies_fits) simp_all
  then have fitk: "fits ?P0 (concat (replicate k ds))"
    unfolding fits_def by (rule list_all_concat_replicate)
  let ?Q = "foldl update ?P0 (concat (replicate k ds))"
  have "fits ?Q ds" using fitk fit by (rule fits_foldl_update)
  then have "misclassified (map_unit real_of_int ?Q) (map_data real_of_int ds) = misclassified ?Q ds"
    by (rule real_run(2))
  with k show ?thesis unfolding real_run(1) [OF fitk] by auto
qed

subsection \<open>The run of the program on integer data\<close>

lemma learning_rate_foldl_update: "learning_rate (foldl update self L) = learning_rate self"
  by (induction L arbitrary: self) (simp_all add: learning_rate_update)

lemma set_concat_replicate: "set (concat (replicate k ds)) \<subseteq> set ds"
  by (induction k) auto

lemma f64_activation_bounded:
  assumes len: "length x = length (weights Q)"
    and xb: "list_all (\<lambda>a. \<bar>a\<bar> \<le> X) x" and Q: "bounded_by W Q"
    and nn: "0 \<le> X" "0 \<le> W" "1 \<le> Lr"
    and M: "int (length x) * (X * W) + W + Lr * X + Lr < 2 ^ 53"
  shows "activation_function
           (foldl (+) 0 (map2 (*) (map f64_of_int x) (map f64_of_int (weights Q))) +
            f64_of_int (bias Q)) =
         f64_of_int (activation_function (foldl (+) 0 (map2 (*) x (weights Q)) + bias Q))"
proof -
  let ?ws = "weights Q" and ?b = "bias Q"
  let ?T = "sum_list (map2 (\<lambda>a b. \<bar>a * b\<bar>) x ?ws)"
  from Q have wb: "list_all (\<lambda>a. \<bar>a\<bar> \<le> W) ?ws" and bb: "\<bar>?b\<bar> \<le> W"
    by (simp_all add: bounded_by_def)
  have n0: "0 \<le> int (length x) * (X * W)" using nn by simp
  have LX: "0 \<le> Lr * X" using nn by simp
  have XLX: "X \<le> Lr * X" using nn mult_right_mono [of 1 Lr X] by simp
  have T: "?T \<le> int (length x) * (X * W)" using xb wb nn(1,2) by (rule sum_abs_products_le)
  have Xs: "X < 2 ^ 53" using XLX n0 nn M by linarith
  have Ws: "W < 2 ^ 53" using LX n0 nn M by linarith
  have xs: "list_all (\<lambda>a. \<bar>a\<bar> < 2 ^ 53) x"
    using xb Xs by (auto simp: list_all_iff)
  have ws: "list_all (\<lambda>a. \<bar>a\<bar> < 2 ^ 53) ?ws"
    using wb Ws by (auto simp: list_all_iff)
  have Tb: "?T + \<bar>?b\<bar> < 2 ^ 53" using T bb LX nn M by linarith
  show ?thesis using len xs ws Tb by (rule f64_activation_exact)
qed

lemma f64_step:
  fixes w :: "int list"
  assumes cls: "classifies w b ds" and l: "0 < l" and r: "0 < r"
    and rad: "\<forall>(x, y) \<in> set ds. squares x < r"
    and M: "magnitude w b l r < 2 ^ 53"
    and mem: "(x, y) \<in> set ds"
    and Q: "bounded_by (l * l * r * r * (4 * squares w + (2 * b + 1) * (2 * b + 1))) Q"
    and lr: "learning_rate Q = l"
    and len: "length x = length (weights Q)"
  shows "update (map_unit f64_of_int Q) (map f64_of_int x, f64_of_int y) =
           map_unit f64_of_int (update Q (x, y)) \<and>
         ((f64_of_int y - activation_function
              (foldl (+) 0 (map2 (*) (map f64_of_int x) (map f64_of_int (weights Q))) +
               f64_of_int (bias Q)) \<noteq> 0) =
          (y - activation_function (foldl (+) 0 (map2 (*) x (weights Q)) + bias Q) \<noteq> 0))"
    and "activation_function
           (foldl (+) 0 (map2 (*) (map f64_of_int x) (map f64_of_int (weights Q))) +
            f64_of_int (bias Q)) =
         f64_of_int (activation_function (foldl (+) 0 (map2 (*) x (weights Q)) + bias Q))"
proof -
  define W where "W = l * l * r * r * (4 * squares w + (2 * b + 1) * (2 * b + 1))"
  have u: "0 \<le> 4 * squares w + (2 * b + 1) * (2 * b + 1)"
    using squares_nonneg [of w] zero_le_square [of "2 * b + 1"] by linarith
  have "0 \<le> l * l * r * r" using l r by simp
  then have W: "0 \<le> W" unfolding W_def using u by (rule mult_nonneg_nonneg)
  from classifies_sides [OF cls mem]
  have lenw: "length x = length w"
    and y: "y = activation_function (foldl (+) 0 (map2 (*) x w) + b)" by simp_all
  from y have y01: "y = 0 \<or> y = 1" by (simp add: activation_function_def)
  from rad mem have sq: "squares x < r" by auto
  have xb: "list_all (\<lambda>a. \<bar>a\<bar> \<le> r) x"
    unfolding list_all_iff
  proof
    fix a assume "a \<in> set x"
    from squares_member [OF this] sq show "\<bar>a\<bar> \<le> r" by simp
  qed
  have lr': "\<bar>learning_rate Q\<bar> \<le> l" using l lr by simp
  have nn: "0 \<le> r" "0 \<le> W" "1 \<le> l" using r W l by simp_all
  have "int (length x) * (r * W) + W + l * r + l = magnitude w b l r"
    unfolding magnitude_def W_def [symmetric] lenw by (simp add: algebra_simps)
  with M have M': "int (length x) * (r * W) + W + l * r + l < 2 ^ 53" by simp
  from Q have Q': "bounded_by W Q" by (simp only: W_def)
  show "update (map_unit f64_of_int Q) (map f64_of_int x, f64_of_int y) =
           map_unit f64_of_int (update Q (x, y)) \<and>
         ((f64_of_int y - activation_function
              (foldl (+) 0 (map2 (*) (map f64_of_int x) (map f64_of_int (weights Q))) +
               f64_of_int (bias Q)) \<noteq> 0) =
          (y - activation_function (foldl (+) 0 (map2 (*) x (weights Q)) + bias Q) \<noteq> 0))"
    using len xb Q' y01 lr' nn M' by (rule f64_update_exact)
  show "activation_function
           (foldl (+) 0 (map2 (*) (map f64_of_int x) (map f64_of_int (weights Q))) +
            f64_of_int (bias Q)) =
         f64_of_int (activation_function (foldl (+) 0 (map2 (*) x (weights Q)) + bias Q))"
    using len xb Q' nn M' by (rule f64_activation_bounded)
qed

lemma f64_run:
  fixes w :: "int list"
  assumes cls: "classifies w b ds" and l: "0 < l" and r: "0 < r"
    and rad: "\<forall>(x, y) \<in> set ds. squares x < r"
    and M: "magnitude w b l r < 2 ^ 53"
    and sub1: "set L1 \<subseteq> set ds" and sub2: "set L2 \<subseteq> set ds"
  shows "foldl update
           (map_unit f64_of_int
              (foldl update \<lparr>weights = replicate (length w) 0, bias = 0, learning_rate = l\<rparr> L1))
           (map_data f64_of_int L2) =
         map_unit f64_of_int
           (foldl update \<lparr>weights = replicate (length w) 0, bias = 0, learning_rate = l\<rparr> (L1 @ L2))"
    and "misclassified
           (map_unit f64_of_int
              (foldl update \<lparr>weights = replicate (length w) 0, bias = 0, learning_rate = l\<rparr> L1))
           (map_data f64_of_int L2) =
         misclassified
           (foldl update \<lparr>weights = replicate (length w) 0, bias = 0, learning_rate = l\<rparr> L1) L2"
proof -
  let ?P0 = "\<lparr>weights = replicate (length w) 0, bias = 0, learning_rate = l\<rparr>"
  let ?Q1 = "foldl update ?P0 L1"
  define good where "good = (\<lambda>Q. bounded_by (l * l * r * r * (4 * squares w + (2 * b + 1) * (2 * b + 1))) Q \<and>
      learning_rate Q = l)"
  have step: "\<forall>Q x y. good Q \<and> (x, y) \<in> set L2 \<and> length x = length (weights Q) \<longrightarrow>
            update (map_unit f64_of_int Q) (map f64_of_int x, f64_of_int y) =
              map_unit f64_of_int (update Q (x, y)) \<and>
            ((f64_of_int y - activation_function
                (foldl (+) 0 (map2 (*) (map f64_of_int x) (map f64_of_int (weights Q))) +
                 f64_of_int (bias Q)) \<noteq> 0) =
             (y - activation_function (foldl (+) 0 (map2 (*) x (weights Q)) + bias Q) \<noteq> 0))"
  proof (intro allI impI)
    fix Q x y
    assume a: "good Q \<and> (x, y) \<in> set L2 \<and> length x = length (weights Q)"
    with sub2 have mem: "(x, y) \<in> set ds" by auto
    from a have Q: "bounded_by (l * l * r * r * (4 * squares w + (2 * b + 1) * (2 * b + 1))) Q"
      and lr: "learning_rate Q = l" and len: "length x = length (weights Q)"
      by (simp_all add: good_def)
    from cls l r rad M mem Q lr len
    show "update (map_unit f64_of_int Q) (map f64_of_int x, f64_of_int y) =
              map_unit f64_of_int (update Q (x, y)) \<and>
            ((f64_of_int y - activation_function
                (foldl (+) 0 (map2 (*) (map f64_of_int x) (map f64_of_int (weights Q))) +
                 f64_of_int (bias Q)) \<noteq> 0) =
             (y - activation_function (foldl (+) 0 (map2 (*) x (weights Q)) + bias Q) \<noteq> 0))"
      by (rule f64_step(1))
  qed
  have states: "\<forall>j\<le>length L2. good (foldl update ?Q1 (take j L2))"
  proof (intro allI impI)
    fix j
    have "set (L1 @ take j L2) \<subseteq> set ds"
      using sub1 sub2 set_take_subset [of j L2] by auto
    with cls l r rad
    have "bounded_by (l * l * r * r * (4 * squares w + (2 * b + 1) * (2 * b + 1)))
        (foldl update ?P0 (L1 @ take j L2))" by (rule int_state_bound)
    then show "good (foldl update ?Q1 (take j L2))"
      by (simp add: good_def learning_rate_foldl_update)
  qed
  have fit1: "fits ?P0 L1" using cls sub1 by (rule classifies_fits) simp
  then have "length (weights ?Q1) = length w" by (simp add: length_weights_foldl_update)
  with cls sub2 have fit: "fits ?Q1 L2" by (rule classifies_fits)
  from simulation [of good L2 f64_of_int ?Q1, OF step states fit]
  show "foldl update (map_unit f64_of_int ?Q1) (map_data f64_of_int L2) =
         map_unit f64_of_int (foldl update ?P0 (L1 @ L2))"
    and "misclassified (map_unit f64_of_int ?Q1) (map_data f64_of_int L2) = misclassified ?Q1 L2"
    by simp_all
qed

lemma f64_converges:
  fixes w :: "int list"
  assumes cls: "classifies w b ds" and l: "0 < l" and r: "0 < r"
    and rad: "\<forall>(x, y) \<in> set ds. squares x < r"
    and M: "magnitude w b l r < 2 ^ 53"
  shows "\<exists>k trained.
           train_loop k \<lparr>weights = replicate (length w) 0, bias = 0, learning_rate = f64_of_int l\<rparr>
             (map_data f64_of_int ds) = Inr trained \<and>
           train_epoch trained (map_data f64_of_int ds) = Inr trained \<and>
           misclassified trained (map_data f64_of_int ds) = 0 \<and>
           list_all (\<lambda>(x, y). predict trained x = (Inr y, trained)) (map_data f64_of_int ds)"
proof -
  let ?P0 = "\<lparr>weights = replicate (length w) 0, bias = 0, learning_rate = l\<rparr>"
  let ?W = "l * l * r * r * (4 * squares w + (2 * b + 1) * (2 * b + 1))"
  have fresh: "\<lparr>weights = replicate (length w) 0, bias = 0, learning_rate = f64_of_int l\<rparr> =
      map_unit f64_of_int ?P0" by (simp add: map_unit_def)
  from int_epoch_without_errors [OF cls l] obtain k
    where k: "misclassified (foldl update ?P0 (concat (replicate k ds))) ds = 0" by blast
  let ?Lk = "concat (replicate k ds)"
  let ?Qk = "foldl update ?P0 ?Lk"
  have subk: "set ?Lk \<subseteq> set ds" by (rule set_concat_replicate)
  have sub: "set ds \<subseteq> set ds" and sub0: "set [] \<subseteq> set ds" by simp_all
  have fit: "fits ?P0 ds" using cls sub by (rule classifies_fits) simp
  have fitk: "fits ?P0 ?Lk" using cls subk by (rule classifies_fits) simp
  have fitq: "fits ?Qk ds" using fitk fit by (rule fits_foldl_update)
  have fixed: "foldl update ?Qk ds = ?Qk" using fitq k by (rule zero_misclassified_fixed)
  have correct: "list_all (\<lambda>(x, y). predict ?Qk x = (Inr y, ?Qk)) ds"
    using fitq k by (rule zero_misclassified_correct)
  have run: "foldl update (map_unit f64_of_int ?P0) (map_data f64_of_int ?Lk) =
      map_unit f64_of_int ?Qk"
    using f64_run(1) [OF cls l r rad M sub0 subk] by simp
  have sweep: "foldl update (map_unit f64_of_int ?Qk) (map_data f64_of_int ds) =
      map_unit f64_of_int ?Qk"
    using f64_run(1) [OF cls l r rad M subk sub] fixed by simp
  have mis: "misclassified (map_unit f64_of_int ?Qk) (map_data f64_of_int ds) = 0"
    using f64_run(2) [OF cls l r rad M subk sub] k by simp
  have fit64: "fits (map_unit f64_of_int ?P0) (map_data f64_of_int ds)"
    using fit by (simp add: fits_map_data)
  have fitq64: "fits (map_unit f64_of_int ?Qk) (map_data f64_of_int ds)"
    using fitq by (simp add: fits_map_data)
  have loop: "train_loop k (map_unit f64_of_int ?P0) (map_data f64_of_int ds) =
      Inr (map_unit f64_of_int ?Qk)"
    using train_loop_fits [OF fit64, of k] run by (simp add: map_data_concat_replicate)
  have epoch: "train_epoch (map_unit f64_of_int ?Qk) (map_data f64_of_int ds) =
      Inr (map_unit f64_of_int ?Qk)"
    using train_epoch_fits [OF fitq64] sweep by simp
  have bounded: "bounded_by ?W ?Qk" using cls l r rad subk by (rule int_state_bound)
  have lrq: "learning_rate ?Qk = l" by (simp add: learning_rate_foldl_update)
  have answers: "list_all (\<lambda>(x, y). predict (map_unit f64_of_int ?Qk) x =
      (Inr y, map_unit f64_of_int ?Qk)) (map_data f64_of_int ds)"
    unfolding list_all_iff
  proof
    fix ex
    assume "ex \<in> set (map_data f64_of_int ds)"
    then obtain x y where mem: "(x, y) \<in> set ds"
      and ex: "ex = (map f64_of_int x, f64_of_int y)"
      by (auto simp: map_data_def)
    from fitq mem have len: "length x = length (weights ?Qk)"
      by (auto simp: fits_def list_all_iff)
    from correct mem have "predict ?Qk x = (Inr y, ?Qk)" by (auto simp: list_all_iff)
    with len have y: "y = activation_function (foldl (+) 0 (map2 (*) x (weights ?Qk)) + bias ?Qk)"
      by (simp add: predict_match)
    have len64: "length (map f64_of_int x) = length (weights (map_unit f64_of_int ?Qk))"
      using len by simp
    have "activation_function
           (foldl (+) 0 (map2 (*) (map f64_of_int x) (map f64_of_int (weights ?Qk))) +
            f64_of_int (bias ?Qk)) =
         f64_of_int (activation_function (foldl (+) 0 (map2 (*) x (weights ?Qk)) + bias ?Qk))"
      using cls l r rad M mem bounded lrq len by (rule f64_step(2))
    with y have "predict (map_unit f64_of_int ?Qk) (map f64_of_int x) =
        (Inr (f64_of_int y), map_unit f64_of_int ?Qk)"
      using predict_match [OF len64] by simp
    then show "case ex of (x, y) \<Rightarrow> predict (map_unit f64_of_int ?Qk) x =
        (Inr y, map_unit f64_of_int ?Qk)" by (simp add: ex)
  qed
  from loop epoch mis answers show ?thesis unfolding fresh by blast
qed


text \<open>
  The OR table with learning rate 1 is such a dataset, classified by \<open>x\<^sub>1 + x\<^sub>2 - 1 \<ge> 0\<close>.
  That a sweep is run although the one before it computed no error shows on the dataset
  \<open>[([inf], 1)]\<close>: the third epoch moves the bias from 0.1 to 0.2.
\<close>

lemma OR_separable:
  "classifies [1, 1] (- 1) (zip OR_inputs OR_outputs :: int dataset)"
  "\<forall>x \<in> set (OR_inputs :: int list list). squares x < 3"
  "magnitude [1, 1] (- 1) 1 3 < 2 ^ 53"
  "init (int (length [1, 1 :: int])) (f64_of_int 1) =
     Inr \<lparr>weights = [0, 0], bias = 0, learning_rate = 1\<rparr>"
  by (simp_all add: classifies_def OR_inputs_def OR_outputs_def predict_def dot_def
      activation_function_def magnitude_def init_eq eval_nat_numeral)

lemma third_sweep_runs:
  "train \<lparr>weights = [0], bias = 0, learning_rate = f64_tenth\<rparr> [[PInf]] [1] (int (Suc 1)) =
     Inr \<lparr>weights = [NaN], bias = f64_tenth, learning_rate = f64_tenth\<rparr>"
  "train_epoch \<lparr>weights = [NaN], bias = f64_tenth, learning_rate = f64_tenth\<rparr> (zip [[PInf]] [1]) =
     Inr \<lparr>weights = [NaN], bias = Finite 3602879701896397 (- 54), learning_rate = f64_tenth\<rparr>"
  by code_simp+


text \<open>
  Linear separability alone is not enough in binary64. The rows \<open>[2\<^sup>-\<^sup>1\<^sup>0\<^sup>7\<^sup>4]\<close> with label 0
  and \<open>[- 2\<^sup>-\<^sup>1\<^sup>0\<^sup>7\<^sup>4]\<close> with label 1 (the smallest positive number of the format, printed
  \<^verbatim>\<open>5e-324\<close>, and its negative) are classified by the weight \<open>-1\<close> and the bias 0, by the
  program and in exact arithmetic. From the fresh unit with learning rate 0.1 every
  update of the weight, \<open>0.1 * 2\<^sup>-\<^sup>1\<^sup>0\<^sup>7\<^sup>4\<close>, rounds to zero, and the bias goes to \<open>-0.1\<close> and
  back to 0: every epoch misclassifies both examples and ends in the fresh unit.
\<close>

lemma tiny_inputs_sweep:
  "train_epoch \<lparr>weights = [0], bias = 0, learning_rate = f64_tenth\<rparr>
     (zip [[Finite 1 (- 1074)], [Finite (- 1) (- 1074)]] [0, 1]) =
     Inr \<lparr>weights = [0], bias = 0, learning_rate = f64_tenth\<rparr>"
  by code_simp


end
